theory Spec2Isabelle
  imports Complex_Main "HOL-Library.Word"
begin

unbundle bit_operations_syntax

section \<open>Wind turbine monitoring system: the integrated application\<close>

text \<open>
  A shallow embedding of the application layer under \<open>src/integrated\<close>: the safety task,
  the anomaly detection task, the sensor task, the network task and the stack monitor of
  \<open>main.c\<close>. The kernel (scheduler, mutexes, queues, event groups, heap) is not part of the
  application. Each call into it is modelled by its contract, and every result the code
  branches on (whether \<open>xSemaphoreTake\<close> obtained the mutex within its 10 ms, what
  \<open>xTaskGetTickCount\<close> read, whether \<open>pvPortMalloc\<close> returned a block, what \<open>rand\<close>
  produced, what a queue held) is an explicit input of the function that makes the call.

  C \<open>float\<close> values are modelled as \<open>real\<close>: comparisons of finite floats agree with the
  comparisons of the reals they denote; rounding in the arithmetic of the detector is
  not modelled. \<open>uint32_t\<close> and \<open>TickType_t\<close> (32-bit ticks, \<open>configUSE_16_BIT_TICKS\<close> is 0)
  are \<open>32 word\<close>, so every counter wraps as in C.
\<close>

subsection \<open>Types of \<open>system_state.h\<close>\<close>

type_synonym uint32_t = "32 word"
type_synonym TickType_t = "32 word"
type_synonym size_t = "64 word"
type_synonym UBaseType_t = "64 word"

definition MAX_TASK_NAME_LEN :: nat where
  "MAX_TASK_NAME_LEN = 16"

definition PREEMPTION_HISTORY_SIZE :: uint32_t where
  "PREEMPTION_HISTORY_SIZE = 10"

definition MAX_STACK_MONITORED_TASKS :: uint32_t where
  "MAX_STACK_MONITORED_TASKS = 8"

definition configTICK_RATE_HZ :: TickType_t where
  "configTICK_RATE_HZ = 1000"

text \<open>The kernel's macro \<open>pdMS_TO_TICKS\<close>: milliseconds to ticks, in \<open>TickType_t\<close> arithmetic.\<close>

definition pdMS_TO_TICKS :: "TickType_t \<Rightarrow> TickType_t" where
  "pdMS_TO_TICKS xTimeInMs = (xTimeInMs * configTICK_RATE_HZ) div 1000"

record SensorData_t =
  vibration :: real
  temperature :: real
  rpm :: real
  current :: real
  timestamp :: uint32_t

record PreemptionEvent_t =
  tick :: TickType_t
  preemptor :: string
  preempted :: string
  reason :: string

record AnomalyResults_t =
  vibration_anomaly :: bool
  temperature_anomaly :: bool
  rpm_anomaly :: bool
  health_score :: real
  anomaly_count :: uint32_t

record ISRStats_t =
  interrupt_count :: uint32_t
  processed_count :: uint32_t
  last_latency_us :: uint32_t

record MutexStats_t =
  system_mutex_takes :: uint32_t
  system_mutex_gives :: uint32_t
  system_mutex_timeouts :: uint32_t
  threshold_mutex_takes :: uint32_t
  threshold_mutex_gives :: uint32_t
  threshold_mutex_timeouts :: uint32_t

record EventGroupStats_t =
  bits_set_count :: uint32_t
  bits_cleared_count :: uint32_t
  wait_operations :: uint32_t
  current_event_bits :: uint32_t
  system_ready_time :: TickType_t

record MemoryStats_t =
  allocations :: uint32_t
  deallocations :: uint32_t
  allocation_failures :: uint32_t
  bytes_allocated :: size_t
  peak_usage :: size_t
  current_heap_free :: size_t
  minimum_heap_free :: size_t
  active_allocations :: uint32_t

record StackStats_t =
  warnings_issued :: uint32_t
  high_usage_events :: uint32_t
  critical_usage_events :: uint32_t
  overflow_events :: uint32_t
  proactive_checks :: uint32_t
  tasks_monitored :: uint32_t
  last_warning_time :: TickType_t
  last_warning_task :: string

record TaskStackMonitor_t =
  task_name :: string
  stack_size_words :: UBaseType_t
  current_high_water :: UBaseType_t
  minimum_high_water :: UBaseType_t
  usage_percent :: uint32_t
  peak_usage_percent :: uint32_t
  warning_issued :: bool
  last_check_time :: TickType_t

record StackMonitoringSystem_t =
  tasks :: "TaskStackMonitor_t list"
  monitored_count :: uint32_t
  global_stats :: StackStats_t

record SensorISRData_t =
  isr_vibration :: real
  isr_timestamp :: TickType_t
  isr_sequence :: uint32_t

record AnomalyAlert_t =
  severity :: real
  alert_type :: uint32_t
  alert_timestamp :: TickType_t

text \<open>
  \<open>SystemState_t\<close>, the structure shared by all tasks, with the fields the modelled
  functions read or write. The per-task scheduling statistics and the power statistics
  are touched by none of them and are left out.
\<close>

record SystemState_t =
  sensors :: SensorData_t
  anomalies :: AnomalyResults_t
  preemption_history :: "PreemptionEvent_t list"
  preemption_index :: uint32_t
  isr_stats :: ISRStats_t
  mutex_stats :: MutexStats_t
  event_group_stats :: EventGroupStats_t
  memory_stats :: MemoryStats_t
  stack_monitoring :: StackMonitoringSystem_t
  emergency_stop :: bool
  network_connected :: bool

record ThresholdConfig_t =
  vibration_warning :: real
  vibration_critical :: real
  temperature_warning :: real
  temperature_critical :: real
  rpm_min :: real
  rpm_max :: real
  current_max :: real

text \<open>The thresholds that \<open>system_state_init\<close> writes into \<open>g_thresholds\<close>.\<close>

definition init_thresholds :: ThresholdConfig_t where
  "init_thresholds =
     \<lparr>vibration_warning = 5, vibration_critical = 10,
      temperature_warning = 70, temperature_critical = 85,
      rpm_min = 10, rpm_max = 30, current_max = 100\<rparr>"

subsection \<open>\<open>system_state_init\<close> (\<open>main.c\<close>)\<close>

text \<open>
  \<open>memset\<close> to zero, then the fields the source assigns. \<open>initial_free\<close> is what
  \<open>xPortGetFreeHeapSize\<close> returned.
\<close>

definition zero_event :: PreemptionEvent_t where
  "zero_event = \<lparr>tick = 0, preemptor = [], preempted = [], reason = []\<rparr>"

definition zero_monitor :: TaskStackMonitor_t where
  "zero_monitor = \<lparr>task_name = [], stack_size_words = 0, current_high_water = 0,
     minimum_high_water = 0, usage_percent = 0, peak_usage_percent = 0,
     warning_issued = False, last_check_time = 0\<rparr>"

definition configTOTAL_HEAP_SIZE :: size_t where
  "configTOTAL_HEAP_SIZE = 256 * 1024"

definition system_state_init :: "size_t \<Rightarrow> SystemState_t" where
  "system_state_init initial_free =
     \<lparr>sensors = \<lparr>vibration = 2.45, temperature = 45.2, rpm = 20.1, current = 50, timestamp = 0\<rparr>,
      anomalies = \<lparr>vibration_anomaly = False, temperature_anomaly = False, rpm_anomaly = False,
                   health_score = 100, anomaly_count = 0\<rparr>,
      preemption_history = replicate (unat PREEMPTION_HISTORY_SIZE) zero_event,
      preemption_index = 0,
      isr_stats = \<lparr>interrupt_count = 0, processed_count = 0, last_latency_us = 0\<rparr>,
      mutex_stats = \<lparr>system_mutex_takes = 0, system_mutex_gives = 0, system_mutex_timeouts = 0,
                     threshold_mutex_takes = 0, threshold_mutex_gives = 0,
                     threshold_mutex_timeouts = 0\<rparr>,
      event_group_stats = \<lparr>bits_set_count = 0, bits_cleared_count = 0, wait_operations = 0,
                           current_event_bits = 0, system_ready_time = 0\<rparr>,
      memory_stats = \<lparr>allocations = 0, deallocations = 0, allocation_failures = 0,
                      bytes_allocated = 0, peak_usage = 0,
                      current_heap_free =
                        (if initial_free = 0 then configTOTAL_HEAP_SIZE else initial_free),
                      minimum_heap_free =
                        (if initial_free = 0 then configTOTAL_HEAP_SIZE else initial_free),
                      active_allocations = 0\<rparr>,
      stack_monitoring =
        \<lparr>tasks = replicate (unat MAX_STACK_MONITORED_TASKS) zero_monitor, monitored_count = 0,
         global_stats = \<lparr>warnings_issued = 0, high_usage_events = 0, critical_usage_events = 0,
                          overflow_events = 0, proactive_checks = 0, tasks_monitored = 0,
                          last_warning_time = 0, last_warning_task = []\<rparr>\<rparr>,
      emergency_stop = False,
      network_connected = True\<rparr>"

subsection \<open>The two mutexes and their counters\<close>

text \<open>
  Every critical section of the source has the shape
  \<^verbatim>\<open>if (xSemaphoreTake(m, pdMS_TO_TICKS(10)) == pdTRUE) { takes++; body; gives++; xSemaphoreGive(m); }
  else { timeouts++; }\<close>
  The flag \<open>ok\<close> says whether the take succeeded.
\<close>

definition system_mutex_section ::
  "bool \<Rightarrow> (SystemState_t \<Rightarrow> SystemState_t) \<Rightarrow> SystemState_t \<Rightarrow> SystemState_t" where
  "system_mutex_section ok body g =
     (if ok then
        (let g1 = g\<lparr>mutex_stats := (mutex_stats g)\<lparr>system_mutex_takes :=
                      system_mutex_takes (mutex_stats g) + 1\<rparr>\<rparr>;
             g2 = body g1
         in g2\<lparr>mutex_stats := (mutex_stats g2)\<lparr>system_mutex_gives :=
                      system_mutex_gives (mutex_stats g2) + 1\<rparr>\<rparr>)
      else g\<lparr>mutex_stats := (mutex_stats g)\<lparr>system_mutex_timeouts :=
                      system_mutex_timeouts (mutex_stats g) + 1\<rparr>\<rparr>)"

definition threshold_mutex_section ::
  "bool \<Rightarrow> (SystemState_t \<Rightarrow> SystemState_t) \<Rightarrow> SystemState_t \<Rightarrow> SystemState_t" where
  "threshold_mutex_section ok body g =
     (if ok then
        (let g1 = g\<lparr>mutex_stats := (mutex_stats g)\<lparr>threshold_mutex_takes :=
                      threshold_mutex_takes (mutex_stats g) + 1\<rparr>\<rparr>;
             g2 = body g1
         in g2\<lparr>mutex_stats := (mutex_stats g2)\<lparr>threshold_mutex_gives :=
                      threshold_mutex_gives (mutex_stats g2) + 1\<rparr>\<rparr>)
      else g\<lparr>mutex_stats := (mutex_stats g)\<lparr>threshold_mutex_timeouts :=
                      threshold_mutex_timeouts (mutex_stats g) + 1\<rparr>\<rparr>)"

subsection \<open>\<open>record_preemption\<close> (\<open>main.c\<close>)\<close>

text \<open>\<open>strncpy\<close> of at most 15 characters into a 16-byte field that ends in NUL.\<close>

definition copy_name :: "string \<Rightarrow> string" where
  "copy_name s = take (MAX_TASK_NAME_LEN - 1) s"

definition record_preemption ::
  "TickType_t \<Rightarrow> string \<Rightarrow> string \<Rightarrow> string \<Rightarrow> SystemState_t \<Rightarrow> SystemState_t" where
  "record_preemption now p q r g =
     (let idx = preemption_index g mod PREEMPTION_HISTORY_SIZE;
          event = \<lparr>tick = now, preemptor = copy_name p, preempted = copy_name q, reason = r\<rparr>
      in g\<lparr>preemption_history := (preemption_history g)[unat idx := event],
           preemption_index := preemption_index g + 1\<rparr>)"

subsection \<open>The safety task (\<open>safety_task.c\<close>)\<close>

definition EMERGENCY_STOP_DURATION :: TickType_t where
  "EMERGENCY_STOP_DURATION = 5000"

record SafetyState_t =
  vibration_alarm :: bool
  temperature_alarm :: bool
  rpm_alarm :: bool
  current_alarm :: bool
  emergency_stop_time :: TickType_t
  alarm_count :: uint32_t

text \<open>
  The four checks of \<open>check_critical_conditions\<close>, in the order of the source. Each one
  works on the local \<open>critical\<close> and on \<open>safety_state\<close>: when the condition holds and the
  alarm flag is clear, the flag is set, \<open>alarm_count\<close> is incremented and \<open>critical\<close> becomes
  true; when the condition holds and the flag is already set, nothing changes; when the
  condition does not hold, the flag is cleared.
\<close>

definition check_vibration ::
  "real \<Rightarrow> real \<Rightarrow> bool \<times> SafetyState_t \<Rightarrow> bool \<times> SafetyState_t" where
  "check_vibration vib vib_crit = (\<lambda>(critical, ss).
     if vib > vib_crit then
       (if \<not> vibration_alarm ss
        then (True, ss\<lparr>vibration_alarm := True, alarm_count := alarm_count ss + 1\<rparr>)
        else (critical, ss))
     else (critical, ss\<lparr>vibration_alarm := False\<rparr>))"

definition check_temperature ::
  "real \<Rightarrow> real \<Rightarrow> bool \<times> SafetyState_t \<Rightarrow> bool \<times> SafetyState_t" where
  "check_temperature temp temp_crit = (\<lambda>(critical, ss).
     if temp > temp_crit then
       (if \<not> temperature_alarm ss
        then (True, ss\<lparr>temperature_alarm := True, alarm_count := alarm_count ss + 1\<rparr>)
        else (critical, ss))
     else (critical, ss\<lparr>temperature_alarm := False\<rparr>))"

definition check_rpm ::
  "real \<Rightarrow> real \<Rightarrow> real \<Rightarrow> bool \<times> SafetyState_t \<Rightarrow> bool \<times> SafetyState_t" where
  "check_rpm rpm_v rmin rmax = (\<lambda>(critical, ss).
     if rpm_v < rmin \<or> rpm_v > rmax then
       (if \<not> rpm_alarm ss
        then (True, ss\<lparr>rpm_alarm := True, alarm_count := alarm_count ss + 1\<rparr>)
        else (critical, ss))
     else (critical, ss\<lparr>rpm_alarm := False\<rparr>))"

definition check_current ::
  "real \<Rightarrow> real \<Rightarrow> bool \<times> SafetyState_t \<Rightarrow> bool \<times> SafetyState_t" where
  "check_current cur cmax = (\<lambda>(critical, ss).
     if cur > cmax then
       (if \<not> current_alarm ss
        then (True, ss\<lparr>current_alarm := True, alarm_count := alarm_count ss + 1\<rparr>)
        else (critical, ss))
     else (critical, ss\<lparr>current_alarm := False\<rparr>))"

text \<open>
  \<open>check_critical_conditions\<close>. The locals start at the defaults of the source (readings 0,
  thresholds 10, 85, 10, 30, 100) and are overwritten inside the two critical sections
  when the mutex is obtained. The result is the local \<open>critical\<close>, which starts false and
  becomes true only where an alarm flag goes from clear to set.
\<close>

definition check_critical_conditions ::
  "bool \<Rightarrow> bool \<Rightarrow> ThresholdConfig_t \<Rightarrow> SystemState_t \<Rightarrow> SafetyState_t
     \<Rightarrow> bool \<times> SystemState_t \<times> SafetyState_t" where
  "check_critical_conditions state_ok thr_ok th g ss =
     (let vib = (if state_ok then vibration (sensors g) else 0);
          temp = (if state_ok then temperature (sensors g) else 0);
          rpm_v = (if state_ok then rpm (sensors g) else 0);
          cur = (if state_ok then current (sensors g) else 0);
          g1 = system_mutex_section state_ok (\<lambda>x. x) g;
          vib_crit = (if thr_ok then vibration_critical th else 10);
          temp_crit = (if thr_ok then temperature_critical th else 85);
          rmin = (if thr_ok then rpm_min th else 10);
          rmax = (if thr_ok then rpm_max th else 30);
          cmax = (if thr_ok then current_max th else 100);
          g2 = threshold_mutex_section thr_ok (\<lambda>x. x) g1;
          r = check_current cur cmax
                (check_rpm rpm_v rmin rmax
                  (check_temperature temp temp_crit
                    (check_vibration vib vib_crit (False, ss))))
      in (fst r, g2, snd r))"

text \<open>
  \<open>trigger_emergency_stop\<close>: the flag is written under the state mutex, the timestamp is
  taken after the critical section whether or not the mutex was obtained.
\<close>

definition trigger_emergency_stop ::
  "bool \<Rightarrow> TickType_t \<Rightarrow> TickType_t \<Rightarrow> SystemState_t \<Rightarrow> SafetyState_t
     \<Rightarrow> SystemState_t \<times> SafetyState_t" where
  "trigger_emergency_stop state_ok now now_rec g ss =
     (let g1 = system_mutex_section state_ok (\<lambda>x. x\<lparr>emergency_stop := True\<rparr>) g;
          ss1 = ss\<lparr>emergency_stop_time := now\<rparr>
      in (record_preemption now_rec ''SafetyTask'' ''ALL'' ''EMERGENCY'' g1, ss1))"

text \<open>
  \<open>check_emergency_clear\<close>. \<open>read_ok\<close> is the take that reads the flag, \<open>now\<close> the tick count
  read for \<open>elapsed\<close>, \<open>cc_state_ok\<close> and \<open>cc_thr_ok\<close> the two takes inside the nested call of
  \<open>check_critical_conditions\<close>, \<open>write_ok\<close> the take that clears the flag.
\<close>

definition check_emergency_clear ::
  "bool \<Rightarrow> TickType_t \<Rightarrow> bool \<Rightarrow> bool \<Rightarrow> bool \<Rightarrow> ThresholdConfig_t
     \<Rightarrow> SystemState_t \<Rightarrow> SafetyState_t \<Rightarrow> SystemState_t \<times> SafetyState_t" where
  "check_emergency_clear read_ok now cc_state_ok cc_thr_ok write_ok th g ss =
     (let emergency = (if read_ok then emergency_stop g else False);
          g1 = system_mutex_section read_ok (\<lambda>x. x) g
      in if emergency then
           (let elapsed = now - emergency_stop_time ss
            in if elapsed > pdMS_TO_TICKS EMERGENCY_STOP_DURATION then
                 (case check_critical_conditions cc_state_ok cc_thr_ok th g1 ss of
                    (critical, g2, ss2) \<Rightarrow>
                      if \<not> critical
                      then (system_mutex_section write_ok (\<lambda>x. x\<lparr>emergency_stop := False\<rparr>) g2, ss2)
                      else (g2, ss2))
               else (g1, ss))
         else (g1, ss))"

text \<open>The count of alarm flags that \<open>vSafetyTask\<close> makes in \<open>active_alarms\<close>.\<close>

definition active_alarms :: "SafetyState_t \<Rightarrow> uint32_t" where
  "active_alarms ss =
     (let n0 = 0;
          n1 = (if vibration_alarm ss then n0 + 1 else n0);
          n2 = (if temperature_alarm ss then n1 + 1 else n1);
          n3 = (if rpm_alarm ss then n2 + 1 else n2);
          n4 = (if current_alarm ss then n3 + 1 else n3)
      in n4)"

text \<open>
  What one pass of the loop of \<open>vSafetyTask\<close> obtains from the kernel: the outcome of each
  mutex take and each tick count, in the order of the calls.
\<close>

record SafetyEnv =
  cc_state_ok :: bool
  cc_thr_ok :: bool
  trig_state_ok :: bool
  trig_tick :: TickType_t
  trig_rec_tick :: TickType_t
  clr_read_ok :: bool
  clr_tick :: TickType_t
  clr_cc_state_ok :: bool
  clr_cc_thr_ok :: bool
  clr_write_ok :: bool
  demo_tick :: TickType_t

record SafetyLocals =
  cycle_count :: uint32_t
  preemption_demo_count :: uint32_t

text \<open>
  The body of the \<open>while (1)\<close> loop of \<open>vSafetyTask\<close>, after \<open>vTaskDelayUntil\<close> returns. During
  the pass the shared state is changed by this task only.
\<close>

definition vSafetyTask_cycle ::
  "SafetyEnv \<Rightarrow> ThresholdConfig_t \<Rightarrow> SystemState_t \<times> SafetyState_t \<times> SafetyLocals
     \<Rightarrow> SystemState_t \<times> SafetyState_t \<times> SafetyLocals" where
  "vSafetyTask_cycle env th = (\<lambda>(g, ss, loc).
     (let loc1 = loc\<lparr>cycle_count := cycle_count loc + 1\<rparr>
      in case check_critical_conditions (cc_state_ok env) (cc_thr_ok env) th g ss of
        (critical, g1, ss1) \<Rightarrow>
          (case (if critical \<and> active_alarms ss1 \<ge> 2
                 then trigger_emergency_stop (trig_state_ok env) (trig_tick env)
                        (trig_rec_tick env) g1 ss1
                 else (g1, ss1)) of
             (g2, ss2) \<Rightarrow>
               (case check_emergency_clear (clr_read_ok env) (clr_tick env)
                       (clr_cc_state_ok env) (clr_cc_thr_ok env) (clr_write_ok env) th g2 ss2 of
                  (g3, ss3) \<Rightarrow>
                    if cycle_count loc1 mod 100 = 0 then
                      (let loc2 = loc1\<lparr>preemption_demo_count := preemption_demo_count loc1 + 1\<rparr>;
                           victim =
                             (if preemption_demo_count loc2 mod 4 = 0 then ''SensorTask''
                              else if preemption_demo_count loc2 mod 4 = 1 then ''AnomalyTask''
                              else if preemption_demo_count loc2 mod 4 = 2 then ''NetworkTask''
                              else ''DashboardTask'')
                       in (record_preemption (demo_tick env) ''SafetyTask'' victim ''Priority'' g3,
                           ss3, loc2))
                    else (g3, ss3, loc1)))))"

text \<open>\<open>static SafetyState_t safety_state = {0}\<close>.\<close>

definition init_safety_state :: SafetyState_t where
  "init_safety_state = \<lparr>vibration_alarm = False, temperature_alarm = False, rpm_alarm = False,
     current_alarm = False, emergency_stop_time = 0, alarm_count = 0\<rparr>"

subsection \<open>Kernel objects: queues and the event group\<close>

text \<open>
  The contracts of the kernel calls the tasks make. A queue is the list of its items,
  oldest first, with the capacity given to \<open>xQueueCreate\<close> in \<open>main\<close>. A send with a full
  queue fails (after its timeout) and leaves the queue as it was; a receive with timeout 0
  on an empty queue fails. The event group is its word of bits.
\<close>

definition SENSOR_ISR_QUEUE_LENGTH :: nat where
  "SENSOR_ISR_QUEUE_LENGTH = 10"

definition SENSOR_DATA_QUEUE_LENGTH :: nat where
  "SENSOR_DATA_QUEUE_LENGTH = 5"

definition ANOMALY_ALERT_QUEUE_LENGTH :: nat where
  "ANOMALY_ALERT_QUEUE_LENGTH = 3"

definition xQueueSend :: "nat \<Rightarrow> 'a list \<Rightarrow> 'a \<Rightarrow> bool \<times> 'a list" where
  "xQueueSend capacity q item = (if length q < capacity then (True, q @ [item]) else (False, q))"

definition xQueueReceive :: "'a list \<Rightarrow> ('a \<times> 'a list) option" where
  "xQueueReceive q = (case q of [] \<Rightarrow> None | item # rest \<Rightarrow> Some (item, rest))"

definition SENSORS_CALIBRATED_BIT :: uint32_t where
  "SENSORS_CALIBRATED_BIT = push_bit 0 1"

definition NETWORK_CONNECTED_BIT :: uint32_t where
  "NETWORK_CONNECTED_BIT = push_bit 1 1"

definition ANOMALY_READY_BIT :: uint32_t where
  "ANOMALY_READY_BIT = push_bit 2 1"

definition ALL_SYSTEMS_READY :: uint32_t where
  "ALL_SYSTEMS_READY = SENSORS_CALIBRATED_BIT OR NETWORK_CONNECTED_BIT OR ANOMALY_READY_BIT"

definition xEventGroupSetBits :: "uint32_t \<Rightarrow> uint32_t \<Rightarrow> uint32_t" where
  "xEventGroupSetBits event_bits bits_to_set = event_bits OR bits_to_set"

definition xEventGroupClearBits :: "uint32_t \<Rightarrow> uint32_t \<Rightarrow> uint32_t" where
  "xEventGroupClearBits event_bits bits_to_clear = event_bits AND NOT bits_to_clear"

text \<open>
  \<open>xEventGroupWaitBits\<close> with \<open>portMAX_DELAY\<close>: the call returns once the bits waited for are
  set (all of them, or one of them), and not before. \<open>None\<close> is the caller still blocked, and
  the result is the value returned together with the event group after the call, in which
  the bits waited for are cleared only when \<open>clear_on_exit\<close> is set.
\<close>

definition xEventGroupWaitBits ::
  "uint32_t \<Rightarrow> uint32_t \<Rightarrow> bool \<Rightarrow> bool \<Rightarrow> (uint32_t \<times> uint32_t) option" where
  "xEventGroupWaitBits event_bits bits_to_wait_for clear_on_exit wait_for_all =
     (if (if wait_for_all then event_bits AND bits_to_wait_for = bits_to_wait_for
          else event_bits AND bits_to_wait_for \<noteq> 0)
      then Some (event_bits,
                 if clear_on_exit then event_bits AND NOT bits_to_wait_for else event_bits)
      else None)"

record Kernel =
  xSystemReadyEvents :: uint32_t
  xSensorISRQueue :: "SensorISRData_t list"
  xSensorDataQueue :: "SensorData_t list"
  xAnomalyAlertQueue :: "AnomalyAlert_t list"
  heap_blocks :: "size_t list"

text \<open>
  The start of \<open>vSafetyTask\<close>, before its loop: the wait for the three readiness bits
  (\<open>pdFALSE\<close>: the bits are not cleared, \<open>pdTRUE\<close>: all of them are waited for), the update of
  the statistics under the state mutex, and the local \<open>system_ready\<close>. \<open>None\<close> is the task
  still waiting.
\<close>

definition vSafetyTask_startup ::
  "bool \<Rightarrow> TickType_t \<Rightarrow> SystemState_t \<times> Kernel \<Rightarrow> (SystemState_t \<times> Kernel \<times> bool) option" where
  "vSafetyTask_startup stats_ok now gk =
     (case gk of (g, k) \<Rightarrow>
        (case xEventGroupWaitBits (xSystemReadyEvents k) ALL_SYSTEMS_READY False True of
           None \<Rightarrow> None
         | Some (ready_bits, events) \<Rightarrow>
             Some (system_mutex_section stats_ok
                     (\<lambda>x. x\<lparr>event_group_stats := (event_group_stats x)
                             \<lparr>wait_operations := wait_operations (event_group_stats x) + 1,
                              system_ready_time := now\<rparr>\<rparr>) g,
                   k\<lparr>xSystemReadyEvents := events\<rparr>,
                   ready_bits AND ALL_SYSTEMS_READY = ALL_SYSTEMS_READY)))"

subsection \<open>The anomaly detection task (\<open>anomaly_task.c\<close>)\<close>

definition HISTORY_SIZE :: nat where
  "HISTORY_SIZE = 100"

definition BASELINE_WINDOW :: uint32_t where
  "BASELINE_WINDOW = 20"

record DetectionState_t =
  vibration_history :: "real list"
  temperature_history :: "real list"
  rpm_history :: "real list"
  history_index :: uint32_t
  vibration_baseline :: real
  temperature_baseline :: real
  rpm_baseline :: real
  vibration_stddev :: real
  temperature_stddev :: real
  rpm_stddev :: real

text \<open>\<open>static DetectionState_t detection_state = {0}\<close>: three arrays of \<open>HISTORY_SIZE\<close> zeros.\<close>

definition init_detection_state :: DetectionState_t where
  "init_detection_state =
     \<lparr>vibration_history = replicate HISTORY_SIZE 0,
      temperature_history = replicate HISTORY_SIZE 0,
      rpm_history = replicate HISTORY_SIZE 0,
      history_index = 0,
      vibration_baseline = 0, temperature_baseline = 0, rpm_baseline = 0,
      vibration_stddev = 0, temperature_stddev = 0, rpm_stddev = 0\<rparr>"

text \<open>
  An access to element \<open>i\<close> of a history array. The arrays have \<open>HISTORY_SIZE\<close> elements; C
  gives no meaning to an access beyond them, and the model reports it.
\<close>

datatype fault = OutOfBounds nat

definition read_history :: "real list \<Rightarrow> nat \<Rightarrow> fault + real" where
  "read_history a i = (if i < length a then Inr (a ! i) else Inl (OutOfBounds i))"

definition write_history :: "real list \<Rightarrow> nat \<Rightarrow> real \<Rightarrow> fault + real list" where
  "write_history a i v = (if i < length a then Inr (a[i := v]) else Inl (OutOfBounds i))"

text \<open>
  The loop of \<open>calculate_mean\<close>. The argument \<open>data\<close> of the source is the address of element
  \<open>start\<close> of a history array, so \<open>data[i]\<close> is element \<open>start + i\<close> of that array. In
  \<open>mean_loop a i n sum_v\<close>, \<open>i\<close> is the element of the array that the next iteration reads,
  \<open>n\<close> the number of iterations left and \<open>sum_v\<close> the local \<open>sum\<close>; \<open>calculate_mean a start n\<close>
  is the call with \<open>data = &a[start]\<close> and \<open>size = n\<close>. The sums, the quotient and the square
  root are those of the reals; the code rounds each of them to single precision.
\<close>

fun mean_loop :: "real list \<Rightarrow> nat \<Rightarrow> nat \<Rightarrow> real \<Rightarrow> fault + real" where
  "mean_loop a i 0 sum_v = Inr sum_v"
| "mean_loop a i (Suc n) sum_v =
     (case read_history a i of
        Inl e \<Rightarrow> Inl e
      | Inr v \<Rightarrow> mean_loop a (Suc i) n (sum_v + v))"

definition calculate_mean :: "real list \<Rightarrow> nat \<Rightarrow> nat \<Rightarrow> fault + real" where
  "calculate_mean a start n =
     (case mean_loop a start n 0 of
        Inl e \<Rightarrow> Inl e
      | Inr sum_v \<Rightarrow> Inr (sum_v / real n))"

fun stddev_loop :: "real list \<Rightarrow> nat \<Rightarrow> nat \<Rightarrow> real \<Rightarrow> real \<Rightarrow> fault + real" where
  "stddev_loop a i 0 mean sum_sq = Inr sum_sq"
| "stddev_loop a i (Suc n) mean sum_sq =
     (case read_history a i of
        Inl e \<Rightarrow> Inl e
      | Inr v \<Rightarrow> (let diff = v - mean in stddev_loop a (Suc i) n mean (sum_sq + diff * diff)))"

definition calculate_stddev :: "real list \<Rightarrow> nat \<Rightarrow> nat \<Rightarrow> real \<Rightarrow> fault + real" where
  "calculate_stddev a start n mean =
     (case stddev_loop a start n mean 0 of
        Inl e \<Rightarrow> Inl e
      | Inr sum_sq \<Rightarrow> Inr (sqrt (sum_sq / real n)))"

text \<open>
  \<open>update_baselines\<close>: the window is the \<open>count\<close> elements from \<open>start_idx\<close>, where
  \<open>start_idx = history_index - BASELINE_WINDOW\<close> once \<open>history_index\<close> has reached the window
  size. The three means are computed first, then the three deviations.
\<close>

definition update_baselines :: "DetectionState_t \<Rightarrow> fault + DetectionState_t" where
  "update_baselines ds =
     (let start_idx = (if history_index ds < BASELINE_WINDOW then 0
                       else history_index ds - BASELINE_WINDOW);
          count = (if history_index ds < BASELINE_WINDOW then history_index ds
                   else BASELINE_WINDOW);
          s = unat start_idx;
          c = unat count
      in if count > 0 then
           (case calculate_mean (vibration_history ds) s c of Inl e \<Rightarrow> Inl e | Inr vb \<Rightarrow>
            case calculate_mean (temperature_history ds) s c of Inl e \<Rightarrow> Inl e | Inr tb \<Rightarrow>
            case calculate_mean (rpm_history ds) s c of Inl e \<Rightarrow> Inl e | Inr rb \<Rightarrow>
            case calculate_stddev (vibration_history ds) s c vb of Inl e \<Rightarrow> Inl e | Inr vs \<Rightarrow>
            case calculate_stddev (temperature_history ds) s c tb of Inl e \<Rightarrow> Inl e | Inr ts \<Rightarrow>
            case calculate_stddev (rpm_history ds) s c rb of Inl e \<Rightarrow> Inl e | Inr rs \<Rightarrow>
              Inr (ds\<lparr>vibration_baseline := vb, temperature_baseline := tb, rpm_baseline := rb,
                      vibration_stddev := vs, temperature_stddev := ts, rpm_stddev := rs\<rparr>))
         else Inr ds)"

text \<open>The \<open>Store in history\<close> step of \<open>detect_anomalies\<close>.\<close>

definition store_in_history ::
  "real \<Rightarrow> real \<Rightarrow> real \<Rightarrow> DetectionState_t \<Rightarrow> fault + DetectionState_t" where
  "store_in_history vib temp rpm_v ds =
     (let idx = unat (history_index ds mod of_nat HISTORY_SIZE)
      in case write_history (vibration_history ds) idx vib of Inl e \<Rightarrow> Inl e | Inr vh \<Rightarrow>
         case write_history (temperature_history ds) idx temp of Inl e \<Rightarrow> Inl e | Inr th \<Rightarrow>
         case write_history (rpm_history ds) idx rpm_v of Inl e \<Rightarrow> Inl e | Inr rh \<Rightarrow>
           Inr (ds\<lparr>vibration_history := vh, temperature_history := th, rpm_history := rh,
                   history_index := history_index ds + 1\<rparr>))"

text \<open>
  The health score block of \<open>detect_anomalies\<close>: 100, minus for each channel with a positive
  deviation estimate the smaller of the scaled score and the cap.
\<close>

definition health_from_deviations :: "real \<Rightarrow> real \<Rightarrow> real \<Rightarrow> DetectionState_t \<Rightarrow> real" where
  "health_from_deviations vib temp rpm_v ds =
     (let health0 = 100;
          health1 = (if vibration_stddev ds > 0 then
                       (let vib_score = \<bar>vib - vibration_baseline ds\<bar> / (vibration_stddev ds * 3)
                        in health0 - min (vib_score * 20) 30)
                     else health0);
          health2 = (if temperature_stddev ds > 0 then
                       (let temp_score = \<bar>temp - temperature_baseline ds\<bar> / (temperature_stddev ds * 3)
                        in health1 - min (temp_score * 15) 25)
                     else health1);
          health3 = (if rpm_stddev ds > 0 then
                       (let rpm_score = \<bar>rpm_v - rpm_baseline ds\<bar> / (rpm_stddev ds * 3)
                        in health2 - min (rpm_score * 15) 25)
                     else health2)
      in health3)"

text \<open>The three anomaly tests of \<open>detect_anomalies\<close>, made when \<open>history_index > BASELINE_WINDOW\<close>.\<close>

definition vib_anomaly_test :: "real \<Rightarrow> real \<Rightarrow> DetectionState_t \<Rightarrow> bool" where
  "vib_anomaly_test vib vib_warning ds =
     (history_index ds > BASELINE_WINDOW \<and>
      (\<bar>vib - vibration_baseline ds\<bar> > 3 * vibration_stddev ds \<or> vib > vib_warning))"

definition temp_anomaly_test :: "real \<Rightarrow> real \<Rightarrow> DetectionState_t \<Rightarrow> bool" where
  "temp_anomaly_test temp temp_warning ds =
     (history_index ds > BASELINE_WINDOW \<and>
      (\<bar>temp - temperature_baseline ds\<bar> > 3 * temperature_stddev ds \<or> temp > temp_warning))"

definition rpm_anomaly_test :: "real \<Rightarrow> real \<Rightarrow> real \<Rightarrow> DetectionState_t \<Rightarrow> bool" where
  "rpm_anomaly_test rpm_v rmin rmax ds =
     (history_index ds > BASELINE_WINDOW \<and>
      (\<bar>rpm_v - rpm_baseline ds\<bar> > 3 * rpm_stddev ds \<or> rpm_v < rmin \<or> rpm_v > rmax))"

text \<open>
  The four mutex takes of \<open>detect_anomalies\<close>, in order: reading the sensors, reading the
  thresholds, reading the emergency stop flag, publishing the results.
\<close>

record DetectEnv =
  det_read_ok :: bool
  det_thr_ok :: bool
  det_emergency_ok :: bool
  det_publish_ok :: bool

text \<open>
  The part of \<open>detect_anomalies\<close> after \<open>update_baselines\<close>: the thresholds are read, the
  three tests are made, the health score is computed, the emergency stop flag is read and
  the results are written to the shared state. \<open>vib\<close>, \<open>temp\<close> and \<open>rpm_v\<close> are the locals
  read at the start of the function.
\<close>

definition evaluate_and_publish ::
  "DetectEnv \<Rightarrow> ThresholdConfig_t \<Rightarrow> real \<Rightarrow> real \<Rightarrow> real \<Rightarrow> SystemState_t \<Rightarrow> DetectionState_t
     \<Rightarrow> SystemState_t" where
  "evaluate_and_publish env th vib temp rpm_v g1 ds2 =
     (let vib_warning = (if det_thr_ok env then vibration_warning th else 5);
          temp_warning = (if det_thr_ok env then temperature_warning th else 70);
          rmin = (if det_thr_ok env then rpm_min th else 10);
          rmax = (if det_thr_ok env then rpm_max th else 30);
          g2 = threshold_mutex_section (det_thr_ok env) (\<lambda>x. x) g1;
          vib_anomaly = vib_anomaly_test vib vib_warning ds2;
          temp_anomaly = temp_anomaly_test temp temp_warning ds2;
          rpm_anomaly_v = rpm_anomaly_test rpm_v rmin rmax ds2;
          count = (if vib_anomaly then 1 else 0) + (if temp_anomaly then 1 else 0)
                  + (if rpm_anomaly_v then 1 else (0::uint32_t));
          health = health_from_deviations vib temp rpm_v ds2;
          emergency = (if det_emergency_ok env then emergency_stop g2 else False);
          g3 = system_mutex_section (det_emergency_ok env) (\<lambda>x. x) g2;
          health' = (if emergency then 0 else health)
      in system_mutex_section (det_publish_ok env)
           (\<lambda>x. x\<lparr>anomalies := (anomalies x)
                   \<lparr>vibration_anomaly := vib_anomaly,
                    temperature_anomaly := temp_anomaly,
                    rpm_anomaly := rpm_anomaly_v,
                    anomaly_count := (if count > 0 then anomaly_count (anomalies x) + count
                                      else anomaly_count (anomalies x)),
                    health_score := max health' 0\<rparr>\<rparr>) g3)"

definition detect_anomalies ::
  "DetectEnv \<Rightarrow> ThresholdConfig_t \<Rightarrow> SystemState_t \<Rightarrow> DetectionState_t
     \<Rightarrow> fault + (SystemState_t \<times> DetectionState_t)" where
  "detect_anomalies env th g ds =
     (let vib = (if det_read_ok env then vibration (sensors g) else 0);
          temp = (if det_read_ok env then temperature (sensors g) else 0);
          rpm_v = (if det_read_ok env then rpm (sensors g) else 0);
          g1 = system_mutex_section (det_read_ok env) (\<lambda>x. x) g
      in case store_in_history vib temp rpm_v ds of Inl e \<Rightarrow> Inl e | Inr ds1 \<Rightarrow>
         case update_baselines ds1 of Inl e \<Rightarrow> Inl e | Inr ds2 \<Rightarrow>
           Inr (evaluate_and_publish env th vib temp rpm_v g1 ds2, ds2))"

text \<open>
  The receive loop of \<open>vAnomalyTask\<close>: up to \<open>items_to_consume\<close> readings are taken from
  the sensor data queue; each one is copied into the shared state under the state mutex.
  \<open>n\<close> is the number of readings still wanted, \<open>items_processed\<close> the number taken so far,
  \<open>oks k\<close> the outcome of the take made for reading number \<open>k\<close>.
\<close>

fun receive_items ::
  "nat \<Rightarrow> (nat \<Rightarrow> bool) \<Rightarrow> nat \<Rightarrow> SensorData_t list \<Rightarrow> SystemState_t
     \<Rightarrow> nat \<times> SensorData_t list \<times> SystemState_t" where
  "receive_items 0 oks items_processed q g = (items_processed, q, g)"
| "receive_items (Suc n) oks items_processed q g =
     (case xQueueReceive q of
        None \<Rightarrow> (items_processed, q, g)
      | Some (sensor_data, rest) \<Rightarrow>
          receive_items n oks (Suc items_processed) rest
            (system_mutex_section (oks items_processed) (\<lambda>x. x\<lparr>sensors := sensor_data\<rparr>) g))"

record AnomalyLocals =
  an_cycle_count :: uint32_t
  anomaly_ready :: bool

record AnomalyEnv =
  store_ok :: "nat \<Rightarrow> bool"
  detect_env :: DetectEnv
  ready_stats_ok :: bool
  alert_ok :: bool
  alert_tick :: TickType_t

text \<open>
  The alert block of \<open>vAnomalyTask\<close>, reached only when a reading was received in this
  pass: on an even \<open>cycle_count\<close>, under the state mutex, an alert is prepared when the
  vibration or the temperature anomaly flag of the shared state is set, and is then sent
  with timeout 0.
\<close>

definition send_anomaly_alert ::
  "bool \<Rightarrow> TickType_t \<Rightarrow> uint32_t \<Rightarrow> SystemState_t \<Rightarrow> Kernel \<Rightarrow> SystemState_t \<times> Kernel" where
  "send_anomaly_alert ok now cnt g k =
     (if cnt mod 2 = 0 then
        (let send_alert = (ok \<and> (vibration_anomaly (anomalies g) \<or> temperature_anomaly (anomalies g)));
             alert = \<lparr>severity = (if vibration_anomaly (anomalies g) then 8 else 5),
                      alert_type = (if vibration_anomaly (anomalies g) then 0 else 1),
                      alert_timestamp = now\<rparr>;
             g1 = system_mutex_section ok (\<lambda>x. x) g
         in if send_alert
            then (g1, k\<lparr>xAnomalyAlertQueue :=
                          snd (xQueueSend ANOMALY_ALERT_QUEUE_LENGTH (xAnomalyAlertQueue k) alert)\<rparr>)
            else (g1, k))
      else (g, k))"

text \<open>The readiness block of \<open>vAnomalyTask\<close>.\<close>

definition signal_anomaly_ready ::
  "bool \<Rightarrow> DetectionState_t \<Rightarrow> SystemState_t \<Rightarrow> Kernel \<Rightarrow> AnomalyLocals
     \<Rightarrow> SystemState_t \<times> Kernel \<times> AnomalyLocals" where
  "signal_anomaly_ready ok ds g k loc =
     (if \<not> anomaly_ready loc \<and> history_index ds \<ge> BASELINE_WINDOW then
        (system_mutex_section ok
                (\<lambda>x. x\<lparr>event_group_stats := (event_group_stats x)
                        \<lparr>bits_set_count := bits_set_count (event_group_stats x) + 1,
                         current_event_bits :=
                           current_event_bits (event_group_stats x) OR ANOMALY_READY_BIT\<rparr>\<rparr>) g,
         k\<lparr>xSystemReadyEvents := xEventGroupSetBits (xSystemReadyEvents k) ANOMALY_READY_BIT\<rparr>,
         loc\<lparr>anomaly_ready := True\<rparr>)
      else (g, k, loc))"

text \<open>
  The body of the loop of \<open>vAnomalyTask\<close>, after \<open>vTaskDelayUntil\<close> returns, in three parts.
  The first part counts the pass and takes the readings from the queue. Then
  \<open>detect_anomalies\<close> is called: the source makes the call as the first statement of both
  branches of \<open>if (items_processed > 0)\<close>. The last part is what follows the call: the
  readiness block and the alert block when a reading was received, nothing otherwise. It
  works on whatever shared state and detection state the call has left.
\<close>

definition vAnomalyTask_receive ::
  "AnomalyEnv \<Rightarrow> SystemState_t \<Rightarrow> Kernel \<Rightarrow> AnomalyLocals
     \<Rightarrow> nat \<times> SystemState_t \<times> Kernel \<times> AnomalyLocals" where
  "vAnomalyTask_receive env g k loc =
     (let loc1 = loc\<lparr>an_cycle_count := an_cycle_count loc + 1\<rparr>;
          items_to_consume = (if an_cycle_count loc1 mod 2 = 0 then 1 else 2)
      in case receive_items items_to_consume (store_ok env) 0 (xSensorDataQueue k) g of
           (items_processed, q, g1) \<Rightarrow> (items_processed, g1, k\<lparr>xSensorDataQueue := q\<rparr>, loc1))"

definition vAnomalyTask_report ::
  "AnomalyEnv \<Rightarrow> nat \<Rightarrow> DetectionState_t \<Rightarrow> SystemState_t \<Rightarrow> Kernel \<Rightarrow> AnomalyLocals
     \<Rightarrow> SystemState_t \<times> Kernel \<times> AnomalyLocals" where
  "vAnomalyTask_report env items_processed ds2 g2 k1 loc1 =
     (if items_processed > 0 then
        (case signal_anomaly_ready (ready_stats_ok env) ds2 g2 k1 loc1 of
           (g3, k2, loc2) \<Rightarrow>
             (case send_anomaly_alert (alert_ok env) (alert_tick env) (an_cycle_count loc2) g3 k2 of
                (g4, k3) \<Rightarrow> (g4, k3, loc2)))
      else (g2, k1, loc1))"

definition vAnomalyTask_cycle ::
  "AnomalyEnv \<Rightarrow> ThresholdConfig_t \<Rightarrow> SystemState_t \<times> DetectionState_t \<times> Kernel \<times> AnomalyLocals
     \<Rightarrow> fault + (SystemState_t \<times> DetectionState_t \<times> Kernel \<times> AnomalyLocals)" where
  "vAnomalyTask_cycle env th = (\<lambda>(g, ds, k, loc).
     case vAnomalyTask_receive env g k loc of
       (items_processed, g1, k1, loc1) \<Rightarrow>
         (case detect_anomalies (detect_env env) th g1 ds of
            Inl e \<Rightarrow> Inl e
          | Inr (g2, ds2) \<Rightarrow>
              (case vAnomalyTask_report env items_processed ds2 g2 k1 loc1 of
                 (g4, k3, loc2) \<Rightarrow> Inr (g4, ds2, k3, loc2))))"

subsection \<open>The sensor task (\<open>sensor_task.c\<close>)\<close>

text \<open>
  \<open>read_sensor_with_noise\<close> and \<open>simulate_drift\<close>. \<open>r\<close> is the value that \<open>rand\<close> returned
  (not negative).
\<close>

definition read_sensor_with_noise :: "real \<Rightarrow> real \<Rightarrow> nat \<Rightarrow> real" where
  "read_sensor_with_noise base_value noise_level r =
     (let noise = (real (r mod 1000) / 1000 - 0.5) * 2 * noise_level
      in base_value + noise)"

definition simulate_drift :: "real \<Rightarrow> real \<Rightarrow> real \<Rightarrow> real" where
  "simulate_drift cur target rate = (let diff = target - cur in cur + diff * rate)"

record SensorLocals =
  base_vibration :: real
  base_temperature :: real
  base_rpm :: real
  base_current :: real
  target_vibration :: real
  target_temperature :: real
  sn_cycle_count :: uint32_t
  sensors_calibrated :: bool

text \<open>The locals of \<open>vSensorTask\<close> when it enters its loop.\<close>

definition init_sensor_locals :: SensorLocals where
  "init_sensor_locals =
     \<lparr>base_vibration = 2.5, base_temperature = 45, base_rpm = 20, base_current = 50,
      target_vibration = 2.5, target_temperature = 45, sn_cycle_count = 0,
      sensors_calibrated = False\<rparr>"

text \<open>
  The calibration block: after 20 passes, once, the calibrated bit is set in the event
  group and the statistics are updated under the state mutex.
\<close>

definition signal_sensors_calibrated ::
  "bool \<Rightarrow> SystemState_t \<Rightarrow> Kernel \<Rightarrow> SensorLocals \<Rightarrow> SystemState_t \<times> Kernel \<times> SensorLocals" where
  "signal_sensors_calibrated ok g k loc =
     (if \<not> sensors_calibrated loc \<and> sn_cycle_count loc \<ge> 20 then
        (system_mutex_section ok
           (\<lambda>x. x\<lparr>event_group_stats := (event_group_stats x)
                   \<lparr>bits_set_count := bits_set_count (event_group_stats x) + 1,
                    current_event_bits :=
                      current_event_bits (event_group_stats x) OR SENSORS_CALIBRATED_BIT\<rparr>\<rparr>) g,
         k\<lparr>xSystemReadyEvents := xEventGroupSetBits (xSystemReadyEvents k) SENSORS_CALIBRATED_BIT\<rparr>,
         loc\<lparr>sensors_calibrated := True\<rparr>)
      else (g, k, loc))"

text \<open>
  What the body of the drain loop does with one deferred sample: \<open>now\<close> is the tick count
  read for the latency, \<open>stop_ok\<close> the take that guards the write of the emergency stop
  flag (made only when the vibration of the sample is above 80), \<open>stats_ok\<close> the take that
  guards the statistics. The result carries the new \<open>min_latency\<close> and \<open>base_vibration\<close>.
\<close>

definition process_isr_sample ::
  "TickType_t \<Rightarrow> bool \<Rightarrow> bool \<Rightarrow> SensorISRData_t \<Rightarrow> TickType_t \<times> real \<times> SystemState_t
     \<Rightarrow> TickType_t \<times> real \<times> SystemState_t" where
  "process_isr_sample now stop_ok stats_ok isr_data = (\<lambda>(min_latency, base_vib, g).
     (let latency_ticks = now - isr_timestamp isr_data;
          min_latency' = (if latency_ticks < min_latency then latency_ticks else min_latency);
          base_vib' = isr_vibration isr_data;
          g1 = (if isr_vibration isr_data > 80
                then system_mutex_section stop_ok (\<lambda>x. x\<lparr>emergency_stop := True\<rparr>) g
                else g);
          g2 = system_mutex_section stats_ok
                 (\<lambda>x. x\<lparr>isr_stats := (isr_stats x)
                         \<lparr>processed_count := processed_count (isr_stats x) + 1\<rparr>\<rparr>) g1
      in (min_latency', base_vib', g2)))"

text \<open>
  The outcomes the kernel gives for sample number \<open>i\<close> of a pass: the tick count and the
  two mutex takes.
\<close>

record IsrEnv =
  isr_tick :: "nat \<Rightarrow> TickType_t"
  isr_stop_ok :: "nat \<Rightarrow> bool"
  isr_stats_ok :: "nat \<Rightarrow> bool"

text \<open>
  The drain loop \<open>while (xQueueReceive(xSensorISRQueue, &isr_data, 0) == pdTRUE)\<close>, on the
  samples that the queue delivers during the pass, oldest first. \<open>items_processed\<close> counts
  them.
\<close>

fun drain_isr_queue ::
  "IsrEnv \<Rightarrow> nat \<Rightarrow> SensorISRData_t list \<Rightarrow> TickType_t \<times> real \<times> SystemState_t
     \<Rightarrow> nat \<times> TickType_t \<times> real \<times> SystemState_t" where
  "drain_isr_queue env items_processed [] st = (items_processed, st)"
| "drain_isr_queue env items_processed (isr_data # rest) st =
     drain_isr_queue env (Suc items_processed) rest
       (process_isr_sample (isr_tick env items_processed) (isr_stop_ok env items_processed)
          (isr_stats_ok env items_processed) isr_data st)"

text \<open>The latency block that follows the drain loop.\<close>

definition update_isr_latency :: "bool \<Rightarrow> nat \<Rightarrow> TickType_t \<Rightarrow> SystemState_t \<Rightarrow> SystemState_t" where
  "update_isr_latency ok items_processed min_latency g =
     (if items_processed > 0 then
        system_mutex_section ok
          (\<lambda>x. x\<lparr>isr_stats := (isr_stats x)
                  \<lparr>last_latency_us := (if min_latency \<le> 1 then 250 else min_latency * 1000)\<rparr>\<rparr>) g
      else g)"

text \<open>
  What one pass of the loop of \<open>vSensorTask\<close> obtains from the kernel and from \<open>rand\<close>, in the
  order of the calls.
\<close>

record SensorEnv =
  calib_stats_ok :: bool
  isr_env :: IsrEnv
  latency_ok :: bool
  rand_temperature :: nat
  rand_rpm :: nat
  rand_current :: nat
  reading_tick :: TickType_t
  publish_ok :: bool
  rand_target_change :: nat
  rand_target_vibration :: nat
  rand_target_temperature :: nat
  rand_inject :: nat

text \<open>
  The simulation steps at the end of the pass: every 50 passes the targets may be drawn
  again, the base values drift towards the targets, every 50 passes a vibration step of 3
  may be injected, and the rotational speed and the current follow the pass count.
\<close>

definition advance_simulation :: "SensorEnv \<Rightarrow> SensorLocals \<Rightarrow> SensorLocals" where
  "advance_simulation env loc =
     (let retarget = (sn_cycle_count loc mod 50 = 0 \<and> rand_target_change env mod 100 < 30);
          tv = (if retarget then 1 + real (rand_target_vibration env mod 80) / 10
                else target_vibration loc);
          tt = (if retarget then 40 + real (rand_target_temperature env mod 400) / 10
                else target_temperature loc);
          bv = simulate_drift (base_vibration loc) tv 0.02;
          bt = simulate_drift (base_temperature loc) tt 0.01;
          bv' = (if sn_cycle_count loc mod 50 = 0 \<and> rand_inject env mod 100 < 40 then bv + 3 else bv);
          time_factor = sin (real (unat (sn_cycle_count loc)) * 0.01) * 0.5 + 0.5;
          br = 15 + time_factor * 10;
          bc = 40 + br * 2
      in loc\<lparr>base_vibration := bv', base_temperature := bt, base_rpm := br, base_current := bc,
             target_vibration := tv, target_temperature := tt\<rparr>)"

text \<open>
  The body of the loop of \<open>vSensorTask\<close>, after \<open>vTaskDelayUntil\<close> returns. The samples
  drained are those in the queue of the deferred samples.
\<close>

definition vSensorTask_cycle ::
  "SensorEnv \<Rightarrow> SystemState_t \<times> Kernel \<times> SensorLocals \<Rightarrow> SystemState_t \<times> Kernel \<times> SensorLocals" where
  "vSensorTask_cycle env = (\<lambda>(g, k, loc).
     (let loc1 = loc\<lparr>sn_cycle_count := sn_cycle_count loc + 1\<rparr>
      in case signal_sensors_calibrated (calib_stats_ok env) g k loc1 of
        (g1, k1, loc2) \<Rightarrow>
          (case drain_isr_queue (isr_env env) 0 (xSensorISRQueue k1)
                  (0xFFFFFFFF, base_vibration loc2, g1) of
             (items_processed, min_latency, base_vib, g2) \<Rightarrow>
               (let k2 = k1\<lparr>xSensorISRQueue := []\<rparr>;
                    g3 = update_isr_latency (latency_ok env) items_processed min_latency g2;
                    current_reading =
                      \<lparr>vibration = base_vib,
                       temperature = read_sensor_with_noise (base_temperature loc2) 0.1
                                       (rand_temperature env),
                       rpm = read_sensor_with_noise (base_rpm loc2) 0.5 (rand_rpm env),
                       current = read_sensor_with_noise (base_current loc2) 2 (rand_current env),
                       timestamp = reading_tick env\<rparr>;
                    g4 = system_mutex_section (publish_ok env)
                           (\<lambda>x. x\<lparr>sensors := current_reading\<rparr>) g3;
                    k3 = k2\<lparr>xSensorDataQueue :=
                              snd (xQueueSend SENSOR_DATA_QUEUE_LENGTH (xSensorDataQueue k2)
                                     current_reading)\<rparr>
                in (g4, k3, advance_simulation env (loc2\<lparr>base_vibration := base_vib\<rparr>))))))"

subsection \<open>The network task (\<open>network_task.c\<close>)\<close>

datatype PacketType_t = PACKET_TYPE_HEARTBEAT | PACKET_TYPE_SENSOR_DATA | PACKET_TYPE_ANOMALY_REPORT

text \<open>
  The header of a packet buffer. The payload bytes are not modelled; \<open>sizeof(PacketBuffer_t)\<close>
  is 12 (an enum and two 32-bit words, the flexible array member adding nothing).
\<close>

record PacketBuffer_t =
  pkt_type :: PacketType_t
  pkt_size :: uint32_t
  pkt_timestamp :: uint32_t

definition sizeof_PacketBuffer_t :: size_t where
  "sizeof_PacketBuffer_t = 12"

definition PACKET_HEARTBEAT_SIZE :: size_t where
  "PACKET_HEARTBEAT_SIZE = 64"

definition PACKET_SENSOR_SIZE :: size_t where
  "PACKET_SENSOR_SIZE = 256"

definition PACKET_ANOMALY_SIZE :: size_t where
  "PACKET_ANOMALY_SIZE = 512"

record NetworkStats_t =
  packets_sent :: uint32_t
  packets_failed :: uint32_t
  bytes_sent :: uint32_t
  anomaly_alerts_sent :: uint32_t
  last_transmission_time :: uint32_t
  transmission_in_progress :: bool

text \<open>\<open>static NetworkStats_t network_stats = {0}\<close>.\<close>

definition init_network_stats :: NetworkStats_t where
  "init_network_stats = \<lparr>packets_sent = 0, packets_failed = 0, bytes_sent = 0,
     anomaly_alerts_sent = 0, last_transmission_time = 0, transmission_in_progress = False\<rparr>"

text \<open>
  The part of the two accounting functions that follows the counters: the free heap size
  reported by \<open>xPortGetFreeHeapSize\<close> is stored, the minimum is lowered to it, and a minimum
  of 0 is replaced when the heap is not exhausted.
\<close>

definition track_heap_free :: "size_t \<Rightarrow> MemoryStats_t \<Rightarrow> MemoryStats_t" where
  "track_heap_free current_free m =
     (let m1 = m\<lparr>current_heap_free := current_free\<rparr>;
          m2 = (if current_free < minimum_heap_free m1
                then m1\<lparr>minimum_heap_free := current_free\<rparr> else m1)
      in if minimum_heap_free m2 = 0 \<and> current_free > 0
         then m2\<lparr>minimum_heap_free := current_free\<rparr> else m2)"

definition update_memory_stats_alloc :: "bool \<Rightarrow> size_t \<Rightarrow> size_t \<Rightarrow> SystemState_t \<Rightarrow> SystemState_t" where
  "update_memory_stats_alloc ok current_free sz g =
     system_mutex_section ok
       (\<lambda>x. (let m = memory_stats x;
                  m1 = m\<lparr>allocations := allocations m + 1,
                         active_allocations := active_allocations m + 1,
                         bytes_allocated := bytes_allocated m + sz\<rparr>;
                  m2 = (if bytes_allocated m1 > peak_usage m1
                        then m1\<lparr>peak_usage := bytes_allocated m1\<rparr> else m1)
              in x\<lparr>memory_stats := track_heap_free current_free m2\<rparr>)) g"

definition update_memory_stats_free :: "bool \<Rightarrow> size_t \<Rightarrow> size_t \<Rightarrow> SystemState_t \<Rightarrow> SystemState_t" where
  "update_memory_stats_free ok current_free sz g =
     system_mutex_section ok
       (\<lambda>x. (let m = memory_stats x;
                  m1 = m\<lparr>deallocations := deallocations m + 1,
                         active_allocations := active_allocations m - 1,
                         bytes_allocated := bytes_allocated m - sz\<rparr>
              in x\<lparr>memory_stats := track_heap_free current_free m1\<rparr>)) g"

definition update_memory_stats_failure :: "bool \<Rightarrow> SystemState_t \<Rightarrow> SystemState_t" where
  "update_memory_stats_failure ok g =
     system_mutex_section ok
       (\<lambda>x. x\<lparr>memory_stats := (memory_stats x)
               \<lparr>allocation_failures := allocation_failures (memory_stats x) + 1\<rparr>\<rparr>) g"

text \<open>
  \<open>allocate_packet\<close>. \<open>malloc_ok\<close> says whether \<open>pvPortMalloc\<close> returned a block; the heap is
  the list of the sizes of its live blocks, the most recent first. \<open>stats_ok\<close> is the take
  of the accounting function that is called, \<open>current_free\<close> what \<open>xPortGetFreeHeapSize\<close>
  reports inside it.
\<close>

definition packet_size_of :: "PacketType_t \<Rightarrow> size_t" where
  "packet_size_of type =
     (case type of
        PACKET_TYPE_HEARTBEAT \<Rightarrow> sizeof_PacketBuffer_t + PACKET_HEARTBEAT_SIZE
      | PACKET_TYPE_SENSOR_DATA \<Rightarrow> sizeof_PacketBuffer_t + PACKET_SENSOR_SIZE
      | PACKET_TYPE_ANOMALY_REPORT \<Rightarrow> sizeof_PacketBuffer_t + PACKET_ANOMALY_SIZE)"

definition allocate_packet ::
  "bool \<Rightarrow> TickType_t \<Rightarrow> bool \<Rightarrow> size_t \<Rightarrow> PacketType_t \<Rightarrow> SystemState_t \<Rightarrow> Kernel
     \<Rightarrow> PacketBuffer_t option \<times> SystemState_t \<times> Kernel" where
  "allocate_packet malloc_ok now stats_ok current_free type g k =
     (let packet_size = packet_size_of type
      in if malloc_ok then
           (Some \<lparr>pkt_type = type, pkt_size = ucast packet_size, pkt_timestamp = now\<rparr>,
            update_memory_stats_alloc stats_ok current_free packet_size g,
            k\<lparr>heap_blocks := packet_size # heap_blocks k\<rparr>)
         else (None, update_memory_stats_failure stats_ok g, k))"

definition free_packet ::
  "bool \<Rightarrow> size_t \<Rightarrow> PacketBuffer_t option \<Rightarrow> SystemState_t \<Rightarrow> Kernel \<Rightarrow> SystemState_t \<times> Kernel" where
  "free_packet stats_ok current_free packet g k =
     (case packet of
        None \<Rightarrow> (g, k)
      | Some p \<Rightarrow>
          (let packet_size = ucast (pkt_size p)
           in (update_memory_stats_free stats_ok current_free packet_size g,
               k\<lparr>heap_blocks := remove1 packet_size (heap_blocks k)\<rparr>)))"

text \<open>
  \<open>transmit_packet\<close>. \<open>r\<close> is what \<open>rand\<close> returned, \<open>ok\<close> the take made when the transmission
  fails, \<open>now\<close> the tick count read at the end. The anomaly flags are read without the
  mutex, as in the source.
\<close>

definition transmit_packet ::
  "nat \<Rightarrow> bool \<Rightarrow> TickType_t \<Rightarrow> uint32_t \<Rightarrow> SystemState_t \<Rightarrow> Kernel \<Rightarrow> NetworkStats_t
     \<Rightarrow> bool \<times> SystemState_t \<times> Kernel \<times> NetworkStats_t" where
  "transmit_packet r ok now sz g k ns =
     (let ns1 = ns\<lparr>transmission_in_progress := True\<rparr>;
          success = (r mod 100 \<ge> 5)
      in if success then
           (let ns2 = ns1\<lparr>packets_sent := packets_sent ns1 + 1, bytes_sent := bytes_sent ns1 + sz\<rparr>;
                ns3 = (if vibration_anomaly (anomalies g) \<or> temperature_anomaly (anomalies g)
                          \<or> rpm_anomaly (anomalies g)
                       then ns2\<lparr>anomaly_alerts_sent := anomaly_alerts_sent ns2 + 1\<rparr> else ns2)
            in (success, g, k,
                ns3\<lparr>transmission_in_progress := False, last_transmission_time := now\<rparr>))
         else
           (let ns2 = ns1\<lparr>packets_failed := packets_failed ns1 + 1\<rparr>;
                g1 = system_mutex_section ok
                       (\<lambda>x. x\<lparr>network_connected := False,
                               event_group_stats := (event_group_stats x)
                                 \<lparr>bits_cleared_count := bits_cleared_count (event_group_stats x) + 1,
                                  current_event_bits :=
                                    current_event_bits (event_group_stats x)
                                      AND NOT NETWORK_CONNECTED_BIT\<rparr>\<rparr>) g;
                k1 = k\<lparr>xSystemReadyEvents :=
                         xEventGroupClearBits (xSystemReadyEvents k) NETWORK_CONNECTED_BIT\<rparr>
            in (success, g1, k1,
                ns2\<lparr>transmission_in_progress := False, last_transmission_time := now\<rparr>)))"

text \<open>
  \<open>check_network_reconnect\<close>. \<open>read_ok\<close> is the take that reads the connection state (the
  local stays false when it times out), \<open>r\<close> what \<open>rand\<close> returned, \<open>write_ok\<close> the take made
  when the reconnection succeeds.
\<close>

definition check_network_reconnect ::
  "bool \<Rightarrow> nat \<Rightarrow> bool \<Rightarrow> SystemState_t \<Rightarrow> Kernel \<Rightarrow> SystemState_t \<times> Kernel" where
  "check_network_reconnect read_ok r write_ok g k =
     (let was_connected = (if read_ok then network_connected g else False);
          g1 = system_mutex_section read_ok (\<lambda>x. x) g
      in if \<not> was_connected \<and> r mod 100 < 50 then
           (system_mutex_section write_ok
              (\<lambda>x. x\<lparr>network_connected := True,
                      event_group_stats := (event_group_stats x)
                        \<lparr>bits_set_count := bits_set_count (event_group_stats x) + 1,
                         current_event_bits :=
                           current_event_bits (event_group_stats x) OR NETWORK_CONNECTED_BIT\<rparr>\<rparr>) g1,
            k\<lparr>xSystemReadyEvents :=
                xEventGroupSetBits (xSystemReadyEvents k) NETWORK_CONNECTED_BIT\<rparr>)
         else (g1, k))"

text \<open>
  What one pass of the loop of \<open>vNetworkTask\<close> obtains from the kernel, from \<open>rand\<close> and from
  \<open>snprintf\<close> (\<open>content_size\<close>, the length of the formatted payload), in the order of the
  calls.
\<close>

record NetworkEnv =
  reconnect_read_ok :: bool
  rand_reconnect :: nat
  reconnect_write_ok :: bool
  malloc_ok :: bool
  alloc_tick :: TickType_t
  alloc_stats_ok :: bool
  free_after_alloc :: size_t
  content_size :: uint32_t
  rand_transmit :: nat
  disconnect_ok :: bool
  transmit_tick :: TickType_t
  free_stats_ok :: bool
  free_after_free :: size_t
  critical_rec_tick :: TickType_t
  yield_rec_tick :: TickType_t

text \<open>
  The part of the pass from the choice of the packet type on, reached when the network is
  connected. \<open>alerts_processed\<close> is 1 when an alert was taken from the alert queue.
\<close>

definition send_packet_pass ::
  "NetworkEnv \<Rightarrow> nat \<Rightarrow> uint32_t \<Rightarrow> SystemState_t \<Rightarrow> Kernel \<Rightarrow> NetworkStats_t
     \<Rightarrow> SystemState_t \<times> Kernel \<times> NetworkStats_t" where
  "send_packet_pass env alerts_processed cnt g k ns =
     (let packet_type =
            (if cnt mod 10 = 0 then PACKET_TYPE_HEARTBEAT
             else if emergency_stop g \<or> health_score (anomalies g) < 50 \<or> alerts_processed > 0
             then PACKET_TYPE_ANOMALY_REPORT
             else PACKET_TYPE_SENSOR_DATA)
      in case allocate_packet (malloc_ok env) (alloc_tick env) (alloc_stats_ok env)
                (free_after_alloc env) packet_type g k of
        (packet, g1, k1) \<Rightarrow>
          if packet = None then (g1, k1, ns)
          else
            (case transmit_packet (rand_transmit env) (disconnect_ok env) (transmit_tick env)
                    (content_size env) g1 k1 ns of
               (success, g2, k2, ns1) \<Rightarrow>
                 (case free_packet (free_stats_ok env) (free_after_free env) packet g2 k2 of
                    (g3, k3) \<Rightarrow>
                      (let priority_transmission =
                             (emergency_stop g3 \<or> health_score (anomalies g3) < 50);
                           g4 = (if priority_transmission \<and> cnt mod 3 = 0
                                 then record_preemption (critical_rec_tick env) ''NetworkTask''
                                        ''DashboardTask'' ''Critical'' g3
                                 else g3);
                           g5 = (if cnt mod 5 = 0
                                 then record_preemption (yield_rec_tick env) ''SensorTask''
                                        ''NetworkTask'' ''Yield'' g4
                                 else g4)
                       in (g5, k3, ns1)))))"

record NetworkLocals =
  nw_cycle_count :: uint32_t

text \<open>
  The body of the loop of \<open>vNetworkTask\<close>, after \<open>vTaskDelayUntil\<close> returns. The connection
  state is read without the mutex before and after \<open>check_network_reconnect\<close>; a pass that
  finds the network still disconnected ends there (\<open>continue\<close>).
\<close>

definition vNetworkTask_cycle ::
  "NetworkEnv \<Rightarrow> SystemState_t \<times> Kernel \<times> NetworkStats_t \<times> NetworkLocals
     \<Rightarrow> SystemState_t \<times> Kernel \<times> NetworkStats_t \<times> NetworkLocals" where
  "vNetworkTask_cycle env = (\<lambda>(g, k, ns, loc).
     (let loc1 = loc\<lparr>nw_cycle_count := nw_cycle_count loc + 1\<rparr>;
          (alerts_processed, k1, ns1) =
            (case xQueueReceive (xAnomalyAlertQueue k) of
               None \<Rightarrow> (0::nat, k, ns)
             | Some (alert, rest) \<Rightarrow>
                 (1, k\<lparr>xAnomalyAlertQueue := rest\<rparr>,
                  ns\<lparr>anomaly_alerts_sent := anomaly_alerts_sent ns + 1\<rparr>));
          (g1, k2) =
            (if \<not> network_connected g
             then check_network_reconnect (reconnect_read_ok env) (rand_reconnect env)
                    (reconnect_write_ok env) g k1
             else (g, k1))
      in if \<not> network_connected g1 then (g1, k2, ns1, loc1)
         else (case send_packet_pass env alerts_processed (nw_cycle_count loc1) g1 k2 ns1 of
                 (g2, k3, ns2) \<Rightarrow> (g2, k3, ns2, loc1))))"

subsection \<open>The stack monitor (\<open>update_stack_monitoring\<close> in \<open>main.c\<close>)\<close>

text \<open>
  \<open>strncmp(a, b, n) == 0\<close> on C strings: the first \<open>n\<close> characters agree, the end of a
  string counting as a character.
\<close>

definition strncmp_eq :: "string \<Rightarrow> string \<Rightarrow> nat \<Rightarrow> bool" where
  "strncmp_eq a b n = (take n a = take n b)"

text \<open>The lines that \<open>update_stack_monitoring\<close> prints, with the task and the usage.\<close>

datatype stack_message =
  STACK_CRITICAL string uint32_t
  | STACK_WARNING string uint32_t
  | STACK_RECOVERY string uint32_t

text \<open>The search loop: the index of the first entry with the name, from index \<open>i\<close> on.\<close>

fun find_task_monitor :: "string \<Rightarrow> TaskStackMonitor_t list \<Rightarrow> nat \<Rightarrow> nat option" where
  "find_task_monitor name [] i = None"
| "find_task_monitor name (t # ts) i =
     (if strncmp_eq (task_name t) name MAX_TASK_NAME_LEN then Some i
      else find_task_monitor name ts (Suc i))"

text \<open>
  The update of the entry found or created: the current values, the minimum of the free
  stack, the peak of the usage, then the warning with its latch and the reset of the latch
  below 60 percent. The result is the entry, the global statistics and what was printed.
\<close>

definition check_task_stack ::
  "TickType_t \<Rightarrow> string \<Rightarrow> UBaseType_t \<Rightarrow> uint32_t \<Rightarrow> TaskStackMonitor_t \<Rightarrow> StackStats_t
     \<Rightarrow> TaskStackMonitor_t \<times> StackStats_t \<times> stack_message list" where
  "check_task_stack current_time name stack_free_words usage t gs =
     (let t1 = t\<lparr>current_high_water := stack_free_words, usage_percent := usage,
                  last_check_time := current_time\<rparr>;
          t2 = (if stack_free_words < minimum_high_water t1
                then t1\<lparr>minimum_high_water := stack_free_words\<rparr> else t1);
          t3 = (if usage > peak_usage_percent t2 then t2\<lparr>peak_usage_percent := usage\<rparr> else t2);
          (issue_warning, gs1, out1) =
            (if usage \<ge> 85 \<and> \<not> warning_issued t3 then
               (True, gs\<lparr>critical_usage_events := critical_usage_events gs + 1\<rparr>,
                [STACK_CRITICAL name usage])
             else if usage \<ge> 70 \<and> \<not> warning_issued t3 then
               (True, gs\<lparr>high_usage_events := high_usage_events gs + 1\<rparr>,
                [STACK_WARNING name usage])
             else (False, gs, []));
          (t4, gs2) =
            (if issue_warning then
               (t3\<lparr>warning_issued := True\<rparr>,
                gs1\<lparr>warnings_issued := warnings_issued gs1 + 1,
                     last_warning_time := current_time,
                     last_warning_task := copy_name name\<rparr>)
             else (t3, gs1))
      in if usage < 60 \<and> warning_issued t4
         then (t4\<lparr>warning_issued := False\<rparr>, gs2, out1 @ [STACK_RECOVERY name usage])
         else (t4, gs2, out1))"

text \<open>
  \<open>update_stack_monitoring\<close>. The table has \<open>MAX_STACK_MONITORED_TASKS\<close> entries, of which the
  first \<open>monitored_count\<close> are in use; a task that is not found gets the next entry while
  there is one, and is ignored when the table is full.
\<close>

definition update_stack_monitoring ::
  "TickType_t \<Rightarrow> string \<Rightarrow> UBaseType_t \<Rightarrow> UBaseType_t \<Rightarrow> uint32_t \<Rightarrow> StackMonitoringSystem_t
     \<Rightarrow> StackMonitoringSystem_t \<times> stack_message list" where
  "update_stack_monitoring current_time name stack_size stack_free_words usage stack_sys =
     (let sys1 = stack_sys\<lparr>global_stats := (global_stats stack_sys)
                   \<lparr>proactive_checks := proactive_checks (global_stats stack_sys) + 1\<rparr>\<rparr>;
          found = find_task_monitor name (take (unat (monitored_count sys1)) (tasks sys1)) 0;
          (task_monitor, sys2) =
            (case found of
               Some i \<Rightarrow> (Some i, sys1)
             | None \<Rightarrow>
                 if monitored_count sys1 < MAX_STACK_MONITORED_TASKS then
                   (let i = unat (monitored_count sys1);
                        t = (tasks sys1 ! i)\<lparr>task_name := copy_name name,
                               stack_size_words := stack_size,
                               minimum_high_water := stack_free_words,
                               peak_usage_percent := usage,
                               warning_issued := False\<rparr>
                    in (Some i,
                        sys1\<lparr>tasks := (tasks sys1)[i := t],
                             monitored_count := monitored_count sys1 + 1,
                             global_stats := (global_stats sys1)
                               \<lparr>tasks_monitored := monitored_count sys1 + 1\<rparr>\<rparr>))
                 else (None, sys1))
      in case task_monitor of
           None \<Rightarrow> (sys2, [])
         | Some i \<Rightarrow>
             (case check_task_stack current_time name stack_free_words usage (tasks sys2 ! i)
                     (global_stats sys2) of
                (t, gs, out) \<Rightarrow> (sys2\<lparr>tasks := (tasks sys2)[i := t], global_stats := gs\<rparr>, out)))"

subsection \<open>Predicates and inputs used to state the properties\<close>

subsubsection \<open>For the safety task\<close>

text \<open>
  The four critical conditions as the source tests them, on a reading and the thresholds,
  and the number of them that hold.
\<close>

definition vibration_critical_now :: "ThresholdConfig_t \<Rightarrow> SensorData_t \<Rightarrow> bool" where
  "vibration_critical_now th s = (vibration s > vibration_critical th)"
definition temperature_critical_now :: "ThresholdConfig_t \<Rightarrow> SensorData_t \<Rightarrow> bool" where
  "temperature_critical_now th s = (temperature s > temperature_critical th)"
definition rpm_critical_now :: "ThresholdConfig_t \<Rightarrow> SensorData_t \<Rightarrow> bool" where
  "rpm_critical_now th s = (rpm s < rpm_min th \<or> rpm s > rpm_max th)"
definition current_critical_now :: "ThresholdConfig_t \<Rightarrow> SensorData_t \<Rightarrow> bool" where
  "current_critical_now th s = (current s > current_max th)"
definition conditions_holding :: "ThresholdConfig_t \<Rightarrow> SensorData_t \<Rightarrow> nat" where
  "conditions_holding th s =
     (if vibration_critical_now th s then 1 else 0) + (if temperature_critical_now th s then 1 else 0)
     + (if rpm_critical_now th s then 1 else 0) + (if current_critical_now th s then 1 else 0)"

text \<open>
  Inputs for the concrete runs: a reading with vibration and temperature above their
  critical thresholds, a reading with only the temperature above it, a pass of the loop at
  tick \<open>now\<close> in which every mutex is obtained, and the state after one such pass at tick
  1000 on the first reading, from the initial state.
\<close>

definition critical_readings :: SensorData_t where
  "critical_readings = \<lparr>vibration = 15, temperature = 90, rpm = 20, current = 50, timestamp = 0\<rparr>"

definition safety_env_ok :: "TickType_t \<Rightarrow> SafetyEnv" where
  "safety_env_ok now = \<lparr>cc_state_ok = True, cc_thr_ok = True, trig_state_ok = True,
     trig_tick = now, trig_rec_tick = now, clr_read_ok = True, clr_tick = now,
     clr_cc_state_ok = True, clr_cc_thr_ok = True, clr_write_ok = True, demo_tick = now\<rparr>"

definition safety_start :: "SystemState_t \<times> SafetyState_t \<times> SafetyLocals" where
  "safety_start = ((system_state_init 0)\<lparr>sensors := critical_readings\<rparr>, init_safety_state,
     \<lparr>cycle_count = 0, preemption_demo_count = 0\<rparr>)"

definition after_latch :: "SystemState_t \<times> SafetyState_t \<times> SafetyLocals" where
  "after_latch = vSafetyTask_cycle (safety_env_ok 1000) init_thresholds safety_start"

text \<open>
  The state after a further pass at tick 6001 on the same readings, and the state after a
  first pass at tick 1000 in which the take of \<open>trigger_emergency_stop\<close> times out.
\<close>

definition after_clear :: "SystemState_t \<times> SafetyState_t \<times> SafetyLocals" where
  "after_clear = vSafetyTask_cycle (safety_env_ok 6001) init_thresholds after_latch"

definition after_missed_write :: "SystemState_t \<times> SafetyState_t \<times> SafetyLocals" where
  "after_missed_write =
     vSafetyTask_cycle ((safety_env_ok 1000)\<lparr>trig_state_ok := False\<rparr>) init_thresholds safety_start"

definition single_alarm_readings :: SensorData_t where
  "single_alarm_readings = \<lparr>vibration = 2, temperature = 90, rpm = 20, current = 50, timestamp = 0\<rparr>"

subsubsection \<open>For the anomaly detection task\<close>

text \<open>The three history arrays have their declared size.\<close>

definition wf_detection :: "DetectionState_t \<Rightarrow> bool" where
  "wf_detection ds =
     (length (vibration_history ds) = HISTORY_SIZE \<and> length (temperature_history ds) = HISTORY_SIZE
      \<and> length (rpm_history ds) = HISTORY_SIZE)"

text \<open>
  \<open>n\<close> consecutive calls of \<open>detect_anomalies\<close> with the same mutex outcomes, no other task
  changing the shared state in between.
\<close>

fun detect_run ::
  "nat \<Rightarrow> DetectEnv \<Rightarrow> ThresholdConfig_t \<Rightarrow> SystemState_t \<Rightarrow> DetectionState_t
     \<Rightarrow> fault + (SystemState_t \<times> DetectionState_t)" where
  "detect_run 0 env th g ds = Inr (g, ds)"
| "detect_run (Suc n) env th g ds =
     (case detect_anomalies env th g ds of
        Inl e \<Rightarrow> Inl e
      | Inr (g', ds') \<Rightarrow> detect_run n env th g' ds')"

text \<open>A call of \<open>detect_anomalies\<close> in which every mutex is obtained.\<close>

definition detect_env_ok :: DetectEnv where
  "detect_env_ok = \<lparr>det_read_ok = True, det_thr_ok = True, det_emergency_ok = True,
     det_publish_ok = True\<rparr>"

text \<open>
  The amounts that the health score block subtracts for each channel, named to state the
  caps.
\<close>

definition vibration_penalty :: "real \<Rightarrow> DetectionState_t \<Rightarrow> real" where
  "vibration_penalty vib ds =
     (if vibration_stddev ds > 0
      then min (\<bar>vib - vibration_baseline ds\<bar> / (vibration_stddev ds * 3) * 20) 30 else 0)"

definition temperature_penalty :: "real \<Rightarrow> DetectionState_t \<Rightarrow> real" where
  "temperature_penalty temp ds =
     (if temperature_stddev ds > 0
      then min (\<bar>temp - temperature_baseline ds\<bar> / (temperature_stddev ds * 3) * 15) 25 else 0)"

definition rpm_penalty :: "real \<Rightarrow> DetectionState_t \<Rightarrow> real" where
  "rpm_penalty rpm_v ds =
     (if rpm_stddev ds > 0
      then min (\<bar>rpm_v - rpm_baseline ds\<bar> / (rpm_stddev ds * 3) * 15) 25 else 0)"

text \<open>
  A call of \<open>detect_anomalies\<close> in which the take that guards the read of the emergency stop
  flag times out, one in which the take that guards the publication times out, and the
  initial shared state with the emergency stop flag set.
\<close>

definition detect_env_flag_timeout :: DetectEnv where
  "detect_env_flag_timeout = \<lparr>det_read_ok = True, det_thr_ok = True, det_emergency_ok = False,
     det_publish_ok = True\<rparr>"

definition detect_env_publish_timeout :: DetectEnv where
  "detect_env_publish_timeout = \<lparr>det_read_ok = True, det_thr_ok = True, det_emergency_ok = True,
     det_publish_ok = False\<rparr>"

definition stopped_state :: SystemState_t where
  "stopped_state = (system_state_init 0)\<lparr>emergency_stop := True\<rparr>"

text \<open>
  Feeding a list of readings to the detector: each reading is placed in the shared state
  and \<open>detect_anomalies\<close> is called once, as when \<open>vAnomalyTask\<close> receives one reading per
  pass.
\<close>

fun feed_readings ::
  "DetectEnv \<Rightarrow> ThresholdConfig_t \<Rightarrow> SensorData_t list \<Rightarrow> SystemState_t \<Rightarrow> DetectionState_t
     \<Rightarrow> fault + (SystemState_t \<times> DetectionState_t)" where
  "feed_readings env th [] g ds = Inr (g, ds)"
| "feed_readings env th (r # rs) g ds =
     (case detect_anomalies env th (g\<lparr>sensors := r\<rparr>) ds of
        Inl e \<Rightarrow> Inl e
      | Inr (g', ds') \<Rightarrow> feed_readings env th rs g' ds')"

definition ramp_reading :: "nat \<Rightarrow> SensorData_t" where
  "ramp_reading i = \<lparr>vibration = real i / 10, temperature = 40 + real i / 10, rpm = 20,
     current = 50, timestamp = of_nat i\<rparr>"

text \<open>The last \<open>k\<close> elements of a list (all of it when it has fewer).\<close>

definition most_recent :: "nat \<Rightarrow> 'a list \<Rightarrow> 'a list" where
  "most_recent k xs = drop (length xs - k) xs"

definition arithmetic_mean :: "real list \<Rightarrow> real" where
  "arithmetic_mean xs = sum_list xs / real (length xs)"

definition population_stddev :: "real list \<Rightarrow> real" where
  "population_stddev xs =
     sqrt (sum_list (map (\<lambda>v. (v - arithmetic_mean xs) * (v - arithmetic_mean xs)) xs)
            / real (length xs))"

text \<open>
  The detection state holds the readings \<open>rs\<close> (at most \<open>HISTORY_SIZE\<close> of them, so nothing
  has been overwritten yet): the histories start with the values of \<open>rs\<close> in order and
  \<open>history_index\<close> is their number.
\<close>

definition holds_samples :: "DetectionState_t \<Rightarrow> SensorData_t list \<Rightarrow> bool" where
  "holds_samples ds rs =
     (wf_detection ds \<and> unat (history_index ds) = length rs \<and> length rs \<le> HISTORY_SIZE
      \<and> take (length rs) (vibration_history ds) = map vibration rs
      \<and> take (length rs) (temperature_history ds) = map temperature rs
      \<and> take (length rs) (rpm_history ds) = map rpm rs)"

text \<open>
  Inputs for the alert properties: a detector whose histories hold the constant reading
  (vibration 6, above the warning threshold 5; temperature 45; rotational speed 20) and
  whose \<open>history_index\<close> is 25, the shared state with that reading, a kernel with empty
  queues, the locals of \<open>vAnomalyTask\<close> after an odd number of passes, and a pass in which
  every mutex is obtained.
\<close>

definition steady_reading :: SensorData_t where
  "steady_reading = \<lparr>vibration = 6, temperature = 45, rpm = 20, current = 50, timestamp = 0\<rparr>"

definition steady_detection_state :: DetectionState_t where
  "steady_detection_state =
     \<lparr>vibration_history = replicate HISTORY_SIZE 6,
      temperature_history = replicate HISTORY_SIZE 45,
      rpm_history = replicate HISTORY_SIZE 20,
      history_index = 25,
      vibration_baseline = 6, temperature_baseline = 45, rpm_baseline = 20,
      vibration_stddev = 0, temperature_stddev = 0, rpm_stddev = 0\<rparr>"

definition idle_kernel :: Kernel where
  "idle_kernel = \<lparr>xSystemReadyEvents = 0, xSensorISRQueue = [], xSensorDataQueue = [],
     xAnomalyAlertQueue = [], heap_blocks = []\<rparr>"

definition anomaly_env_ok :: "TickType_t \<Rightarrow> AnomalyEnv" where
  "anomaly_env_ok now = \<lparr>store_ok = (\<lambda>_. True), detect_env = detect_env_ok, ready_stats_ok = True,
     alert_ok = True, alert_tick = now\<rparr>"

definition odd_pass_locals :: AnomalyLocals where
  "odd_pass_locals = \<lparr>an_cycle_count = 1, anomaly_ready = True\<rparr>"

subsubsection \<open>For the stack monitor\<close>

text \<open>
  Inputs for the stack monitor properties: the monitor after \<open>system_state_init\<close>, and the
  monitor after one check of the task \<open>NetworkTask\<close> (512 words of stack) at 50 percent.
\<close>

definition init_stack_monitoring :: StackMonitoringSystem_t where
  "init_stack_monitoring = stack_monitoring (system_state_init 0)"

definition tracked_stack_monitoring :: StackMonitoringSystem_t where
  "tracked_stack_monitoring =
     fst (update_stack_monitoring 100 ''NetworkTask'' 512 256 50 init_stack_monitoring)"

text \<open>The entry of a task in the table, when the task is tracked.\<close>

definition monitor_of :: "string \<Rightarrow> StackMonitoringSystem_t \<Rightarrow> TaskStackMonitor_t option" where
  "monitor_of name stack_sys =
     (case find_task_monitor name (take (unat (monitored_count stack_sys)) (tasks stack_sys)) 0 of
        None \<Rightarrow> None
      | Some i \<Rightarrow> Some (tasks stack_sys ! i))"

subsubsection \<open>For the network task\<close>

text \<open>
  A pass of \<open>vNetworkTask\<close> reaches \<open>allocate_packet\<close> when the network is connected at the
  start of the pass or the reconnection of the pass succeeds and is recorded.
\<close>

definition reaches_allocation :: "NetworkEnv \<Rightarrow> SystemState_t \<Rightarrow> bool" where
  "reaches_allocation env g =
     (network_connected g \<or> (rand_reconnect env mod 100 < 50 \<and> reconnect_write_ok env))"

text \<open>
  Inputs for the accounting properties: a pass of \<open>vNetworkTask\<close> in which every mutex is
  obtained, \<open>pvPortMalloc\<close> returns a block and the transmission succeeds (\<open>rand\<close> gives 50).
\<close>

definition network_env_ok :: NetworkEnv where
  "network_env_ok =
     \<lparr>reconnect_read_ok = True, rand_reconnect = 50, reconnect_write_ok = True,
      malloc_ok = True, alloc_tick = 1000, alloc_stats_ok = True, free_after_alloc = 260000,
      content_size = 120, rand_transmit = 50, disconnect_ok = True, transmit_tick = 1050,
      free_stats_ok = True, free_after_free = 260268,
      critical_rec_tick = 1050, yield_rec_tick = 1050\<rparr>"

definition network_start :: "SystemState_t \<times> Kernel \<times> NetworkStats_t \<times> NetworkLocals" where
  "network_start = (system_state_init 0, idle_kernel, init_network_stats, \<lparr>nw_cycle_count = 0\<rparr>)"

subsubsection \<open>For the sensor task and the readiness bits\<close>

text \<open>
  The state that the tasks work on together. \<open>safety_state\<close> is a static variable of
  \<open>safety_task.c\<close>: a pass of the sensor task works on the shared state and on the kernel
  objects and cannot reach it.
\<close>

record System =
  sys_shared :: SystemState_t
  sys_safety :: SafetyState_t
  sys_kernel :: Kernel

definition sensor_pass :: "SensorEnv \<Rightarrow> System \<times> SensorLocals \<Rightarrow> System \<times> SensorLocals" where
  "sensor_pass env = (\<lambda>(s, loc).
     case vSensorTask_cycle env (sys_shared s, sys_kernel s, loc) of
       (g', k', loc') \<Rightarrow> (s\<lparr>sys_shared := g', sys_kernel := k'\<rparr>, loc'))"

text \<open>
  Inputs for the sensor task properties: a pass in which every mutex is obtained and
  \<open>rand\<close> gives 500, and a deferred sample with vibration 85.
\<close>

definition isr_env_ok :: IsrEnv where
  "isr_env_ok = \<lparr>isr_tick = (\<lambda>_. 6000), isr_stop_ok = (\<lambda>_. True), isr_stats_ok = (\<lambda>_. True)\<rparr>"

definition sensor_env_ok :: SensorEnv where
  "sensor_env_ok =
     \<lparr>calib_stats_ok = True, isr_env = isr_env_ok, latency_ok = True, rand_temperature = 500,
      rand_rpm = 500, rand_current = 500, reading_tick = 6000, publish_ok = True,
      rand_target_change = 500, rand_target_vibration = 500, rand_target_temperature = 500,
      rand_inject = 500\<rparr>"

definition violent_sample :: SensorISRData_t where
  "violent_sample = \<lparr>isr_vibration = 85, isr_timestamp = 5999, isr_sequence = 7\<rparr>"

definition system_with_sample :: System where
  "system_with_sample =
     \<lparr>sys_shared = system_state_init 0, sys_safety = init_safety_state,
      sys_kernel = idle_kernel\<lparr>xSensorISRQueue := [violent_sample]\<rparr>\<rparr>"

definition sensor_env_stop_timeout :: SensorEnv where
  "sensor_env_stop_timeout = sensor_env_ok\<lparr>isr_env := isr_env_ok\<lparr>isr_stop_ok := (\<lambda>_. False)\<rparr>\<rparr>"

text \<open>
  Inputs for the readiness properties: a kernel in which the three readiness bits are
  set, and a pass of the network task whose transmission fails (\<open>rand\<close> gives 3).
\<close>

definition ready_kernel :: Kernel where
  "ready_kernel = idle_kernel\<lparr>xSystemReadyEvents := ALL_SYSTEMS_READY\<rparr>"

definition network_env_failing :: NetworkEnv where
  "network_env_failing = network_env_ok\<lparr>rand_transmit := 3\<rparr>"

section \<open>Properties\<close>

subsection \<open>The safety task\<close>

lemma check_vibration_simps:
  "fst (check_vibration v c p) = (fst p \<or> (v > c \<and> \<not> vibration_alarm (snd p)))"
  "vibration_alarm (snd (check_vibration v c p)) = (v > c)"
  "temperature_alarm (snd (check_vibration v c p)) = temperature_alarm (snd p)"
  "rpm_alarm (snd (check_vibration v c p)) = rpm_alarm (snd p)"
  "current_alarm (snd (check_vibration v c p)) = current_alarm (snd p)"
  "emergency_stop_time (snd (check_vibration v c p)) = emergency_stop_time (snd p)"
  by (cases p; simp add: check_vibration_def)+

lemma check_temperature_simps:
  "fst (check_temperature v c p) = (fst p \<or> (v > c \<and> \<not> temperature_alarm (snd p)))"
  "temperature_alarm (snd (check_temperature v c p)) = (v > c)"
  "vibration_alarm (snd (check_temperature v c p)) = vibration_alarm (snd p)"
  "rpm_alarm (snd (check_temperature v c p)) = rpm_alarm (snd p)"
  "current_alarm (snd (check_temperature v c p)) = current_alarm (snd p)"
  "emergency_stop_time (snd (check_temperature v c p)) = emergency_stop_time (snd p)"
  by (cases p; simp add: check_temperature_def)+

lemma check_rpm_simps:
  "fst (check_rpm v lo hi p) = (fst p \<or> ((v < lo \<or> v > hi) \<and> \<not> rpm_alarm (snd p)))"
  "rpm_alarm (snd (check_rpm v lo hi p)) = (v < lo \<or> v > hi)"
  "vibration_alarm (snd (check_rpm v lo hi p)) = vibration_alarm (snd p)"
  "temperature_alarm (snd (check_rpm v lo hi p)) = temperature_alarm (snd p)"
  "current_alarm (snd (check_rpm v lo hi p)) = current_alarm (snd p)"
  "emergency_stop_time (snd (check_rpm v lo hi p)) = emergency_stop_time (snd p)"
  by (cases p; simp add: check_rpm_def)+

lemma check_current_simps:
  "fst (check_current v c p) = (fst p \<or> (v > c \<and> \<not> current_alarm (snd p)))"
  "current_alarm (snd (check_current v c p)) = (v > c)"
  "vibration_alarm (snd (check_current v c p)) = vibration_alarm (snd p)"
  "temperature_alarm (snd (check_current v c p)) = temperature_alarm (snd p)"
  "rpm_alarm (snd (check_current v c p)) = rpm_alarm (snd p)"
  "emergency_stop_time (snd (check_current v c p)) = emergency_stop_time (snd p)"
  by (cases p; simp add: check_current_def)+

lemmas check_simps = check_vibration_simps check_temperature_simps check_rpm_simps check_current_simps

lemma system_mutex_section_fields:
  "emergency_stop (system_mutex_section ok (\<lambda>x. x) g) = emergency_stop g"
  "sensors (system_mutex_section ok (\<lambda>x. x) g) = sensors g"
  "emergency_stop (system_mutex_section ok (\<lambda>x. x\<lparr>emergency_stop := b\<rparr>) g) = (if ok then b else emergency_stop g)"
  "sensors (system_mutex_section ok (\<lambda>x. x\<lparr>emergency_stop := b\<rparr>) g) = sensors g"
  by (simp_all add: system_mutex_section_def Let_def)

lemma threshold_mutex_section_fields:
  "emergency_stop (threshold_mutex_section ok (\<lambda>x. x) g) = emergency_stop g"
  "sensors (threshold_mutex_section ok (\<lambda>x. x) g) = sensors g"
  by (simp_all add: threshold_mutex_section_def Let_def)

lemma record_preemption_fields:
  "emergency_stop (record_preemption n p q r g) = emergency_stop g"
  "sensors (record_preemption n p q r g) = sensors g"
  by (simp_all add: record_preemption_def Let_def)

lemma ccc_state:
  "emergency_stop (fst (snd (check_critical_conditions so to th g ss))) = emergency_stop g"
  "sensors (fst (snd (check_critical_conditions so to th g ss))) = sensors g"
  by (simp_all add: check_critical_conditions_def Let_def system_mutex_section_fields
        threshold_mutex_section_fields)

lemma ccc_time:
  "emergency_stop_time (snd (snd (check_critical_conditions so to th g ss))) = emergency_stop_time ss"
  by (simp add: check_critical_conditions_def Let_def check_simps)

lemma ccc_alarms_locked:
  "vibration_alarm (snd (snd (check_critical_conditions True True th g ss))) = vibration_critical_now th (sensors g)"
  "temperature_alarm (snd (snd (check_critical_conditions True True th g ss))) = temperature_critical_now th (sensors g)"
  "rpm_alarm (snd (snd (check_critical_conditions True True th g ss))) = rpm_critical_now th (sensors g)"
  "current_alarm (snd (snd (check_critical_conditions True True th g ss))) = current_critical_now th (sensors g)"
  by (simp_all add: check_critical_conditions_def Let_def check_simps vibration_critical_now_def
       temperature_critical_now_def rpm_critical_now_def current_critical_now_def)

lemma ccc_critical_locked:
  "fst (check_critical_conditions True True th g ss) =
     ((vibration_critical_now th (sensors g) \<and> \<not> vibration_alarm ss)
      \<or> (temperature_critical_now th (sensors g) \<and> \<not> temperature_alarm ss)
      \<or> (rpm_critical_now th (sensors g) \<and> \<not> rpm_alarm ss)
      \<or> (current_critical_now th (sensors g) \<and> \<not> current_alarm ss))"
  by (simp add: check_critical_conditions_def Let_def check_simps vibration_critical_now_def
       temperature_critical_now_def rpm_critical_now_def current_critical_now_def)

lemma active_alarms_ge2:
  "(2 \<le> active_alarms ss) =
     (2 \<le> (if vibration_alarm ss then 1 else 0) + (if temperature_alarm ss then 1 else 0)
         + (if rpm_alarm ss then 1 else 0) + (if current_alarm ss then (1::nat) else 0))"
  by (simp add: active_alarms_def Let_def word_le_nat_alt)

lemma trigger_fields:
  "emergency_stop (fst (trigger_emergency_stop ok n m g ss)) = (if ok then True else emergency_stop g)"
  "sensors (fst (trigger_emergency_stop ok n m g ss)) = sensors g"
  "emergency_stop_time (snd (trigger_emergency_stop ok n m g ss)) = n"
  "vibration_alarm (snd (trigger_emergency_stop ok n m g ss)) = vibration_alarm ss"
  by (simp_all add: trigger_emergency_stop_def Let_def record_preemption_fields system_mutex_section_fields)

lemma ccc_eqD:
  assumes "check_critical_conditions so to th g ss = (c, g1, ss1)"
  shows "emergency_stop_time ss1 = emergency_stop_time ss"
    and "emergency_stop g1 = emergency_stop g"
    and "sensors g1 = sensors g"
  using ccc_time[of so to th g ss] ccc_state[of so to th g ss] assms by simp_all

lemma clear_time:
  "emergency_stop_time (snd (check_emergency_clear r n a b w th g ss)) = emergency_stop_time ss"
  by (auto simp add: check_emergency_clear_def Let_def split: prod.splits dest: ccc_eqD(1))

lemma clear_only_clears:
  "emergency_stop (fst (check_emergency_clear r n a b w th g ss)) \<Longrightarrow> emergency_stop g"
  by (auto simp add: check_emergency_clear_def Let_def system_mutex_section_fields
       split: prod.splits if_splits dest: ccc_eqD(2))

lemma clear_keeps_within_hold:
  "emergency_stop g \<Longrightarrow> n - emergency_stop_time ss \<le> pdMS_TO_TICKS EMERGENCY_STOP_DURATION
     \<Longrightarrow> emergency_stop (fst (check_emergency_clear r n a b w th g ss))"
  by (auto simp add: check_emergency_clear_def Let_def system_mutex_section_fields split: prod.splits if_splits)

lemma cycle_unfold:
  "vSafetyTask_cycle env th (g, ss, loc) = (g', ss', loc') \<Longrightarrow>
   check_critical_conditions (cc_state_ok env) (cc_thr_ok env) th g ss = (critical, g1, ss1) \<Longrightarrow>
   (if critical \<and> active_alarms ss1 \<ge> 2
    then trigger_emergency_stop (trig_state_ok env) (trig_tick env) (trig_rec_tick env) g1 ss1
    else (g1, ss1)) = (g2, ss2) \<Longrightarrow>
   emergency_stop g' = emergency_stop (fst (check_emergency_clear (clr_read_ok env) (clr_tick env)
                       (clr_cc_state_ok env) (clr_cc_thr_ok env) (clr_write_ok env) th g2 ss2))
   \<and> ss' = snd (check_emergency_clear (clr_read_ok env) (clr_tick env)
                       (clr_cc_state_ok env) (clr_cc_thr_ok env) (clr_write_ok env) th g2 ss2)"
  by (auto simp add: vSafetyTask_cycle_def Let_def record_preemption_fields split: prod.splits if_splits)

lemma after_latch_eval:
  "emergency_stop (fst after_latch)" "sensors (fst after_latch) = critical_readings"
  "fst (snd after_latch) = \<lparr>vibration_alarm = True, temperature_alarm = True, rpm_alarm = False,
     current_alarm = False, emergency_stop_time = 1000, alarm_count = 2\<rparr>"
  "snd (snd after_latch) = \<lparr>cycle_count = 1, preemption_demo_count = 0\<rparr>"
  unfolding after_latch_def
  by (simp_all add: vSafetyTask_cycle_def check_emergency_clear_def trigger_emergency_stop_def
      check_critical_conditions_def check_vibration_def check_temperature_def check_rpm_def
      check_current_def active_alarms_def system_mutex_section_def threshold_mutex_section_def
      record_preemption_def pdMS_TO_TICKS_def EMERGENCY_STOP_DURATION_def configTICK_RATE_HZ_def
      init_thresholds_def critical_readings_def safety_env_ok_def safety_start_def
      system_state_init_def init_safety_state_def Let_def PREEMPTION_HISTORY_SIZE_def
      MAX_STACK_MONITORED_TASKS_def copy_name_def MAX_TASK_NAME_LEN_def)

text \<open>
  A second call of \<open>check_critical_conditions\<close> on the same readings reports nothing, since
  the first call has set every alarm flag whose condition holds. So the re-check made by
  \<open>check_emergency_clear\<close> never stands in the way: a pass that starts with the stop flag
  set, obtains its mutexes and has the hold time behind it ends with the flag cleared,
  whatever the readings are.
\<close>

lemma recheck_reports_no_alarm:
  "\<not> fst (check_critical_conditions so to th
            (fst (snd (check_critical_conditions so to th g ss)))
            (snd (snd (check_critical_conditions so to th g ss))))"
  by (auto simp add: check_critical_conditions_def Let_def check_simps system_mutex_section_fields
        threshold_mutex_section_fields)

lemma trigger_keeps_alarms:
  "vibration_alarm (snd (trigger_emergency_stop ok n m g ss)) = vibration_alarm ss"
  "temperature_alarm (snd (trigger_emergency_stop ok n m g ss)) = temperature_alarm ss"
  "rpm_alarm (snd (trigger_emergency_stop ok n m g ss)) = rpm_alarm ss"
  "current_alarm (snd (trigger_emergency_stop ok n m g ss)) = current_alarm ss"
  by (simp_all add: trigger_emergency_stop_def Let_def)

lemma clear_ignores_conditions:
  assumes e: "emergency_stop g"
    and h: "pdMS_TO_TICKS EMERGENCY_STOP_DURATION < n - emergency_stop_time ss"
    and a: "vibration_alarm ss = vibration_critical_now th (sensors g)"
      "temperature_alarm ss = temperature_critical_now th (sensors g)"
      "rpm_alarm ss = rpm_critical_now th (sensors g)"
      "current_alarm ss = current_critical_now th (sensors g)"
  shows "\<not> emergency_stop (fst (check_emergency_clear True n True True True th g ss))"
proof -
  let ?g1 = "system_mutex_section True (\<lambda>x. x) g"
  obtain c g2 ss2 where cc: "check_critical_conditions True True th ?g1 ss = (c, g2, ss2)"
    by (metis prod_cases3)
  have "fst (check_critical_conditions True True th ?g1 ss) = False"
    unfolding ccc_critical_locked using a by (simp add: system_mutex_section_fields)
  with cc have c: "\<not> c" by simp
  from e h cc c show ?thesis
    by (simp add: check_emergency_clear_def Let_def system_mutex_section_fields)
qed

lemma pass_clears_whatever_the_readings:
  assumes cyc: "vSafetyTask_cycle env th (g, ss, loc) = (g', ss', loc')"
    and ok: "cc_state_ok env" "cc_thr_ok env" "clr_read_ok env" "clr_cc_state_ok env"
      "clr_cc_thr_ok env" "clr_write_ok env"
    and e: "emergency_stop g"
    and h: "pdMS_TO_TICKS EMERGENCY_STOP_DURATION < clr_tick env - emergency_stop_time ss'"
  shows "\<not> emergency_stop g'"
proof -
  obtain critical g1 ss1 where cc: "check_critical_conditions (cc_state_ok env) (cc_thr_ok env) th g ss
      = (critical, g1, ss1)" by (metis prod_cases3)
  obtain g2 ss2 where tr: "(if critical \<and> active_alarms ss1 \<ge> 2
    then trigger_emergency_stop (trig_state_ok env) (trig_tick env) (trig_rec_tick env) g1 ss1
    else (g1, ss1)) = (g2, ss2)" by (metis surj_pair)
  note u = cycle_unfold[OF cyc cc tr]
  from cc ok have a1: "vibration_alarm ss1 = vibration_critical_now th (sensors g)"
      "temperature_alarm ss1 = temperature_critical_now th (sensors g)"
      "rpm_alarm ss1 = rpm_critical_now th (sensors g)"
      "current_alarm ss1 = current_critical_now th (sensors g)"
    using ccc_alarms_locked[of th g ss] by simp_all
  from ccc_eqD[OF cc] e have g1: "emergency_stop g1" "sensors g1 = sensors g" by simp_all
  have g2: "emergency_stop g2" "sensors g2 = sensors g"
    using tr g1 trigger_fields(1,2)[of "trig_state_ok env" "trig_tick env" "trig_rec_tick env" g1 ss1]
    by (auto split: if_splits)
  have a2: "vibration_alarm ss2 = vibration_critical_now th (sensors g2)"
      "temperature_alarm ss2 = temperature_critical_now th (sensors g2)"
      "rpm_alarm ss2 = rpm_critical_now th (sensors g2)"
      "current_alarm ss2 = current_critical_now th (sensors g2)"
    using tr a1 g2(2) trigger_keeps_alarms[of "trig_state_ok env" "trig_tick env" "trig_rec_tick env" g1 ss1]
    by (auto split: if_splits)
  from u have "emergency_stop_time ss' = emergency_stop_time ss2" by (simp add: clear_time)
  with h have h2: "pdMS_TO_TICKS EMERGENCY_STOP_DURATION < clr_tick env - emergency_stop_time ss2"
    by simp
  from clear_ignores_conditions[OF g2(1) h2 a2] u ok show ?thesis by simp
qed

text \<open>
  Claim C1 (the emergency stop is never cleared while a critical condition holds) fails on
  the code. With vibration 15 and temperature 90 held constant and every mutex obtained,
  the pass at tick 1000 latches the emergency stop, and the pass at tick 6001 clears it,
  although both readings are still above their critical thresholds: the re-check in
  \<open>check_emergency_clear\<close> calls \<open>check_critical_conditions\<close>, which reports an alarm only
  when its flag rises, and both flags are already set.
\<close>

theorem emergency_cleared_while_critical:
  "emergency_stop (fst after_latch)
   \<and> \<not> emergency_stop (fst (vSafetyTask_cycle (safety_env_ok 6001) init_thresholds after_latch))
   \<and> vibration (sensors (fst (vSafetyTask_cycle (safety_env_ok 6001) init_thresholds after_latch)))
        > vibration_critical init_thresholds
   \<and> temperature (sensors (fst (vSafetyTask_cycle (safety_env_ok 6001) init_thresholds after_latch)))
        > temperature_critical init_thresholds"
proof -
  have split3: "after_latch = (fst after_latch, fst (snd after_latch), snd (snd after_latch))"
    by simp
  show ?thesis
    apply (subst (2 3 4) split3)
    apply (simp add: after_latch_eval vSafetyTask_cycle_def check_emergency_clear_def
      check_critical_conditions_def check_vibration_def check_temperature_def check_rpm_def
      check_current_def active_alarms_def system_mutex_section_def threshold_mutex_section_def
      record_preemption_def pdMS_TO_TICKS_def EMERGENCY_STOP_DURATION_def configTICK_RATE_HZ_def
      init_thresholds_def critical_readings_def safety_env_ok_def Let_def)
    done
qed

text \<open>
  In the pass at tick 1020 that follows the latching pass, with the same readings, two
  alarm flags are set, but no flag rises, so \<open>trigger_emergency_stop\<close> is not called: the
  timestamp stays at 1000 and nothing is recorded.
\<close>

theorem persisting_alarms_record_no_timestamp:
  "2 \<le> active_alarms (fst (snd (vSafetyTask_cycle (safety_env_ok 1020) init_thresholds after_latch)))
   \<and> emergency_stop_time (fst (snd (vSafetyTask_cycle (safety_env_ok 1020) init_thresholds after_latch))) = 1000
   \<and> trig_tick (safety_env_ok 1020) = 1020
   \<and> preemption_index (fst (vSafetyTask_cycle (safety_env_ok 1020) init_thresholds after_latch))
       = preemption_index (fst after_latch)"
proof -
  have split3: "after_latch = (fst after_latch, fst (snd after_latch), snd (snd after_latch))"
    by simp
  show ?thesis
    apply (subst (1 2 3) split3)
    apply (simp add: after_latch_eval vSafetyTask_cycle_def check_emergency_clear_def
      check_critical_conditions_def check_vibration_def check_temperature_def check_rpm_def
      check_current_def active_alarms_def system_mutex_section_def threshold_mutex_section_def
      record_preemption_def pdMS_TO_TICKS_def EMERGENCY_STOP_DURATION_def configTICK_RATE_HZ_def
      init_thresholds_def critical_readings_def safety_env_ok_def Let_def)
    done
qed

lemma conditions_holding_ge2:
  "(2 \<le> conditions_holding th s) =
     (2 \<le> (if vibration_critical_now th s then 1 else 0) + (if temperature_critical_now th s then 1 else 0)
         + (if rpm_critical_now th s then 1 else 0) + (if current_critical_now th s then (1::nat) else 0))"
  by (simp add: conditions_holding_def)

text \<open>
  What a pass does with the result of its check. Let \<open>critical\<close> and \<open>ss1\<close> be what the
  first call of \<open>check_critical_conditions\<close> in the pass returns. If an alarm flag rose (\<open>critical\<close>) and at
  least two flags are set, the pass records the tick count of \<open>trigger_emergency_stop\<close> as
  the activation timestamp, and the stop flag is set at the end of the pass when the state
  mutex was obtained for the write and the hold time has not run out before the clear
  check of the same pass. Otherwise the pass leaves the timestamp alone and does not set
  the flag. With both mutexes of the check obtained, \<open>critical\<close> says that a condition holds
  whose flag was clear, and at least two flags are set afterwards exactly when at least
  two conditions hold: one holding condition whose flag is clear, with a second alarm set,
  is enough.
\<close>

theorem latch_on_rising_edge_with_two_alarms:
  assumes chk: "check_critical_conditions (cc_state_ok env) (cc_thr_ok env) th g ss = (critical, g1, ss1)"
    and cyc: "vSafetyTask_cycle env th (g, ss, loc) = (g', ss', loc')"
  shows "(critical \<and> 2 \<le> active_alarms ss1 \<longrightarrow>
            emergency_stop_time ss' = trig_tick env \<and>
            (trig_state_ok env \<and> clr_tick env - trig_tick env \<le> pdMS_TO_TICKS EMERGENCY_STOP_DURATION
               \<longrightarrow> emergency_stop g'))
       \<and> (\<not> (critical \<and> 2 \<le> active_alarms ss1) \<longrightarrow>
            emergency_stop_time ss' = emergency_stop_time ss \<and> (emergency_stop g' \<longrightarrow> emergency_stop g))
       \<and> (cc_state_ok env \<and> cc_thr_ok env \<longrightarrow>
            critical =
              ((vibration_critical_now th (sensors g) \<and> \<not> vibration_alarm ss)
               \<or> (temperature_critical_now th (sensors g) \<and> \<not> temperature_alarm ss)
               \<or> (rpm_critical_now th (sensors g) \<and> \<not> rpm_alarm ss)
               \<or> (current_critical_now th (sensors g) \<and> \<not> current_alarm ss))
            \<and> (2 \<le> active_alarms ss1) = (2 \<le> conditions_holding th (sensors g)))"
proof (intro conjI impI)
  assume a: "critical \<and> 2 \<le> active_alarms ss1"
  obtain g2 ss2 where trg: "trigger_emergency_stop (trig_state_ok env) (trig_tick env)
      (trig_rec_tick env) g1 ss1 = (g2, ss2)" by (cases "trigger_emergency_stop (trig_state_ok env) (trig_tick env)
      (trig_rec_tick env) g1 ss1") auto
  from a trg have sel: "(if critical \<and> active_alarms ss1 \<ge> 2
    then trigger_emergency_stop (trig_state_ok env) (trig_tick env) (trig_rec_tick env) g1 ss1
    else (g1, ss1)) = (g2, ss2)" by simp
  note u = cycle_unfold[OF cyc chk sel]
  have t2: "emergency_stop_time ss2 = trig_tick env"
    using trigger_fields(3)[of "trig_state_ok env" "trig_tick env" "trig_rec_tick env" g1 ss1] trg by simp
  show "emergency_stop_time ss' = trig_tick env"
    using u t2 by (simp add: clear_time)
  assume b: "trig_state_ok env \<and> clr_tick env - trig_tick env \<le> pdMS_TO_TICKS EMERGENCY_STOP_DURATION"
  have e2: "emergency_stop g2"
    using trigger_fields(1)[of "trig_state_ok env" "trig_tick env" "trig_rec_tick env" g1 ss1] trg b by simp
  show "emergency_stop g'"
    using u clear_keeps_within_hold[OF e2, of "clr_tick env" ss2] b t2 by simp
next
  assume a: "\<not> (critical \<and> 2 \<le> active_alarms ss1)"
  then have sel: "(if critical \<and> active_alarms ss1 \<ge> 2
    then trigger_emergency_stop (trig_state_ok env) (trig_tick env) (trig_rec_tick env) g1 ss1
    else (g1, ss1)) = (g1, ss1)" by auto
  note u = cycle_unfold[OF cyc chk sel]
  show "emergency_stop_time ss' = emergency_stop_time ss"
    using u ccc_eqD(1)[OF chk] by (simp add: clear_time)
  assume "emergency_stop g'"
  then show "emergency_stop g"
    using u ccc_eqD(2)[OF chk] clear_only_clears by metis
next
  assume a: "cc_state_ok env \<and> cc_thr_ok env"
  from a chk have c: "check_critical_conditions True True th g ss = (critical, g1, ss1)" by simp
  show "critical =
              ((vibration_critical_now th (sensors g) \<and> \<not> vibration_alarm ss)
               \<or> (temperature_critical_now th (sensors g) \<and> \<not> temperature_alarm ss)
               \<or> (rpm_critical_now th (sensors g) \<and> \<not> rpm_alarm ss)
               \<or> (current_critical_now th (sensors g) \<and> \<not> current_alarm ss))"
    using ccc_critical_locked[of th g ss] c by simp
  show "(2 \<le> active_alarms ss1) = (2 \<le> conditions_holding th (sensors g))"
    using ccc_alarms_locked[of th g ss] c by (simp add: active_alarms_ge2 conditions_holding_ge2)
qed

theorem latch_on_rising_edge_with_two_alarms_witness:
  "emergency_stop (fst after_latch) \<and> emergency_stop_time (fst (snd after_latch)) = 1000
   \<and> 2 \<le> conditions_holding init_thresholds critical_readings
   \<and> \<not> emergency_stop (fst (vSafetyTask_cycle (safety_env_ok 1000) init_thresholds
         ((system_state_init 0)\<lparr>sensors := single_alarm_readings\<rparr>, init_safety_state,
          \<lparr>cycle_count = 0, preemption_demo_count = 0\<rparr>)))
   \<and> conditions_holding init_thresholds single_alarm_readings = 1"
proof -
  obtain c g1 ss1 where chk: "check_critical_conditions True True init_thresholds
      ((system_state_init 0)\<lparr>sensors := critical_readings\<rparr>) init_safety_state = (c, g1, ss1)"
    by (metis surj_pair)
  obtain g' ss' loc' where cyc: "vSafetyTask_cycle (safety_env_ok 1000) init_thresholds
      ((system_state_init 0)\<lparr>sensors := critical_readings\<rparr>, init_safety_state,
       \<lparr>cycle_count = 0, preemption_demo_count = 0\<rparr>) = (g', ss', loc')"
    by (metis surj_pair)
  have al: "after_latch = (g', ss', loc')"
    using cyc by (simp add: after_latch_def safety_start_def)
  have ch: "2 \<le> conditions_holding init_thresholds critical_readings"
    by (simp add: conditions_holding_def vibration_critical_now_def temperature_critical_now_def
        rpm_critical_now_def current_critical_now_def init_thresholds_def critical_readings_def)
  have first: "emergency_stop g' \<and> emergency_stop_time ss' = 1000"
    using latch_on_rising_edge_with_two_alarms[of "safety_env_ok 1000" init_thresholds
        "(system_state_init 0)\<lparr>sensors := critical_readings\<rparr>" init_safety_state c g1 ss1
        "\<lparr>cycle_count = 0, preemption_demo_count = 0\<rparr>" g' ss' loc'] chk cyc ch
    by (simp add: safety_env_ok_def init_safety_state_def pdMS_TO_TICKS_def
         EMERGENCY_STOP_DURATION_def configTICK_RATE_HZ_def vibration_critical_now_def
         init_thresholds_def critical_readings_def)
  obtain d h1 ts1 where chk2: "check_critical_conditions True True init_thresholds
      ((system_state_init 0)\<lparr>sensors := single_alarm_readings\<rparr>) init_safety_state = (d, h1, ts1)"
    by (metis surj_pair)
  obtain h' ts' lc' where cyc2: "vSafetyTask_cycle (safety_env_ok 1000) init_thresholds
      ((system_state_init 0)\<lparr>sensors := single_alarm_readings\<rparr>, init_safety_state,
       \<lparr>cycle_count = 0, preemption_demo_count = 0\<rparr>) = (h', ts', lc')"
    by (metis surj_pair)
  have ch2: "conditions_holding init_thresholds single_alarm_readings = 1"
    by (simp add: conditions_holding_def vibration_critical_now_def temperature_critical_now_def
        rpm_critical_now_def current_critical_now_def init_thresholds_def single_alarm_readings_def)
  have second: "\<not> emergency_stop h'"
    using latch_on_rising_edge_with_two_alarms[of "safety_env_ok 1000" init_thresholds
        "(system_state_init 0)\<lparr>sensors := single_alarm_readings\<rparr>" init_safety_state d h1 ts1
        "\<lparr>cycle_count = 0, preemption_demo_count = 0\<rparr>" h' ts' lc'] chk2 cyc2 ch2
    by (simp add: safety_env_ok_def system_state_init_def)
  show ?thesis
    using first second ch ch2 by (simp add: al cyc2)
qed

text \<open>
  A pass in which no alarm flag rises. When the flags already agree with the conditions
  and the stop flag is clear, the pass leaves the stop flag clear, whatever the number of
  alarms set, and the flags still agree with the conditions afterwards.
\<close>

lemma clear_idle:
  "\<not> emergency_stop g \<Longrightarrow> snd (check_emergency_clear r n a b w th g ss) = ss"
  "\<not> emergency_stop g \<Longrightarrow> sensors (fst (check_emergency_clear r n a b w th g ss)) = sensors g"
  by (simp_all add: check_emergency_clear_def Let_def system_mutex_section_fields)

lemma vSafetyTask_cycle_sensors:
  "sensors (fst (vSafetyTask_cycle env th (g, ss, loc))) = sensors g"
proof -
  obtain critical g1 ss1 where cc: "check_critical_conditions (cc_state_ok env) (cc_thr_ok env) th g ss
      = (critical, g1, ss1)" by (metis prod_cases3)
  obtain g2 ss2 where tr: "(if critical \<and> active_alarms ss1 \<ge> 2
    then trigger_emergency_stop (trig_state_ok env) (trig_tick env) (trig_rec_tick env) g1 ss1
    else (g1, ss1)) = (g2, ss2)" by (metis surj_pair)
  obtain g3 ss3 where cl: "check_emergency_clear (clr_read_ok env) (clr_tick env)
      (clr_cc_state_ok env) (clr_cc_thr_ok env) (clr_write_ok env) th g2 ss2 = (g3, ss3)"
    by (metis surj_pair)
  have s1: "sensors g1 = sensors g" by (rule ccc_eqD(3)[OF cc])
  have s2: "sensors g2 = sensors g1"
    using tr trigger_fields(2)[of "trig_state_ok env" "trig_tick env" "trig_rec_tick env" g1 ss1]
    by (auto split: if_splits)
  have s3: "sensors g3 = sensors g2"
    using cl
    by (auto simp add: check_emergency_clear_def Let_def system_mutex_section_fields
         split: prod.splits if_splits dest: ccc_eqD(3))
  show ?thesis
    using cc tr cl s1 s2 s3
    by (auto simp add: vSafetyTask_cycle_def Let_def record_preemption_fields split: if_splits)
qed

lemma no_latch_without_rising_flag:
  assumes cyc: "vSafetyTask_cycle env th (g, ss, loc) = (g', ss', loc')"
    and ok: "cc_state_ok env" "cc_thr_ok env"
    and fl: "vibration_alarm ss = vibration_critical_now th (sensors g)"
      "temperature_alarm ss = temperature_critical_now th (sensors g)"
      "rpm_alarm ss = rpm_critical_now th (sensors g)"
      "current_alarm ss = current_critical_now th (sensors g)"
    and e: "\<not> emergency_stop g"
  shows "\<not> emergency_stop g' \<and> sensors g' = sensors g
       \<and> vibration_alarm ss' = vibration_critical_now th (sensors g')
       \<and> temperature_alarm ss' = temperature_critical_now th (sensors g')
       \<and> rpm_alarm ss' = rpm_critical_now th (sensors g')
       \<and> current_alarm ss' = current_critical_now th (sensors g')
       \<and> emergency_stop_time ss' = emergency_stop_time ss"
proof -
  obtain critical g1 ss1 where cc: "check_critical_conditions (cc_state_ok env) (cc_thr_ok env) th g ss
      = (critical, g1, ss1)" by (metis prod_cases3)
  from cc ok have cl: "check_critical_conditions True True th g ss = (critical, g1, ss1)" by simp
  have "fst (check_critical_conditions True True th g ss) = False"
    unfolding ccc_critical_locked using fl by simp
  with cl have nc: "\<not> critical" by simp
  then have sel: "(if critical \<and> active_alarms ss1 \<ge> 2
    then trigger_emergency_stop (trig_state_ok env) (trig_tick env) (trig_rec_tick env) g1 ss1
    else (g1, ss1)) = (g1, ss1)" by simp
  note u = cycle_unfold[OF cyc cc sel]
  from ccc_eqD[OF cc] e have g1: "\<not> emergency_stop g1" "sensors g1 = sensors g"
    and t1: "emergency_stop_time ss1 = emergency_stop_time ss" by simp_all
  from u clear_idle(1)[OF g1(1)] have ss': "ss' = ss1" by simp
  have e': "\<not> emergency_stop g'"
    using u g1(1) clear_only_clears by metis
  have s': "sensors g' = sensors g"
    using vSafetyTask_cycle_sensors[of env th g ss loc] cyc by simp
  from ccc_alarms_locked[of th g ss] cl
  have a1: "vibration_alarm ss1 = vibration_critical_now th (sensors g)"
      "temperature_alarm ss1 = temperature_critical_now th (sensors g)"
      "rpm_alarm ss1 = rpm_critical_now th (sensors g)"
      "current_alarm ss1 = current_critical_now th (sensors g)"
    by simp_all
  from e' s' ss' a1 t1 show ?thesis by simp
qed

lemma after_clear_eval:
  "\<not> emergency_stop (fst after_clear)" "sensors (fst after_clear) = critical_readings"
  "fst (snd after_clear) = \<lparr>vibration_alarm = True, temperature_alarm = True, rpm_alarm = False,
     current_alarm = False, emergency_stop_time = 1000, alarm_count = 2\<rparr>"
proof -
  have split3: "after_latch = (fst after_latch, fst (snd after_latch), snd (snd after_latch))"
    by simp
  show "\<not> emergency_stop (fst after_clear)" "sensors (fst after_clear) = critical_readings"
  "fst (snd after_clear) = \<lparr>vibration_alarm = True, temperature_alarm = True, rpm_alarm = False,
     current_alarm = False, emergency_stop_time = 1000, alarm_count = 2\<rparr>"
    unfolding after_clear_def
    by (subst split3, simp add: after_latch_eval vSafetyTask_cycle_def check_emergency_clear_def
      check_critical_conditions_def check_vibration_def check_temperature_def check_rpm_def
      check_current_def active_alarms_def system_mutex_section_def threshold_mutex_section_def
      record_preemption_def pdMS_TO_TICKS_def EMERGENCY_STOP_DURATION_def configTICK_RATE_HZ_def
      init_thresholds_def critical_readings_def safety_env_ok_def Let_def)+
qed

lemma critical_readings_conditions:
  "vibration_critical_now init_thresholds critical_readings"
  "temperature_critical_now init_thresholds critical_readings"
  "\<not> rpm_critical_now init_thresholds critical_readings"
  "\<not> current_critical_now init_thresholds critical_readings"
  "conditions_holding init_thresholds critical_readings = 2"
  by (simp_all add: conditions_holding_def vibration_critical_now_def temperature_critical_now_def
        rpm_critical_now_def current_critical_now_def init_thresholds_def critical_readings_def)

text \<open>
  The same after a first pass in which the take of \<open>trigger_emergency_stop\<close> timed out: the
  two flags are set, the stop is not, and the next pass, which obtains every mutex, does
  not set it.
\<close>

lemma after_missed_write_eval:
  "\<not> emergency_stop (fst after_missed_write)" "sensors (fst after_missed_write) = critical_readings"
  "fst (snd after_missed_write) = \<lparr>vibration_alarm = True, temperature_alarm = True,
     rpm_alarm = False, current_alarm = False, emergency_stop_time = 1000, alarm_count = 2\<rparr>"
  unfolding after_missed_write_def
  by (simp_all add: vSafetyTask_cycle_def check_emergency_clear_def trigger_emergency_stop_def
      check_critical_conditions_def check_vibration_def check_temperature_def check_rpm_def
      check_current_def active_alarms_def system_mutex_section_def threshold_mutex_section_def
      record_preemption_def pdMS_TO_TICKS_def EMERGENCY_STOP_DURATION_def configTICK_RATE_HZ_def
      init_thresholds_def critical_readings_def safety_env_ok_def safety_start_def
      system_state_init_def init_safety_state_def Let_def PREEMPTION_HISTORY_SIZE_def
      MAX_STACK_MONITORED_TASKS_def copy_name_def MAX_TASK_NAME_LEN_def)

lemma stop_not_latched_after_missed_write:
  "\<not> emergency_stop (fst after_missed_write)
   \<and> \<not> emergency_stop (fst (vSafetyTask_cycle (safety_env_ok 1020) init_thresholds after_missed_write))
   \<and> active_alarms (fst (snd (vSafetyTask_cycle (safety_env_ok 1020) init_thresholds
         after_missed_write))) = 2
   \<and> conditions_holding init_thresholds
        (sensors (fst (vSafetyTask_cycle (safety_env_ok 1020) init_thresholds after_missed_write))) = 2"
proof -
  obtain g ss loc where ac: "after_missed_write = (g, ss, loc)" by (metis prod_cases3)
  obtain g' ss' loc' where cyc: "vSafetyTask_cycle (safety_env_ok 1020) init_thresholds (g, ss, loc)
      = (g', ss', loc')" by (metis prod_cases3)
  from after_missed_write_eval[unfolded ac] have e: "\<not> emergency_stop g"
    and s: "sensors g = critical_readings"
    and f: "ss = \<lparr>vibration_alarm = True, temperature_alarm = True, rpm_alarm = False,
     current_alarm = False, emergency_stop_time = 1000, alarm_count = 2\<rparr>" by simp_all
  have n: "\<not> emergency_stop g' \<and> sensors g' = sensors g
       \<and> vibration_alarm ss' = vibration_critical_now init_thresholds (sensors g')
       \<and> temperature_alarm ss' = temperature_critical_now init_thresholds (sensors g')
       \<and> rpm_alarm ss' = rpm_critical_now init_thresholds (sensors g')
       \<and> current_alarm ss' = current_critical_now init_thresholds (sensors g')
       \<and> emergency_stop_time ss' = emergency_stop_time ss"
    by (rule no_latch_without_rising_flag[OF cyc _ _ _ _ _ _ e])
       (simp_all add: safety_env_ok_def s f critical_readings_conditions)
  then have "active_alarms ss' = 2"
    by (simp add: active_alarms_def s critical_readings_conditions)
  with n e show ?thesis
    by (simp add: ac cyc s critical_readings_conditions)
qed

text \<open>
  Claim C4 (every pass in which at least two alarms are set sets the emergency stop)
  fails on the code. The stop is triggered under \<open>if (critical)\<close>, and \<open>critical\<close> is true only
  in a pass in which an alarm flag rises, although the comment there reads
  \<open>Multiple alarms = emergency stop\<close>. With vibration 15 and temperature 90 held constant and
  every mutex obtained, the stop latched at tick 1000 is cleared by the pass at tick 6001;
  in the pass at tick 6021 both alarm flags are set and both conditions hold, and the stop
  is not set. By \<open>no_latch_without_rising_flag\<close> the same is true of every later pass
  on these readings.
\<close>

theorem stop_not_latched_with_two_alarms_set:
  "\<not> emergency_stop (fst after_clear)
   \<and> \<not> emergency_stop (fst (vSafetyTask_cycle (safety_env_ok 6021) init_thresholds after_clear))
   \<and> active_alarms (fst (snd (vSafetyTask_cycle (safety_env_ok 6021) init_thresholds after_clear))) = 2
   \<and> conditions_holding init_thresholds
        (sensors (fst (vSafetyTask_cycle (safety_env_ok 6021) init_thresholds after_clear))) = 2"
proof -
  obtain g ss loc where ac: "after_clear = (g, ss, loc)" by (metis prod_cases3)
  obtain g' ss' loc' where cyc: "vSafetyTask_cycle (safety_env_ok 6021) init_thresholds (g, ss, loc)
      = (g', ss', loc')" by (metis prod_cases3)
  from after_clear_eval[unfolded ac] have e: "\<not> emergency_stop g" and s: "sensors g = critical_readings"
    and f: "ss = \<lparr>vibration_alarm = True, temperature_alarm = True, rpm_alarm = False,
     current_alarm = False, emergency_stop_time = 1000, alarm_count = 2\<rparr>" by simp_all
  have n: "\<not> emergency_stop g' \<and> sensors g' = sensors g
       \<and> vibration_alarm ss' = vibration_critical_now init_thresholds (sensors g')
       \<and> temperature_alarm ss' = temperature_critical_now init_thresholds (sensors g')
       \<and> rpm_alarm ss' = rpm_critical_now init_thresholds (sensors g')
       \<and> current_alarm ss' = current_critical_now init_thresholds (sensors g')
       \<and> emergency_stop_time ss' = emergency_stop_time ss"
    by (rule no_latch_without_rising_flag[OF cyc _ _ _ _ _ _ e])
       (simp_all add: safety_env_ok_def s f critical_readings_conditions)
  then have "active_alarms ss' = 2"
    by (simp add: active_alarms_def s critical_readings_conditions)
  with n e show ?thesis
    by (simp add: ac cyc s critical_readings_conditions)
qed

subsection \<open>The anomaly detection task\<close>

lemma mean_loop_in_range:
  "i + n \<le> length a \<Longrightarrow> mean_loop a i n s = Inr (s + sum_list (take n (drop i a)))"
proof (induction n arbitrary: i s)
  case 0
  then show ?case by simp
next
  case (Suc n)
  then have "i < length a" by simp
  then have d: "drop i a = a ! i # drop (Suc i) a" by (simp add: Cons_nth_drop_Suc)
  from Suc show ?case by (simp add: read_history_def d)
qed

lemma mean_loop_overrun:
  "i \<le> length a \<Longrightarrow> length a < i + n \<Longrightarrow> mean_loop a i n s = Inl (OutOfBounds (length a))"
proof (induction n arbitrary: i s)
  case 0
  then show ?case by simp
next
  case (Suc n)
  show ?case
  proof (cases "i < length a")
    case True
    with Suc show ?thesis by (simp add: read_history_def)
  next
    case False
    with Suc.prems have "i = length a" by simp
    then show ?thesis by (simp add: read_history_def)
  qed
qed

lemma stddev_loop_in_range:
  "i + n \<le> length a \<Longrightarrow>
   stddev_loop a i n m s = Inr (s + sum_list (map (\<lambda>v. (v - m) * (v - m)) (take n (drop i a))))"
proof (induction n arbitrary: i s)
  case 0
  then show ?case by simp
next
  case (Suc n)
  then have "i < length a" by simp
  then have d: "drop i a = a ! i # drop (Suc i) a" by (simp add: Cons_nth_drop_Suc)
  from Suc show ?case by (simp add: read_history_def d Let_def)
qed

lemma calculate_mean_in_range:
  "start + n \<le> length a \<Longrightarrow>
   calculate_mean a start n = Inr (sum_list (take n (drop start a)) / real n)"
  by (simp add: calculate_mean_def mean_loop_in_range)

lemma calculate_mean_overrun:
  "start \<le> length a \<Longrightarrow> length a < start + n \<Longrightarrow>
   calculate_mean a start n = Inl (OutOfBounds (length a))"
  by (simp add: calculate_mean_def mean_loop_overrun)

lemma calculate_stddev_in_range:
  "start + n \<le> length a \<Longrightarrow>
   calculate_stddev a start n m =
     Inr (sqrt (sum_list (map (\<lambda>v. (v - m) * (v - m)) (take n (drop start a))) / real n))"
  by (simp add: calculate_stddev_def stddev_loop_in_range)

lemma mean_loop_beyond:
  "0 < n \<Longrightarrow> length a < i + n \<Longrightarrow> mean_loop a i n s = Inl (OutOfBounds (max i (length a)))"
proof (induction n arbitrary: i s)
  case 0
  then show ?case by simp
next
  case (Suc n)
  show ?case
  proof (cases "i < length a")
    case True
    with Suc.prems have "0 < n" "length a < Suc i + n" by simp_all
    with Suc.IH[of "Suc i"] True show ?thesis by (simp add: read_history_def max_def)
  next
    case False
    then show ?thesis by (simp add: read_history_def max_def)
  qed
qed

lemma calculate_mean_beyond:
  "0 < n \<Longrightarrow> length a < start + n \<Longrightarrow> calculate_mean a start n = Inl (OutOfBounds (max start (length a)))"
  by (simp add: calculate_mean_def mean_loop_beyond)

lemma window_start:
  fixes hi :: uint32_t
  shows "unat (if hi < BASELINE_WINDOW then 0 else hi - BASELINE_WINDOW) = unat hi - 20"
  by (auto simp: BASELINE_WINDOW_def word_less_nat_alt unat_sub word_le_nat_alt)

lemma window_count:
  fixes hi :: uint32_t
  shows "unat (if hi < BASELINE_WINDOW then hi else BASELINE_WINDOW) = min (unat hi) 20"
  by (auto simp: BASELINE_WINDOW_def word_less_nat_alt)

lemma window_count_pos:
  fixes hi :: uint32_t
  shows "((if hi < BASELINE_WINDOW then hi else BASELINE_WINDOW) > 0) = (0 < unat hi)"
  by (auto simp: BASELINE_WINDOW_def word_less_nat_alt)

lemma update_baselines_in_range:
  assumes "wf_detection ds" and "unat (history_index ds) \<le> HISTORY_SIZE" and "0 < unat (history_index ds)"
  defines "s \<equiv> unat (history_index ds) - 20" and "c \<equiv> min (unat (history_index ds)) 20"
  defines "mean \<equiv> (\<lambda>a. sum_list (take c (drop s a)) / real c)"
  defines "dev \<equiv> (\<lambda>a. sqrt (sum_list (map (\<lambda>v. (v - mean a) * (v - mean a)) (take c (drop s a))) / real c))"
  shows "update_baselines ds =
     Inr (ds\<lparr>vibration_baseline := mean (vibration_history ds),
             temperature_baseline := mean (temperature_history ds),
             rpm_baseline := mean (rpm_history ds),
             vibration_stddev := dev (vibration_history ds),
             temperature_stddev := dev (temperature_history ds),
             rpm_stddev := dev (rpm_history ds)\<rparr>)"
proof -
  have r: "s + c \<le> HISTORY_SIZE" using assms(2) by (simp add: s_def c_def)
  with assms(1) have rr: "s + c \<le> length (vibration_history ds)"
     "s + c \<le> length (temperature_history ds)" "s + c \<le> length (rpm_history ds)"
    by (simp_all add: wf_detection_def)
  show ?thesis
    unfolding update_baselines_def Let_def window_start window_count window_count_pos
    using assms(3) rr
    by (simp add: calculate_mean_in_range calculate_stddev_in_range s_def[symmetric] c_def[symmetric]
          mean_def dev_def)
qed

lemma update_baselines_beyond:
  assumes "wf_detection ds" and "HISTORY_SIZE < unat (history_index ds)"
  shows "update_baselines ds = Inl (OutOfBounds (max (unat (history_index ds) - 20) HISTORY_SIZE))"
proof -
  have "length (vibration_history ds) < (unat (history_index ds) - 20) + min (unat (history_index ds)) 20"
    using assms by (simp add: wf_detection_def HISTORY_SIZE_def)
  then have "calculate_mean (vibration_history ds) (unat (history_index ds) - 20) (min (unat (history_index ds)) 20)
     = Inl (OutOfBounds (max (unat (history_index ds) - 20) HISTORY_SIZE))"
    using calculate_mean_beyond[of "min (unat (history_index ds)) 20" "vibration_history ds"] assms
    by (simp add: wf_detection_def HISTORY_SIZE_def)
  moreover have "0 < unat (history_index ds)" using assms(2) by simp
  ultimately show ?thesis
    unfolding update_baselines_def Let_def window_start window_count window_count_pos
    by simp
qed

lemma update_baselines_empty:
  "history_index ds = 0 \<Longrightarrow> update_baselines ds = Inr ds"
  by (simp add: update_baselines_def BASELINE_WINDOW_def)

lemma store_in_history_ok:
  assumes "wf_detection ds"
  shows "store_in_history v t r ds =
     Inr (ds\<lparr>vibration_history := (vibration_history ds)[unat (history_index ds) mod HISTORY_SIZE := v],
             temperature_history := (temperature_history ds)[unat (history_index ds) mod HISTORY_SIZE := t],
             rpm_history := (rpm_history ds)[unat (history_index ds) mod HISTORY_SIZE := r],
             history_index := history_index ds + 1\<rparr>)"
proof -
  have "unat (history_index ds mod of_nat HISTORY_SIZE) = unat (history_index ds) mod HISTORY_SIZE"
    by (simp add: HISTORY_SIZE_def unat_mod)
  moreover have "unat (history_index ds) mod HISTORY_SIZE < HISTORY_SIZE"
    by (simp add: HISTORY_SIZE_def)
  ultimately show ?thesis
    using assms by (simp add: store_in_history_def write_history_def wf_detection_def Let_def)
qed

lemma wf_store:
  "wf_detection ds \<Longrightarrow>
   wf_detection (ds\<lparr>vibration_history := (vibration_history ds)[i := v],
             temperature_history := (temperature_history ds)[j := t],
             rpm_history := (rpm_history ds)[k := r],
             history_index := h\<rparr>)"
  by (simp add: wf_detection_def)

lemma unat_succ_index:
  fixes hi :: uint32_t
  assumes "unat hi < 2 ^ 32 - 1"
  shows "unat (hi + 1) = Suc (unat hi)"
  using assms by (simp add: unat_word_ariths)

lemma detect_anomalies_in_range:
  assumes wf: "wf_detection ds" and r: "unat (history_index ds) < HISTORY_SIZE"
  shows "\<exists>g' ds'. detect_anomalies env th g ds = Inr (g', ds') \<and> wf_detection ds'
           \<and> history_index ds' = history_index ds + 1"
proof -
  let ?v = "if det_read_ok env then vibration (sensors g) else 0"
  let ?t = "if det_read_ok env then temperature (sensors g) else 0"
  let ?r = "if det_read_ok env then rpm (sensors g) else 0"
  obtain ds1 where st: "store_in_history ?v ?t ?r ds = Inr ds1"
    and wf1: "wf_detection ds1" and h1: "history_index ds1 = history_index ds + 1"
    using store_in_history_ok[OF wf, of ?v ?t ?r] wf_store[OF wf] by simp
  have u: "unat (history_index ds1) = Suc (unat (history_index ds))"
    using r h1 unat_succ_index[of "history_index ds"] by (simp add: HISTORY_SIZE_def)
  then have "unat (history_index ds1) \<le> HISTORY_SIZE" "0 < unat (history_index ds1)"
    using r by simp_all
  from update_baselines_in_range[OF wf1 this]
  obtain ds2 where ub: "update_baselines ds1 = Inr ds2" and wf2: "wf_detection ds2"
    and h2: "history_index ds2 = history_index ds1"
    using wf1 by (auto simp: wf_detection_def)
  show ?thesis
    using st ub wf2 h2 h1 by (simp add: detect_anomalies_def Let_def)
qed

lemma detect_anomalies_beyond:
  assumes wf: "wf_detection ds" and r: "HISTORY_SIZE \<le> unat (history_index ds)"
    and m: "unat (history_index ds) < 2 ^ 32 - 1"
  shows "detect_anomalies env th g ds =
           Inl (OutOfBounds (max (Suc (unat (history_index ds)) - 20) HISTORY_SIZE))"
proof -
  let ?v = "if det_read_ok env then vibration (sensors g) else 0"
  let ?t = "if det_read_ok env then temperature (sensors g) else 0"
  let ?r = "if det_read_ok env then rpm (sensors g) else 0"
  obtain ds1 where st: "store_in_history ?v ?t ?r ds = Inr ds1"
    and wf1: "wf_detection ds1" and h1: "history_index ds1 = history_index ds + 1"
    using store_in_history_ok[OF wf, of ?v ?t ?r] wf_store[OF wf] by simp
  have u: "unat (history_index ds1) = Suc (unat (history_index ds))"
    using m h1 unat_succ_index[of "history_index ds"] by simp
  then have "HISTORY_SIZE < unat (history_index ds1)" using r by simp
  from update_baselines_beyond[OF wf1 this] u st
  show ?thesis by (simp add: detect_anomalies_def Let_def)
qed

lemma detect_run_in_range:
  assumes "wf_detection ds" and "unat (history_index ds) + n \<le> HISTORY_SIZE"
  shows "\<exists>g' ds'. detect_run n env th g ds = Inr (g', ds') \<and> wf_detection ds'
           \<and> unat (history_index ds') = unat (history_index ds) + n"
  using assms
proof (induction n arbitrary: g ds)
  case 0
  then show ?case by simp
next
  case (Suc n)
  then have r: "unat (history_index ds) < HISTORY_SIZE" by simp
  from detect_anomalies_in_range[OF Suc.prems(1) r, of env th g]
  obtain g1 ds1 where d: "detect_anomalies env th g ds = Inr (g1, ds1)" and wf1: "wf_detection ds1"
    and h1: "history_index ds1 = history_index ds + 1" by blast
  have u: "unat (history_index ds1) = Suc (unat (history_index ds))"
    using r h1 unat_succ_index[of "history_index ds"] by (simp add: HISTORY_SIZE_def)
  with Suc.prems have "unat (history_index ds1) + n \<le> HISTORY_SIZE" by simp
  from Suc.IH[OF wf1 this, of g1] d u show ?case by simp
qed

lemma detect_run_append:
  "detect_run (m + n) env th g ds =
     (case detect_run m env th g ds of Inl e \<Rightarrow> Inl e | Inr (g', ds') \<Rightarrow> detect_run n env th g' ds')"
  by (induction m arbitrary: g ds) (auto split: sum.splits)

lemma wf_init: "wf_detection init_detection_state"
  by (simp add: wf_detection_def init_detection_state_def)

text \<open>
  Claim C3 fails on the code. From the initial state, 100 calls of \<open>detect_anomalies\<close>
  complete; the 101st stores its reading in element 0 and then, in the window computation
  of \<open>update_baselines\<close>, reads element 100 of \<open>vibration_history\<close>, which has elements 0 to 99.
\<close>

theorem window_reads_past_history_end:
  "detect_run 101 detect_env_ok init_thresholds (system_state_init 0) init_detection_state
     = Inl (OutOfBounds 100)
   \<and> \<not> isl (detect_run 100 detect_env_ok init_thresholds (system_state_init 0)
              init_detection_state)"
proof -
  have "unat (history_index init_detection_state) + 100 \<le> HISTORY_SIZE"
    by (simp add: init_detection_state_def HISTORY_SIZE_def)
  from detect_run_in_range[OF wf_init this, of detect_env_ok init_thresholds "system_state_init 0"]
  obtain g ds where run: "detect_run 100 detect_env_ok init_thresholds (system_state_init 0)
      init_detection_state = Inr (g, ds)" and wf: "wf_detection ds"
    and h: "unat (history_index ds) = 100" by (auto simp: init_detection_state_def)
  have "detect_anomalies detect_env_ok init_thresholds g ds = Inl (OutOfBounds 100)"
    using detect_anomalies_beyond[OF wf, of detect_env_ok init_thresholds g] h
    by (simp add: HISTORY_SIZE_def)
  then have "detect_run (100 + 1) detect_env_ok init_thresholds (system_state_init 0)
      init_detection_state = Inl (OutOfBounds 100)"
    unfolding detect_run_append using run by simp
  with run show ?thesis by simp
qed

lemma capped_penalty:
  fixes x b sd k cap :: real
  assumes "0 < sd" "0 \<le> k" "0 \<le> cap"
  shows "0 \<le> min (\<bar>x - b\<bar> / (sd * 3) * k) cap" and "min (\<bar>x - b\<bar> / (sd * 3) * k) cap \<le> cap"
  using assms by (simp_all add: min_def)

lemma health_as_penalties:
  "health_from_deviations vib temp rpm_v ds =
     100 - vibration_penalty vib ds - temperature_penalty temp ds - rpm_penalty rpm_v ds"
  by (simp add: health_from_deviations_def vibration_penalty_def temperature_penalty_def
        rpm_penalty_def Let_def)

lemma penalty_ranges:
  "0 \<le> vibration_penalty vib ds" "vibration_penalty vib ds \<le> 30"
  "0 \<le> temperature_penalty temp ds" "temperature_penalty temp ds \<le> 25"
  "0 \<le> rpm_penalty rpm_v ds" "rpm_penalty rpm_v ds \<le> 25"
  using capped_penalty[of "vibration_stddev ds" 20 30 vib "vibration_baseline ds"]
        capped_penalty[of "temperature_stddev ds" 15 25 temp "temperature_baseline ds"]
        capped_penalty[of "rpm_stddev ds" 15 25 rpm_v "rpm_baseline ds"]
  by (simp_all add: vibration_penalty_def temperature_penalty_def rpm_penalty_def)

lemma health_from_deviations_range:
  "20 \<le> health_from_deviations vib temp rpm_v ds" "health_from_deviations vib temp rpm_v ds \<le> 100"
  using penalty_ranges(1,2)[of vib ds] penalty_ranges(3,4)[of temp ds] penalty_ranges(5,6)[of rpm_v ds]
  by (simp_all add: health_as_penalties)

lemma mutex_sections_keep:
  "anomalies (system_mutex_section ok (\<lambda>x. x) g) = anomalies g"
  "anomalies (threshold_mutex_section ok (\<lambda>x. x) g) = anomalies g"
  by (simp_all add: system_mutex_section_def threshold_mutex_section_def Let_def)

lemma published_health:
  "health_score (anomalies (evaluate_and_publish env th vib temp rpm_v g1 ds2)) =
     (if det_publish_ok env
      then (if det_emergency_ok env \<and> emergency_stop g1 then 0
            else health_from_deviations vib temp rpm_v ds2)
      else health_score (anomalies g1))"
  using health_from_deviations_range[of vib temp rpm_v ds2]
  by (simp add: evaluate_and_publish_def Let_def system_mutex_section_def
        threshold_mutex_section_def)

lemma detect_anomalies_InrD:
  assumes "detect_anomalies env th g ds = Inr (g', ds')"
  shows "g' = evaluate_and_publish env th
               (if det_read_ok env then vibration (sensors g) else 0)
               (if det_read_ok env then temperature (sensors g) else 0)
               (if det_read_ok env then rpm (sensors g) else 0)
               (system_mutex_section (det_read_ok env) (\<lambda>x. x) g) ds'"
  using assms by (auto simp: detect_anomalies_def Let_def split: sum.splits)

text \<open>
  Claim C7, amended. \<open>evaluate_and_publish\<close> is the part of \<open>detect_anomalies\<close> that follows
  \<open>update_baselines\<close>, so the statement holds in every call, for whatever baselines and
  deviation estimates the detection state holds. When the state mutex is obtained for the
  publication, the published health score is 0 if the emergency stop flag is set and the
  mutex was obtained for reading it, and otherwise 100 minus the vibration penalty, the
  temperature penalty and the rotational speed penalty; when the mutex is not obtained,
  the score published before stays. The vibration penalty lies between 0 and 30, the
  other two between 0 and 25. So the score lies between 0 and 100 after a call that
  publishes, and after any call when it did before. A call of \<open>detect_anomalies\<close> leaves the
  shared state that \<open>evaluate_and_publish\<close> returns on the readings, the emergency stop flag
  and the score found at the start of the call.
\<close>

theorem health_score_published_in_range:
  "health_score (anomalies (evaluate_and_publish env th vib temp rpm_v g1 ds2)) =
     (if det_publish_ok env
      then (if det_emergency_ok env \<and> emergency_stop g1 then 0
            else 100 - vibration_penalty vib ds2 - temperature_penalty temp ds2
                     - rpm_penalty rpm_v ds2)
      else health_score (anomalies g1))
   \<and> 0 \<le> vibration_penalty vib ds2 \<and> vibration_penalty vib ds2 \<le> 30
   \<and> 0 \<le> temperature_penalty temp ds2 \<and> temperature_penalty temp ds2 \<le> 25
   \<and> 0 \<le> rpm_penalty rpm_v ds2 \<and> rpm_penalty rpm_v ds2 \<le> 25
   \<and> (det_publish_ok env
         \<or> (0 \<le> health_score (anomalies g1) \<and> health_score (anomalies g1) \<le> 100) \<longrightarrow>
       0 \<le> health_score (anomalies (evaluate_and_publish env th vib temp rpm_v g1 ds2))
       \<and> health_score (anomalies (evaluate_and_publish env th vib temp rpm_v g1 ds2)) \<le> 100)
   \<and> (detect_anomalies env th g ds = Inr (g', ds') \<longrightarrow>
       g' = evaluate_and_publish env th
              (if det_read_ok env then vibration (sensors g) else 0)
              (if det_read_ok env then temperature (sensors g) else 0)
              (if det_read_ok env then rpm (sensors g) else 0)
              (system_mutex_section (det_read_ok env) (\<lambda>x. x) g) ds'
       \<and> emergency_stop (system_mutex_section (det_read_ok env) (\<lambda>x. x) g) = emergency_stop g
       \<and> health_score (anomalies (system_mutex_section (det_read_ok env) (\<lambda>x. x) g))
           = health_score (anomalies g))"
proof -
  let ?h = "health_score (anomalies (evaluate_and_publish env th vib temp rpm_v g1 ds2))"
  note p = penalty_ranges(1,2)[of vib ds2] penalty_ranges(3,4)[of temp ds2]
    penalty_ranges(5,6)[of rpm_v ds2]
  have h: "?h =
     (if det_publish_ok env
      then (if det_emergency_ok env \<and> emergency_stop g1 then 0
            else 100 - vibration_penalty vib ds2 - temperature_penalty temp ds2
                     - rpm_penalty rpm_v ds2)
      else health_score (anomalies g1))"
    unfolding published_health health_as_penalties ..
  have r: "det_publish_ok env
         \<or> (0 \<le> health_score (anomalies g1) \<and> health_score (anomalies g1) \<le> 100) \<longrightarrow>
       0 \<le> ?h \<and> ?h \<le> 100"
    unfolding h using p by auto
  have d: "detect_anomalies env th g ds = Inr (g', ds') \<longrightarrow>
       g' = evaluate_and_publish env th
              (if det_read_ok env then vibration (sensors g) else 0)
              (if det_read_ok env then temperature (sensors g) else 0)
              (if det_read_ok env then rpm (sensors g) else 0)
              (system_mutex_section (det_read_ok env) (\<lambda>x. x) g) ds'
       \<and> emergency_stop (system_mutex_section (det_read_ok env) (\<lambda>x. x) g) = emergency_stop g
       \<and> health_score (anomalies (system_mutex_section (det_read_ok env) (\<lambda>x. x) g))
           = health_score (anomalies g)"
    using detect_anomalies_InrD[of env th g ds g' ds']
    by (simp add: system_mutex_section_def Let_def)
  from h p r d show ?thesis by blast
qed

lemma first_sample_window:
  "0 < n \<Longrightarrow> take (Suc 0) ((replicate n z)[0 := x]) = [x]"
  by (cases n) simp_all

lemma first_detect_state:
  "det_read_ok env \<Longrightarrow> detect_anomalies env th g init_detection_state = Inr (g', ds') \<Longrightarrow>
   vibration_stddev ds' = 0 \<and> temperature_stddev ds' = 0 \<and> rpm_stddev ds' = 0"
proof -
  assume ok: "det_read_ok env" and d: "detect_anomalies env th g init_detection_state = Inr (g', ds')"
  let ?ds1 = "init_detection_state\<lparr>vibration_history := (vibration_history init_detection_state)[0 := vibration (sensors g)],
             temperature_history := (temperature_history init_detection_state)[0 := temperature (sensors g)],
             rpm_history := (rpm_history init_detection_state)[0 := rpm (sensors g)],
             history_index := 1\<rparr>"
  have st: "store_in_history (vibration (sensors g)) (temperature (sensors g)) (rpm (sensors g))
      init_detection_state = Inr ?ds1"
    using store_in_history_ok[OF wf_init] by (simp add: init_detection_state_def)
  have wf1: "wf_detection ?ds1" by (simp add: wf_detection_def init_detection_state_def)
  have "update_baselines ?ds1 = Inr ds'"
    using d ok st by (simp add: detect_anomalies_def Let_def split: sum.splits)
  moreover note update_baselines_in_range[OF wf1]
  ultimately show ?thesis
    by (simp add: HISTORY_SIZE_def init_detection_state_def first_sample_window)
qed

text \<open>
  Claim C7 as stated (a set emergency stop flag always gives a published score of 0) fails:
  with the flag set during the whole call, a timeout of the take that guards the read of
  the flag leaves the local \<open>emergency\<close> false, and the score published is 100.
\<close>

theorem flag_read_timeout_leaves_health_nonzero:
  "emergency_stop stopped_state
   \<and> \<not> isl (detect_anomalies detect_env_flag_timeout init_thresholds stopped_state init_detection_state)
   \<and> health_score (anomalies (fst (projr (detect_anomalies detect_env_flag_timeout init_thresholds
         stopped_state init_detection_state)))) = 100"
proof -
  have "unat (history_index init_detection_state) < HISTORY_SIZE"
    by (simp add: init_detection_state_def HISTORY_SIZE_def)
  from detect_anomalies_in_range[OF wf_init this, of detect_env_flag_timeout init_thresholds stopped_state]
  obtain g' ds' where d: "detect_anomalies detect_env_flag_timeout init_thresholds stopped_state
      init_detection_state = Inr (g', ds')" by blast
  have z: "vibration_stddev ds' = 0 \<and> temperature_stddev ds' = 0 \<and> rpm_stddev ds' = 0"
    using first_detect_state[OF _ d] by (simp add: detect_env_flag_timeout_def)
  have "health_score (anomalies g') = 100"
    unfolding detect_anomalies_InrD[OF d] published_health
    using z by (simp add: detect_env_flag_timeout_def health_from_deviations_def)
  then show ?thesis using d by (simp add: stopped_state_def)
qed

theorem health_score_published_in_range_witness:
  "emergency_stop stopped_state
   \<and> health_score (anomalies (evaluate_and_publish detect_env_ok init_thresholds 6 45 20
         stopped_state (steady_detection_state\<lparr>history_index := 101\<rparr>))) = 0
   \<and> health_score (anomalies (fst (projr (detect_anomalies detect_env_ok init_thresholds
         stopped_state init_detection_state)))) = 0
   \<and> 20 \<le> health_score (anomalies (fst (projr (detect_anomalies detect_env_flag_timeout
         init_thresholds stopped_state init_detection_state))))
   \<and> health_score (anomalies (fst (projr (detect_anomalies detect_env_publish_timeout
         init_thresholds stopped_state init_detection_state)))) = 100"
proof -
  have r: "unat (history_index init_detection_state) < HISTORY_SIZE"
    by (simp add: init_detection_state_def HISTORY_SIZE_def)
  have e: "emergency_stop stopped_state" by (simp add: stopped_state_def)
  have h0: "health_score (anomalies (evaluate_and_publish detect_env_ok init_thresholds 6 45 20
         stopped_state (steady_detection_state\<lparr>history_index := 101\<rparr>))) = 0"
    using health_score_published_in_range[of detect_env_ok init_thresholds 6 45 20 stopped_state
        "steady_detection_state\<lparr>history_index := 101\<rparr>"] e
    by (simp add: detect_env_ok_def)
  from detect_anomalies_in_range[OF wf_init r, of detect_env_ok init_thresholds stopped_state]
  obtain g1 ds1 where d1: "detect_anomalies detect_env_ok init_thresholds stopped_state
      init_detection_state = Inr (g1, ds1)" by blast
  let ?s = "system_mutex_section True (\<lambda>x. x) stopped_state"
  have h1: "health_score (anomalies g1) = 0"
    using health_score_published_in_range[of detect_env_ok init_thresholds
        "vibration (sensors stopped_state)" "temperature (sensors stopped_state)"
        "rpm (sensors stopped_state)" ?s ds1 stopped_state init_detection_state g1 ds1] d1 e
    by (simp add: detect_env_ok_def)
  from detect_anomalies_in_range[OF wf_init r, of detect_env_flag_timeout init_thresholds stopped_state]
  obtain g2 ds2 where d2: "detect_anomalies detect_env_flag_timeout init_thresholds stopped_state
      init_detection_state = Inr (g2, ds2)" by blast
  have h2: "20 \<le> health_score (anomalies g2)"
    using health_score_published_in_range[of detect_env_flag_timeout init_thresholds
        "vibration (sensors stopped_state)" "temperature (sensors stopped_state)"
        "rpm (sensors stopped_state)" ?s ds2 stopped_state init_detection_state g2 ds2] d2
    by (simp add: detect_env_flag_timeout_def)
  from detect_anomalies_in_range[OF wf_init r, of detect_env_publish_timeout init_thresholds stopped_state]
  obtain g3 ds3 where d3: "detect_anomalies detect_env_publish_timeout init_thresholds stopped_state
      init_detection_state = Inr (g3, ds3)" by blast
  have h3: "health_score (anomalies g3) = 100"
    using health_score_published_in_range[of detect_env_publish_timeout init_thresholds
        "vibration (sensors stopped_state)" "temperature (sensors stopped_state)"
        "rpm (sensors stopped_state)" ?s ds3 stopped_state init_detection_state g3 ds3] d3
    by (simp add: detect_env_publish_timeout_def stopped_state_def system_state_init_def)
  show ?thesis using e h0 h1 h2 h3 d1 d2 d3 by simp
qed

lemma feed_readings_in_range:
  assumes "wf_detection ds" and "unat (history_index ds) + length rs \<le> HISTORY_SIZE"
  shows "\<exists>g' ds'. feed_readings env th rs g ds = Inr (g', ds') \<and> wf_detection ds'
           \<and> unat (history_index ds') = unat (history_index ds) + length rs"
  using assms
proof (induction rs arbitrary: g ds)
  case Nil
  then show ?case by simp
next
  case (Cons r rs)
  then have r: "unat (history_index ds) < HISTORY_SIZE" by simp
  from detect_anomalies_in_range[OF Cons.prems(1) r, of env th "g\<lparr>sensors := r\<rparr>"]
  obtain g1 ds1 where d: "detect_anomalies env th (g\<lparr>sensors := r\<rparr>) ds = Inr (g1, ds1)"
    and wf1: "wf_detection ds1"
    and h1: "history_index ds1 = history_index ds + 1" by blast
  have u: "unat (history_index ds1) = Suc (unat (history_index ds))"
    using r h1 unat_succ_index[of "history_index ds"] by (simp add: HISTORY_SIZE_def)
  with Cons.prems have "unat (history_index ds1) + length rs \<le> HISTORY_SIZE" by simp
  from Cons.IH[OF wf1 this, of g1] d u show ?case by simp
qed

lemma feed_readings_append:
  "feed_readings env th (rs @ rs') g ds =
     (case feed_readings env th rs g ds of
        Inl e \<Rightarrow> Inl e
      | Inr (g', ds') \<Rightarrow> feed_readings env th rs' g' ds')"
  by (induction rs arbitrary: g ds) (auto split: sum.splits)

text \<open>
  Claim C2 fails on the code from the 101st reading on. Whatever the values of the
  readings, the pass for the 101st one stores it in element 0 and then asks for the mean of
  the 20 elements from \<open>history_index - BASELINE_WINDOW = 81\<close>: the loop reads elements 81 to
  99 and then element 100, which is past the array. The start of the window is never
  reduced modulo the capacity, so the window is not the 20 most recent values.
\<close>

theorem baseline_window_not_wrapped:
  assumes "length rs = 101"
  shows "feed_readings env th rs g init_detection_state = Inl (OutOfBounds 100)"
proof -
  have l: "length (butlast rs) = 100" using assms by simp
  have rs: "rs = butlast rs @ [last rs]" using assms by (cases rs rule: rev_cases) simp_all
  have "unat (history_index init_detection_state) + length (butlast rs) \<le> HISTORY_SIZE"
    using l by (simp add: init_detection_state_def HISTORY_SIZE_def)
  from feed_readings_in_range[OF wf_init this, of env th g]
  obtain g1 ds1 where f: "feed_readings env th (butlast rs) g init_detection_state = Inr (g1, ds1)"
    and wf1: "wf_detection ds1" and h1: "unat (history_index ds1) = 100"
    using l by (auto simp: init_detection_state_def)
  have "detect_anomalies env th (g1\<lparr>sensors := last rs\<rparr>) ds1 = Inl (OutOfBounds 100)"
    using detect_anomalies_beyond[OF wf1, of env th "g1\<lparr>sensors := last rs\<rparr>"] h1
    by (simp add: HISTORY_SIZE_def)
  then have "feed_readings env th (butlast rs @ [last rs]) g init_detection_state
      = Inl (OutOfBounds 100)"
    unfolding feed_readings_append using f by simp
  with rs show ?thesis by simp
qed

theorem baseline_window_not_wrapped_witness:
  "length (map ramp_reading [0..<101]) = 101
   \<and> feed_readings detect_env_ok init_thresholds (map ramp_reading [0..<101])
        (system_state_init 0) init_detection_state = Inl (OutOfBounds 100)"
proof -
  have l: "length (map ramp_reading [0..<101]) = 101" by simp
  show ?thesis using baseline_window_not_wrapped[OF l] l by simp
qed

lemma take_after_store:
  "n < length a \<Longrightarrow> take (Suc n) (a[n := v]) = take n a @ [v]"
  by (simp add: take_Suc_conv_app_nth)

lemma window_is_most_recent:
  assumes "n < length a"
  shows "take (min (Suc n) 20) (drop (Suc n - 20) (a[n := v])) = most_recent 20 (take n a @ [v])"
proof -
  have "take (min (Suc n) 20) (drop (Suc n - 20) (a[n := v]))
      = drop (Suc n - 20) (take (Suc n) (a[n := v]))"
    by (simp add: drop_take min_def)
  also have "\<dots> = drop (Suc n - 20) (take n a @ [v])"
    using assms by (simp only: take_after_store)
  finally show ?thesis using assms by (simp add: most_recent_def)
qed

lemma window_stats:
  assumes "length w = c"
  shows "sum_list w / real c = arithmetic_mean w"
    and "sqrt (sum_list (map (\<lambda>v. (v - sum_list w / real c) * (v - sum_list w / real c)) w) / real c)
           = population_stddev w"
  using assms by (simp_all add: arithmetic_mean_def population_stddev_def)

lemma update_baselines_window:
  assumes wf: "wf_detection ds" and u: "unat (history_index ds) = Suc n" and le: "Suc n \<le> HISTORY_SIZE"
    and wv: "take (min (Suc n) 20) (drop (Suc n - 20) (vibration_history ds)) = wv"
    and wt: "take (min (Suc n) 20) (drop (Suc n - 20) (temperature_history ds)) = wt"
    and wr: "take (min (Suc n) 20) (drop (Suc n - 20) (rpm_history ds)) = wr"
  shows "update_baselines ds =
     Inr (ds\<lparr>vibration_baseline := arithmetic_mean wv,
             temperature_baseline := arithmetic_mean wt,
             rpm_baseline := arithmetic_mean wr,
             vibration_stddev := population_stddev wv,
             temperature_stddev := population_stddev wt,
             rpm_stddev := population_stddev wr\<rparr>)"
proof -
  have r1: "unat (history_index ds) \<le> HISTORY_SIZE" and r2: "0 < unat (history_index ds)"
    using u le by simp_all
  have len: "length wv = min (Suc n) 20" "length wt = min (Suc n) 20" "length wr = min (Suc n) 20"
    using wf le wv[symmetric] wt[symmetric] wr[symmetric]
    by (auto simp: wf_detection_def HISTORY_SIZE_def)
  show ?thesis
    unfolding update_baselines_in_range[OF wf r1 r2] u wv wt wr
      window_stats(1)[OF len(1)] window_stats(1)[OF len(2)] window_stats(1)[OF len(3)]
    by (simp add: population_stddev_def len)
qed

lemma detect_step_holds:
  assumes ok: "det_read_ok env" and inv: "holds_samples ds rs" and lt: "length rs < HISTORY_SIZE"
    and d: "detect_anomalies env th (g\<lparr>sensors := r\<rparr>) ds = Inr (g', ds')"
  shows "holds_samples ds' (rs @ [r])"
    and "vibration_baseline ds' = arithmetic_mean (most_recent 20 (map vibration (rs @ [r])))"
    and "vibration_stddev ds' = population_stddev (most_recent 20 (map vibration (rs @ [r])))"
    and "temperature_baseline ds' = arithmetic_mean (most_recent 20 (map temperature (rs @ [r])))"
    and "temperature_stddev ds' = population_stddev (most_recent 20 (map temperature (rs @ [r])))"
    and "rpm_baseline ds' = arithmetic_mean (most_recent 20 (map rpm (rs @ [r])))"
    and "rpm_stddev ds' = population_stddev (most_recent 20 (map rpm (rs @ [r])))"
proof -
  let ?n = "length rs"
  from inv have wf: "wf_detection ds" and hi: "unat (history_index ds) = ?n"
    and tv: "take ?n (vibration_history ds) = map vibration rs"
    and tt: "take ?n (temperature_history ds) = map temperature rs"
    and tr: "take ?n (rpm_history ds) = map rpm rs"
    by (simp_all add: holds_samples_def)
  from wf lt have lv: "?n < length (vibration_history ds)" and ltm: "?n < length (temperature_history ds)"
    and lr: "?n < length (rpm_history ds)" by (simp_all add: wf_detection_def)
  let ?ds1 = "ds\<lparr>vibration_history := (vibration_history ds)[?n := vibration r],
             temperature_history := (temperature_history ds)[?n := temperature r],
             rpm_history := (rpm_history ds)[?n := rpm r],
             history_index := history_index ds + 1\<rparr>"
  have md: "unat (history_index ds) mod HISTORY_SIZE = ?n" using hi lt by simp
  have st: "store_in_history (vibration r) (temperature r) (rpm r) ds = Inr ?ds1"
    using store_in_history_ok[OF wf, of "vibration r" "temperature r" "rpm r"] md by simp
  have wf1: "wf_detection ?ds1" using wf by (simp add: wf_detection_def)
  have u: "unat (history_index ?ds1) = Suc ?n"
    using hi lt unat_succ_index[of "history_index ds"] by (simp add: HISTORY_SIZE_def)
  have ub: "update_baselines ?ds1 = Inr ds'"
    using d ok st by (simp add: detect_anomalies_def Let_def split: sum.splits)
  have r1: "unat (history_index ?ds1) \<le> HISTORY_SIZE" and r2: "0 < unat (history_index ?ds1)"
    using u lt by simp_all
  have wv: "take (min (Suc ?n) 20) (drop (Suc ?n - 20) (vibration_history ?ds1))
      = most_recent 20 (map vibration (rs @ [r]))"
    using window_is_most_recent[OF lv, of "vibration r"] tv by simp
  have wt: "take (min (Suc ?n) 20) (drop (Suc ?n - 20) (temperature_history ?ds1))
      = most_recent 20 (map temperature (rs @ [r]))"
    using window_is_most_recent[OF ltm, of "temperature r"] tt by simp
  have wr: "take (min (Suc ?n) 20) (drop (Suc ?n - 20) (rpm_history ?ds1))
      = most_recent 20 (map rpm (rs @ [r]))"
    using window_is_most_recent[OF lr, of "rpm r"] tr by simp
  have le1: "Suc ?n \<le> HISTORY_SIZE" using lt by simp
  have ds': "ds' = ?ds1\<lparr>
       vibration_baseline := arithmetic_mean (most_recent 20 (map vibration (rs @ [r]))),
       temperature_baseline := arithmetic_mean (most_recent 20 (map temperature (rs @ [r]))),
       rpm_baseline := arithmetic_mean (most_recent 20 (map rpm (rs @ [r]))),
       vibration_stddev := population_stddev (most_recent 20 (map vibration (rs @ [r]))),
       temperature_stddev := population_stddev (most_recent 20 (map temperature (rs @ [r]))),
       rpm_stddev := population_stddev (most_recent 20 (map rpm (rs @ [r])))\<rparr>"
    using update_baselines_window[OF wf1 u le1 wv wt wr] ub by simp
  show "holds_samples ds' (rs @ [r])"
    unfolding ds' using wf lt u lv ltm lr tv tt tr
    by (simp add: holds_samples_def wf_detection_def take_after_store)
  show "vibration_baseline ds' = arithmetic_mean (most_recent 20 (map vibration (rs @ [r])))"
    and "vibration_stddev ds' = population_stddev (most_recent 20 (map vibration (rs @ [r])))"
    and "temperature_baseline ds' = arithmetic_mean (most_recent 20 (map temperature (rs @ [r])))"
    and "temperature_stddev ds' = population_stddev (most_recent 20 (map temperature (rs @ [r])))"
    and "rpm_baseline ds' = arithmetic_mean (most_recent 20 (map rpm (rs @ [r])))"
    and "rpm_stddev ds' = population_stddev (most_recent 20 (map rpm (rs @ [r])))"
    unfolding ds' by simp_all
qed

lemma holds_samples_init: "holds_samples init_detection_state []"
  by (simp add: holds_samples_def wf_detection_def init_detection_state_def)

lemma feed_readings_holds:
  assumes ok: "det_read_ok env"
  shows "length rs \<le> HISTORY_SIZE \<Longrightarrow>
         \<exists>g' ds'. feed_readings env th rs g init_detection_state = Inr (g', ds') \<and> holds_samples ds' rs"
proof (induction rs rule: rev_induct)
  case Nil
  then show ?case by (simp add: holds_samples_init)
next
  case (snoc r rs)
  then obtain g1 ds1 where f: "feed_readings env th rs g init_detection_state = Inr (g1, ds1)"
    and inv: "holds_samples ds1 rs" by auto
  from snoc.prems have lt: "length rs < HISTORY_SIZE" by simp
  from inv have wf: "wf_detection ds1" and hi: "unat (history_index ds1) < HISTORY_SIZE"
    using lt by (simp_all add: holds_samples_def)
  from detect_anomalies_in_range[OF wf hi, of env th "g1\<lparr>sensors := r\<rparr>"]
  obtain g2 ds2 where d: "detect_anomalies env th (g1\<lparr>sensors := r\<rparr>) ds1 = Inr (g2, ds2)" by blast
  from detect_step_holds(1)[OF ok inv lt d] f d
  show ?case by (simp add: feed_readings_append)
qed

text \<open>
  What does hold of the code, for a history that has not wrapped: after feeding between 1
  and \<open>HISTORY_SIZE\<close> readings to a fresh detector that obtains the state mutex for each
  read, every baseline is the arithmetic mean and every spread the population standard
  deviation of the 20 most recent values of its channel (of all of them while there are
  fewer than 20). This is in the arithmetic of the reals, which the single precision
  arithmetic of the code follows up to rounding.
\<close>

lemma baseline_of_recent_window_before_wrap:
  assumes ok: "det_read_ok env" and ne: "rs \<noteq> []" and le: "length rs \<le> HISTORY_SIZE"
  shows "\<exists>g' ds'. feed_readings env th rs g init_detection_state = Inr (g', ds')
     \<and> vibration_baseline ds' = arithmetic_mean (most_recent 20 (map vibration rs))
     \<and> vibration_stddev ds' = population_stddev (most_recent 20 (map vibration rs))
     \<and> temperature_baseline ds' = arithmetic_mean (most_recent 20 (map temperature rs))
     \<and> temperature_stddev ds' = population_stddev (most_recent 20 (map temperature rs))
     \<and> rpm_baseline ds' = arithmetic_mean (most_recent 20 (map rpm rs))
     \<and> rpm_stddev ds' = population_stddev (most_recent 20 (map rpm rs))"
proof -
  from ne obtain rs0 r where rs: "rs = rs0 @ [r]" by (cases rs rule: rev_cases) auto
  with le have lt: "length rs0 < HISTORY_SIZE" by simp
  then have "length rs0 \<le> HISTORY_SIZE" by simp
  from feed_readings_holds[OF ok this, of th g]
  obtain g1 ds1 where f: "feed_readings env th rs0 g init_detection_state = Inr (g1, ds1)"
    and inv: "holds_samples ds1 rs0" by blast
  from inv have wf: "wf_detection ds1" and hi: "unat (history_index ds1) < HISTORY_SIZE"
    using lt by (simp_all add: holds_samples_def)
  from detect_anomalies_in_range[OF wf hi, of env th "g1\<lparr>sensors := r\<rparr>"]
  obtain g2 ds2 where d: "detect_anomalies env th (g1\<lparr>sensors := r\<rparr>) ds1 = Inr (g2, ds2)" by blast
  have "feed_readings env th rs g init_detection_state = Inr (g2, ds2)"
    unfolding rs feed_readings_append using f d by simp
  with detect_step_holds(2-7)[OF ok inv lt d] show ?thesis unfolding rs by blast
qed

lemma steady_window:
  "take 20 (drop 6 ((replicate HISTORY_SIZE x)[25 := x])) = replicate 20 x"
proof -
  have "(replicate HISTORY_SIZE x)[25 := x] = replicate HISTORY_SIZE x"
    by (rule nth_equalityI) (auto simp: nth_list_update HISTORY_SIZE_def)
  then show ?thesis by (simp add: HISTORY_SIZE_def)
qed

lemma steady_update:
  "update_baselines (steady_detection_state\<lparr>
       vibration_history := (vibration_history steady_detection_state)[25 := 6],
       temperature_history := (temperature_history steady_detection_state)[25 := 45],
       rpm_history := (rpm_history steady_detection_state)[25 := 20],
       history_index := 26\<rparr>)
     = Inr (steady_detection_state\<lparr>
       vibration_history := (vibration_history steady_detection_state)[25 := 6],
       temperature_history := (temperature_history steady_detection_state)[25 := 45],
       rpm_history := (rpm_history steady_detection_state)[25 := 20],
       history_index := 26\<rparr>)"
  (is "update_baselines ?ds1 = Inr ?ds1")
proof -
  have wf1: "wf_detection ?ds1" by (simp add: wf_detection_def steady_detection_state_def)
  have u: "unat (history_index ?ds1) = Suc 25" by simp
  have le: "Suc 25 \<le> HISTORY_SIZE" by (simp add: HISTORY_SIZE_def)
  have wv: "take (min (Suc 25) 20) (drop (Suc 25 - 20) (vibration_history ?ds1)) = replicate 20 6"
    using steady_window[of 6] by (simp add: steady_detection_state_def)
  have wt: "take (min (Suc 25) 20) (drop (Suc 25 - 20) (temperature_history ?ds1)) = replicate 20 45"
    using steady_window[of 45] by (simp add: steady_detection_state_def)
  have wr: "take (min (Suc 25) 20) (drop (Suc 25 - 20) (rpm_history ?ds1)) = replicate 20 20"
    using steady_window[of 20] by (simp add: steady_detection_state_def)
  have m: "arithmetic_mean (replicate 20 c) = c" "population_stddev (replicate 20 c) = 0" for c :: real
    by (simp_all add: arithmetic_mean_def population_stddev_def sum_list_replicate)
  show ?thesis
    unfolding update_baselines_window[OF wf1 u le wv wt wr] m
    by (simp add: steady_detection_state_def)
qed

lemma steady_detect:
  assumes "det_read_ok env"
  shows "detect_anomalies env th (g\<lparr>sensors := steady_reading\<rparr>) steady_detection_state =
     Inr (evaluate_and_publish env th 6 45 20
            (system_mutex_section True (\<lambda>x. x) (g\<lparr>sensors := steady_reading\<rparr>))
            (steady_detection_state\<lparr>
               vibration_history := (vibration_history steady_detection_state)[25 := 6],
               temperature_history := (temperature_history steady_detection_state)[25 := 45],
               rpm_history := (rpm_history steady_detection_state)[25 := 20],
               history_index := 26\<rparr>),
          steady_detection_state\<lparr>
               vibration_history := (vibration_history steady_detection_state)[25 := 6],
               temperature_history := (temperature_history steady_detection_state)[25 := 45],
               rpm_history := (rpm_history steady_detection_state)[25 := 20],
               history_index := 26\<rparr>)"
proof -
  have wf: "wf_detection steady_detection_state"
    by (simp add: wf_detection_def steady_detection_state_def)
  have i: "unat (history_index steady_detection_state) mod HISTORY_SIZE = 25"
    "history_index steady_detection_state + 1 = 26"
    by (simp_all add: steady_detection_state_def HISTORY_SIZE_def)
  show ?thesis
    using assms steady_update
    by (simp add: detect_anomalies_def Let_def store_in_history_ok[OF wf] i steady_reading_def)
qed

lemma published_flags:
  "det_publish_ok env \<Longrightarrow>
   vibration_anomaly (anomalies (evaluate_and_publish env th vib temp rpm_v g1 ds2))
     = vib_anomaly_test vib (if det_thr_ok env then vibration_warning th else 5) ds2"
  "det_publish_ok env \<Longrightarrow>
   temperature_anomaly (anomalies (evaluate_and_publish env th vib temp rpm_v g1 ds2))
     = temp_anomaly_test temp (if det_thr_ok env then temperature_warning th else 70) ds2"
  "det_publish_ok env \<Longrightarrow>
   rpm_anomaly (anomalies (evaluate_and_publish env th vib temp rpm_v g1 ds2))
     = rpm_anomaly_test rpm_v (if det_thr_ok env then rpm_min th else 10)
         (if det_thr_ok env then rpm_max th else 30) ds2"
  by (simp_all add: evaluate_and_publish_def Let_def system_mutex_section_def)

text \<open>
  Claim C8 as stated (an alert on every second cycle on which an anomaly is flagged) fails:
  in the second pass of \<open>vAnomalyTask\<close>, with every mutex obtained and the sensor data queue
  empty, \<open>detect_anomalies\<close> flags a vibration anomaly, and no alert is sent: the alert block
  is inside the branch taken only when a reading was received in the pass.
\<close>

theorem no_alert_without_received_reading:
  "\<not> isl (vAnomalyTask_cycle (anomaly_env_ok 400) init_thresholds
        ((system_state_init 0)\<lparr>sensors := steady_reading\<rparr>, steady_detection_state, idle_kernel,
         odd_pass_locals))
   \<and> an_cycle_count (snd (snd (snd (projr (vAnomalyTask_cycle (anomaly_env_ok 400) init_thresholds
        ((system_state_init 0)\<lparr>sensors := steady_reading\<rparr>, steady_detection_state, idle_kernel,
         odd_pass_locals)))))) mod 2 = 0
   \<and> vibration_anomaly (anomalies (fst (projr (vAnomalyTask_cycle (anomaly_env_ok 400) init_thresholds
        ((system_state_init 0)\<lparr>sensors := steady_reading\<rparr>, steady_detection_state, idle_kernel,
         odd_pass_locals)))))
   \<and> xAnomalyAlertQueue (fst (snd (snd (projr (vAnomalyTask_cycle (anomaly_env_ok 400) init_thresholds
        ((system_state_init 0)\<lparr>sensors := steady_reading\<rparr>, steady_detection_state, idle_kernel,
         odd_pass_locals)))))) = []"
proof -
  have d: "det_read_ok detect_env_ok" by (simp add: detect_env_ok_def)
  have c: "vAnomalyTask_cycle (anomaly_env_ok 400) init_thresholds
        ((system_state_init 0)\<lparr>sensors := steady_reading\<rparr>, steady_detection_state, idle_kernel,
         odd_pass_locals)
     = Inr (evaluate_and_publish detect_env_ok init_thresholds 6 45 20
            (system_mutex_section True (\<lambda>x. x) ((system_state_init 0)\<lparr>sensors := steady_reading\<rparr>))
            (steady_detection_state\<lparr>
               vibration_history := (vibration_history steady_detection_state)[25 := 6],
               temperature_history := (temperature_history steady_detection_state)[25 := 45],
               rpm_history := (rpm_history steady_detection_state)[25 := 20],
               history_index := 26\<rparr>),
          steady_detection_state\<lparr>
               vibration_history := (vibration_history steady_detection_state)[25 := 6],
               temperature_history := (temperature_history steady_detection_state)[25 := 45],
               rpm_history := (rpm_history steady_detection_state)[25 := 20],
               history_index := 26\<rparr>,
          idle_kernel, \<lparr>an_cycle_count = 2, anomaly_ready = True\<rparr>)"
    by (simp add: vAnomalyTask_cycle_def vAnomalyTask_receive_def vAnomalyTask_report_def Let_def
          anomaly_env_ok_def odd_pass_locals_def idle_kernel_def xQueueReceive_def
          steady_detect[OF d])
  show ?thesis
    unfolding c
    by (simp add: published_flags detect_env_ok_def vib_anomaly_test_def init_thresholds_def
          BASELINE_WINDOW_def idle_kernel_def)
qed

lemma receive_items_count:
  "items_processed \<le> fst (receive_items n oks items_processed q g)"
proof (induction n arbitrary: items_processed q g)
  case 0
  then show ?case by simp
next
  case (Suc n)
  show ?case
  proof (cases q)
    case Nil
    then show ?thesis by (simp add: xQueueReceive_def)
  next
    case (Cons item rest)
    with Suc[of "Suc items_processed" rest] show ?thesis
      by (simp add: xQueueReceive_def) (meson Suc_leD)
  qed
qed

lemma receive_items_none:
  "fst (receive_items n oks 0 [] g) = 0"
  by (cases n) (simp_all add: xQueueReceive_def)

lemma receive_items_some:
  "q \<noteq> [] \<Longrightarrow> 0 < fst (receive_items (Suc n) oks 0 q g)"
proof (cases q)
  case Nil
  assume "q \<noteq> []"
  with Nil show ?thesis by simp
next
  case (Cons item rest)
  have "Suc 0 \<le> fst (receive_items n oks (Suc 0) rest
          (system_mutex_section (oks 0) (\<lambda>x. x\<lparr>sensors := item\<rparr>) g))"
    by (rule receive_items_count)
  with Cons show ?thesis by (simp add: xQueueReceive_def)
qed

lemma signal_anomaly_ready_keeps:
  assumes "signal_anomaly_ready ok ds g k loc = (g', k', loc')"
  shows "anomalies g' = anomalies g" and "xAnomalyAlertQueue k' = xAnomalyAlertQueue k"
    and "an_cycle_count loc' = an_cycle_count loc"
  using assms
  by (auto simp: signal_anomaly_ready_def system_mutex_section_def Let_def split: if_splits)

lemma send_anomaly_alert_result:
  assumes "send_anomaly_alert ok now cnt g k = (g', k')"
  shows "anomalies g' = anomalies g"
    and "xAnomalyAlertQueue k' =
      (if cnt mod 2 = 0 \<and> ok \<and> (vibration_anomaly (anomalies g) \<or> temperature_anomaly (anomalies g))
       then (if length (xAnomalyAlertQueue k) < ANOMALY_ALERT_QUEUE_LENGTH
             then xAnomalyAlertQueue k @
                    [\<lparr>severity = (if vibration_anomaly (anomalies g) then 8 else 5),
                      alert_type = (if vibration_anomaly (anomalies g) then 0 else 1),
                      alert_timestamp = now\<rparr>]
             else xAnomalyAlertQueue k)
       else xAnomalyAlertQueue k)"
  using assms
  by (auto simp: send_anomaly_alert_def system_mutex_section_def xQueueSend_def Let_def
       split: if_splits)

lemma vAnomalyTask_receive_result:
  assumes "vAnomalyTask_receive env g k loc = (items_processed, g1, k1, loc1)"
  shows "loc1 = loc\<lparr>an_cycle_count := an_cycle_count loc + 1\<rparr>"
    and "(0 < items_processed) = (xSensorDataQueue k \<noteq> [])"
    and "xAnomalyAlertQueue k1 = xAnomalyAlertQueue k"
    and "xSystemReadyEvents k1 = xSystemReadyEvents k"
proof -
  let ?loc1 = "loc\<lparr>an_cycle_count := an_cycle_count loc + 1\<rparr>"
  let ?n = "if an_cycle_count ?loc1 mod 2 = 0 then 1 else (2::nat)"
  obtain ip q g0 where rc: "receive_items ?n (store_ok env) 0 (xSensorDataQueue k) g = (ip, q, g0)"
    by (metis surj_pair)
  from assms rc have r: "items_processed = ip" "k1 = k\<lparr>xSensorDataQueue := q\<rparr>" "loc1 = ?loc1"
    by (simp_all add: vAnomalyTask_receive_def Let_def)
  have ip: "(0 < ip) = (xSensorDataQueue k \<noteq> [])"
  proof (cases "xSensorDataQueue k = []")
    case True
    with rc receive_items_none[of ?n "store_ok env" g] show ?thesis by simp
  next
    case False
    obtain m where m: "?n = Suc m" by (cases "an_cycle_count ?loc1 mod 2 = 0") simp_all
    from receive_items_some[OF False, of m "store_ok env" g] rc m False show ?thesis by simp
  qed
  from r ip show "loc1 = ?loc1" and "(0 < items_processed) = (xSensorDataQueue k \<noteq> [])"
    and "xAnomalyAlertQueue k1 = xAnomalyAlertQueue k"
    and "xSystemReadyEvents k1 = xSystemReadyEvents k"
    by simp_all
qed

lemma vAnomalyTask_report_alert:
  assumes "vAnomalyTask_report env items_processed ds2 g2 k1 loc1 = (g4, k3, loc2)"
  shows "an_cycle_count loc2 = an_cycle_count loc1"
    and "anomalies g4 = anomalies g2"
    and "xAnomalyAlertQueue k3 =
      (if 0 < items_processed \<and> an_cycle_count loc1 mod 2 = 0 \<and> alert_ok env
          \<and> (vibration_anomaly (anomalies g2) \<or> temperature_anomaly (anomalies g2))
       then (if length (xAnomalyAlertQueue k1) < ANOMALY_ALERT_QUEUE_LENGTH
             then xAnomalyAlertQueue k1 @
                    [\<lparr>severity = (if vibration_anomaly (anomalies g2) then 8 else 5),
                      alert_type = (if vibration_anomaly (anomalies g2) then 0 else 1),
                      alert_timestamp = alert_tick env\<rparr>]
             else xAnomalyAlertQueue k1)
       else xAnomalyAlertQueue k1)"
proof -
  have "an_cycle_count loc2 = an_cycle_count loc1 \<and> anomalies g4 = anomalies g2
    \<and> xAnomalyAlertQueue k3 =
      (if 0 < items_processed \<and> an_cycle_count loc1 mod 2 = 0 \<and> alert_ok env
          \<and> (vibration_anomaly (anomalies g2) \<or> temperature_anomaly (anomalies g2))
       then (if length (xAnomalyAlertQueue k1) < ANOMALY_ALERT_QUEUE_LENGTH
             then xAnomalyAlertQueue k1 @
                    [\<lparr>severity = (if vibration_anomaly (anomalies g2) then 8 else 5),
                      alert_type = (if vibration_anomaly (anomalies g2) then 0 else 1),
                      alert_timestamp = alert_tick env\<rparr>]
             else xAnomalyAlertQueue k1)
       else xAnomalyAlertQueue k1)"
  proof (cases "0 < items_processed")
    case False
    with assms show ?thesis by (simp add: vAnomalyTask_report_def)
  next
    case True
    obtain g3 k2 l2 where sg: "signal_anomaly_ready (ready_stats_ok env) ds2 g2 k1 loc1 = (g3, k2, l2)"
      by (metis surj_pair)
    obtain g5 k4 where sa: "send_anomaly_alert (alert_ok env) (alert_tick env)
        (an_cycle_count l2) g3 k2 = (g5, k4)" by (metis surj_pair)
    from assms True sg sa have r: "g4 = g5" "k3 = k4" "loc2 = l2"
      by (simp_all add: vAnomalyTask_report_def)
    note s1 = signal_anomaly_ready_keeps[OF sg]
    note s2 = send_anomaly_alert_result[OF sa]
    from s1 s2 r True show ?thesis by simp
  qed
  then show "an_cycle_count loc2 = an_cycle_count loc1" and "anomalies g4 = anomalies g2"
    and "xAnomalyAlertQueue k3 =
      (if 0 < items_processed \<and> an_cycle_count loc1 mod 2 = 0 \<and> alert_ok env
          \<and> (vibration_anomaly (anomalies g2) \<or> temperature_anomaly (anomalies g2))
       then (if length (xAnomalyAlertQueue k1) < ANOMALY_ALERT_QUEUE_LENGTH
             then xAnomalyAlertQueue k1 @
                    [\<lparr>severity = (if vibration_anomaly (anomalies g2) then 8 else 5),
                      alert_type = (if vibration_anomaly (anomalies g2) then 0 else 1),
                      alert_timestamp = alert_tick env\<rparr>]
             else xAnomalyAlertQueue k1)
       else xAnomalyAlertQueue k1)"
    by simp_all
qed

text \<open>
  Claim C8, amended. The statement is about the two parts of a pass of \<open>vAnomalyTask\<close> around
  the call of \<open>detect_anomalies\<close>, and holds for whatever shared state \<open>g2\<close> and detection
  state \<open>ds2\<close> the call has left, so in every pass. On a pass with an even \<open>cycle_count\<close> in
  which a reading was received from the sensor data queue and the state mutex is obtained
  for the check, if the vibration or the temperature anomaly flag is set in the shared
  state, one alert is sent with timeout 0, with severity 8 and type 0 when the vibration
  flag is set and severity 5 and type 1 otherwise: it is appended to the alert queue when
  the queue holds fewer than 3 alerts and dropped when it is full. On a pass with an odd
  \<open>cycle_count\<close>, or without a received reading, or in which that take times out, or with
  neither of the two flags set, the alert queue is left as it was.
\<close>

theorem alert_on_even_pass_with_reading:
  assumes rcv: "vAnomalyTask_receive env g k loc = (items_processed, g1, k1, loc1)"
    and rep: "vAnomalyTask_report env items_processed ds2 g2 k1 loc1 = (g4, k3, loc2)"
  shows "an_cycle_count loc2 = an_cycle_count loc + 1
       \<and> (0 < items_processed) = (xSensorDataQueue k \<noteq> [])
       \<and> anomalies g4 = anomalies g2
       \<and> xAnomalyAlertQueue k3 =
           (if an_cycle_count loc2 mod 2 = 0 \<and> xSensorDataQueue k \<noteq> [] \<and> alert_ok env
               \<and> (vibration_anomaly (anomalies g2) \<or> temperature_anomaly (anomalies g2))
            then (if length (xAnomalyAlertQueue k) < ANOMALY_ALERT_QUEUE_LENGTH
                  then xAnomalyAlertQueue k @
                         [\<lparr>severity = (if vibration_anomaly (anomalies g2) then 8 else 5),
                           alert_type = (if vibration_anomaly (anomalies g2) then 0 else 1),
                           alert_timestamp = alert_tick env\<rparr>]
                  else xAnomalyAlertQueue k)
            else xAnomalyAlertQueue k)"
proof -
  note a = vAnomalyTask_receive_result[OF rcv]
  note b = vAnomalyTask_report_alert[OF rep]
  from a(1) have c: "an_cycle_count loc1 = an_cycle_count loc + 1" by simp
  from a(2,3) b c show ?thesis by simp
qed

theorem alert_on_even_pass_with_reading_witness:
  "xAnomalyAlertQueue (fst (snd (snd (projr (vAnomalyTask_cycle (anomaly_env_ok 400) init_thresholds
        (system_state_init 0, steady_detection_state,
         idle_kernel\<lparr>xSensorDataQueue := [steady_reading]\<rparr>, odd_pass_locals))))))
     = [\<lparr>severity = 8, alert_type = 0, alert_timestamp = 400\<rparr>]"
proof -
  have d: "det_read_ok detect_env_ok" by (simp add: detect_env_ok_def)
  let ?ds = "steady_detection_state\<lparr>
               vibration_history := (vibration_history steady_detection_state)[25 := 6],
               temperature_history := (temperature_history steady_detection_state)[25 := 45],
               rpm_history := (rpm_history steady_detection_state)[25 := 20],
               history_index := 26\<rparr>"
  let ?k = "idle_kernel\<lparr>xSensorDataQueue := [steady_reading]\<rparr>"
  let ?g1 = "system_mutex_section True (\<lambda>x. x\<lparr>sensors := steady_reading\<rparr>) (system_state_init 0)"
  let ?g2 = "evaluate_and_publish detect_env_ok init_thresholds 6 45 20
            (system_mutex_section True (\<lambda>x. x) ?g1) ?ds"
  let ?loc1 = "\<lparr>an_cycle_count = 2, anomaly_ready = True\<rparr>"
  have g1: "?g1 = (?g1)\<lparr>sensors := steady_reading\<rparr>"
    by (simp add: system_mutex_section_def Let_def)
  have det: "detect_anomalies detect_env_ok init_thresholds ?g1 steady_detection_state =
     Inr (?g2, ?ds)"
    using steady_detect[OF d, of init_thresholds ?g1] g1 by simp
  have rcv: "vAnomalyTask_receive (anomaly_env_ok 400) (system_state_init 0) ?k odd_pass_locals
      = (1, ?g1, idle_kernel, ?loc1)"
    by (simp add: vAnomalyTask_receive_def Let_def anomaly_env_ok_def odd_pass_locals_def
          idle_kernel_def xQueueReceive_def)
  obtain g4 k3 loc2 where rep: "vAnomalyTask_report (anomaly_env_ok 400) 1 ?ds ?g2 idle_kernel ?loc1
      = (g4, k3, loc2)" by (metis surj_pair)
  have fl: "vibration_anomaly (anomalies ?g2)"
    by (simp add: published_flags detect_env_ok_def vib_anomaly_test_def init_thresholds_def
          BASELINE_WINDOW_def)
  have q: "xAnomalyAlertQueue k3 = [\<lparr>severity = 8, alert_type = 0, alert_timestamp = 400\<rparr>]"
    using alert_on_even_pass_with_reading[OF rcv rep] fl
    by (simp add: odd_pass_locals_def anomaly_env_ok_def idle_kernel_def
          ANOMALY_ALERT_QUEUE_LENGTH_def)
  have "vAnomalyTask_cycle (anomaly_env_ok 400) init_thresholds
        (system_state_init 0, steady_detection_state, ?k, odd_pass_locals) = Inr (g4, ?ds, k3, loc2)"
    using rcv det rep by (simp add: vAnomalyTask_cycle_def anomaly_env_ok_def)
  with q show ?thesis by simp
qed

subsection \<open>The stack monitor\<close>

lemma check_task_stack_cases:
  "check_task_stack now name free usage t gs =
     (let t' = t\<lparr>current_high_water := free, usage_percent := usage, last_check_time := now,
                  minimum_high_water := (if free < minimum_high_water t then free else minimum_high_water t),
                  peak_usage_percent := (if usage > peak_usage_percent t then usage else peak_usage_percent t)\<rparr>
      in if usage \<ge> 85 \<and> \<not> warning_issued t then
           (t'\<lparr>warning_issued := True\<rparr>,
            gs\<lparr>critical_usage_events := critical_usage_events gs + 1,
                warnings_issued := warnings_issued gs + 1,
                last_warning_time := now, last_warning_task := copy_name name\<rparr>,
            [STACK_CRITICAL name usage])
         else if usage \<ge> 70 \<and> \<not> warning_issued t then
           (t'\<lparr>warning_issued := True\<rparr>,
            gs\<lparr>high_usage_events := high_usage_events gs + 1,
                warnings_issued := warnings_issued gs + 1,
                last_warning_time := now, last_warning_task := copy_name name\<rparr>,
            [STACK_WARNING name usage])
         else if usage < 60 \<and> warning_issued t then
           (t'\<lparr>warning_issued := False\<rparr>, gs, [STACK_RECOVERY name usage])
         else (t', gs, []))"
proof -
  have a: "\<not> (85 \<le> usage \<and> usage < 60)" "\<not> (70 \<le> usage \<and> usage < 60)"
    by (auto simp: word_le_nat_alt word_less_nat_alt)
  show ?thesis
    using a by (auto simp: check_task_stack_def Let_def)
qed

lemma find_task_monitor_bound:
  "find_task_monitor name ts i = Some j \<Longrightarrow> i \<le> j \<and> j < i + length ts"
proof (induction ts arbitrary: i)
  case Nil
  then show ?case by simp
next
  case (Cons t ts)
  show ?case
  proof (cases "strncmp_eq (task_name t) name MAX_TASK_NAME_LEN")
    case True
    with Cons.prems show ?thesis by simp
  next
    case False
    with Cons.prems have "find_task_monitor name ts (Suc i) = Some j" by simp
    from Cons.IH[OF this] show ?thesis by simp
  qed
qed

lemma find_task_monitor_cong:
  "length ts = length ts' \<Longrightarrow> (\<And>n. n < length ts \<Longrightarrow> task_name (ts' ! n) = task_name (ts ! n))
     \<Longrightarrow> find_task_monitor name ts' i = find_task_monitor name ts i"
proof (induction ts arbitrary: ts' i)
  case Nil
  then show ?case by simp
next
  case (Cons t ts)
  then obtain t' ts2 where ts': "ts' = t' # ts2" by (cases ts') auto
  from Cons.prems(2)[of 0] ts' have h: "task_name t' = task_name t" by simp
  have "find_task_monitor name ts2 (Suc i) = find_task_monitor name ts (Suc i)"
  proof (rule Cons.IH)
    show "length ts = length ts2" using Cons.prems(1) ts' by simp
    fix n assume "n < length ts"
    with Cons.prems(2)[of "Suc n"] ts' show "task_name (ts2 ! n) = task_name (ts ! n)" by simp
  qed
  with h ts' show ?case by simp
qed

lemma check_task_stack_name:
  "check_task_stack now name free usage t gs = (t', gs', out) \<Longrightarrow> task_name t' = task_name t"
  by (auto simp: check_task_stack_cases Let_def split: if_splits)

lemma update_tracked:
  assumes f: "find_task_monitor name (take (unat (monitored_count sys)) (tasks sys)) 0 = Some i"
    and c: "check_task_stack now name free usage (tasks sys ! i)
              ((global_stats sys)\<lparr>proactive_checks := proactive_checks (global_stats sys) + 1\<rparr>)
            = (t', gs', out)"
  shows "update_stack_monitoring now name sz free usage sys =
           (sys\<lparr>tasks := (tasks sys)[i := t'], global_stats := gs'\<rparr>, out)"
  using f c by (simp add: update_stack_monitoring_def Let_def)

lemma monitor_of_after_update:
  assumes f: "find_task_monitor name (take (unat (monitored_count sys)) (tasks sys)) 0 = Some i"
    and n: "task_name t' = task_name (tasks sys ! i)"
  shows "monitor_of name (sys\<lparr>tasks := (tasks sys)[i := t'], global_stats := gs'\<rparr>) = Some t'"
proof -
  let ?m = "unat (monitored_count sys)"
  from find_task_monitor_bound[OF f] have i: "i < length (take ?m (tasks sys))" by simp
  then have il: "i < length (tasks sys)" and im: "i < ?m" by simp_all
  have "find_task_monitor name (take ?m ((tasks sys)[i := t'])) 0
      = find_task_monitor name (take ?m (tasks sys)) 0"
  proof (rule find_task_monitor_cong)
    show "length (take ?m (tasks sys)) = length (take ?m ((tasks sys)[i := t']))" by simp
    fix k assume "k < length (take ?m (tasks sys))"
    then show "task_name (take ?m ((tasks sys)[i := t']) ! k) = task_name (take ?m (tasks sys) ! k)"
      using n by (cases "k = i") (simp_all add: nth_list_update)
  qed
  with f il show ?thesis by (simp add: monitor_of_def)
qed

lemma tracked_update_effect:
  assumes tr: "monitor_of name sys = Some t"
    and up: "update_stack_monitoring now name sz free usage sys = (sys', out)"
  shows "\<exists>t'. monitor_of name sys' = Some t'
     \<and> warning_issued t' =
         (if 70 \<le> usage \<and> \<not> warning_issued t then True
          else if usage < 60 then False else warning_issued t)
     \<and> warnings_issued (global_stats sys') =
         warnings_issued (global_stats sys) + (if 70 \<le> usage \<and> \<not> warning_issued t then 1 else 0)
     \<and> critical_usage_events (global_stats sys') =
         critical_usage_events (global_stats sys)
           + (if 85 \<le> usage \<and> \<not> warning_issued t then 1 else 0)
     \<and> high_usage_events (global_stats sys') =
         high_usage_events (global_stats sys)
           + (if 70 \<le> usage \<and> usage < 85 \<and> \<not> warning_issued t then 1 else 0)
     \<and> out =
         (if 85 \<le> usage \<and> \<not> warning_issued t then [STACK_CRITICAL name usage]
          else if 70 \<le> usage \<and> \<not> warning_issued t then [STACK_WARNING name usage]
          else if usage < 60 \<and> warning_issued t then [STACK_RECOVERY name usage]
          else [])"
proof -
  from tr obtain i where f: "find_task_monitor name (take (unat (monitored_count sys)) (tasks sys)) 0 = Some i"
    and t: "t = tasks sys ! i"
    by (auto simp: monitor_of_def split: option.splits)
  let ?gs = "(global_stats sys)\<lparr>proactive_checks := proactive_checks (global_stats sys) + 1\<rparr>"
  obtain t' gs' out' where c: "check_task_stack now name free usage (tasks sys ! i) ?gs = (t', gs', out')"
    by (metis surj_pair)
  from update_tracked[OF f c, of sz] up
  have s': "sys' = sys\<lparr>tasks := (tasks sys)[i := t'], global_stats := gs'\<rparr>" and o: "out = out'"
    by simp_all
  have m: "monitor_of name sys' = Some t'"
    unfolding s' by (rule monitor_of_after_update[OF f check_task_stack_name[OF c]])
  have w: "\<not> (85 \<le> usage \<and> usage < 60)" "\<not> (70 \<le> usage \<and> usage < 60)" "85 \<le> usage \<Longrightarrow> 70 \<le> usage"
    "\<not> 85 \<le> usage \<Longrightarrow> usage < 85"
    by (auto simp: word_le_nat_alt word_less_nat_alt)
  from c t w have "warning_issued t' =
         (if 70 \<le> usage \<and> \<not> warning_issued t then True
          else if usage < 60 then False else warning_issued t)"
    and "warnings_issued gs' =
         warnings_issued (global_stats sys) + (if 70 \<le> usage \<and> \<not> warning_issued t then 1 else 0)"
    and "critical_usage_events gs' =
         critical_usage_events (global_stats sys)
           + (if 85 \<le> usage \<and> \<not> warning_issued t then 1 else 0)"
    and "high_usage_events gs' =
         high_usage_events (global_stats sys)
           + (if 70 \<le> usage \<and> usage < 85 \<and> \<not> warning_issued t then 1 else 0)"
    and "out' =
         (if 85 \<le> usage \<and> \<not> warning_issued t then [STACK_CRITICAL name usage]
          else if 70 \<le> usage \<and> \<not> warning_issued t then [STACK_WARNING name usage]
          else if usage < 60 \<and> warning_issued t then [STACK_RECOVERY name usage]
          else [])"
    by (auto simp: check_task_stack_cases Let_def split: if_splits)
  with m s' o show ?thesis by simp
qed

text \<open>
  What a check of a tracked task does. For a tracked task there is one latch. A check at
  70 percent or more with the latch clear sets the latch, counts one warning and counts one event: a critical
  one when the usage is 85 or more, a high usage one otherwise. With the latch set nothing
  is counted, whatever the usage, so a rise from 75 to 90 percent counts no critical
  event. A check below 60 percent clears the latch and prints the recovery line when the
  latch was set.
\<close>

theorem stack_warning_single_latch:
  assumes tr: "monitor_of name sys = Some t"
    and up: "update_stack_monitoring now name sz free usage sys = (sys', out)"
  shows "\<exists>t'. monitor_of name sys' = Some t'
     \<and> warning_issued t' =
         (if 70 \<le> usage \<and> \<not> warning_issued t then True
          else if usage < 60 then False else warning_issued t)
     \<and> warnings_issued (global_stats sys') =
         warnings_issued (global_stats sys) + (if 70 \<le> usage \<and> \<not> warning_issued t then 1 else 0)
     \<and> critical_usage_events (global_stats sys') =
         critical_usage_events (global_stats sys)
           + (if 85 \<le> usage \<and> \<not> warning_issued t then 1 else 0)
     \<and> high_usage_events (global_stats sys') =
         high_usage_events (global_stats sys)
           + (if 70 \<le> usage \<and> usage < 85 \<and> \<not> warning_issued t then 1 else 0)
     \<and> out =
         (if 85 \<le> usage \<and> \<not> warning_issued t then [STACK_CRITICAL name usage]
          else if 70 \<le> usage \<and> \<not> warning_issued t then [STACK_WARNING name usage]
          else if usage < 60 \<and> warning_issued t then [STACK_RECOVERY name usage]
          else [])"
  using tr up by (rule tracked_update_effect)

lemma tracked_entry:
  shows "\<exists>t. monitor_of ''NetworkTask'' tracked_stack_monitoring = Some t \<and> \<not> warning_issued t"
  and "warnings_issued (global_stats tracked_stack_monitoring) = 0"
  and "critical_usage_events (global_stats tracked_stack_monitoring) = 0"
  and "high_usage_events (global_stats tracked_stack_monitoring) = 0"
  by (simp_all add: tracked_stack_monitoring_def init_stack_monitoring_def system_state_init_def
        update_stack_monitoring_def check_task_stack_cases monitor_of_def Let_def
        MAX_STACK_MONITORED_TASKS_def zero_monitor_def copy_name_def MAX_TASK_NAME_LEN_def
        strncmp_eq_def first_sample_window)

text \<open>
  The first check of a task that is not in the table yet, when the table has room: the
  entry is created with its latch clear, so a usage of 85 percent or more counts a
  critical event, and one of 70 to 84 percent a high usage event.
\<close>

lemma first_check_creates_entry:
  assumes nf: "monitor_of name sys = None"
    and room: "monitored_count sys < MAX_STACK_MONITORED_TASKS"
    and len: "length (tasks sys) = unat MAX_STACK_MONITORED_TASKS"
    and up: "update_stack_monitoring now name sz free usage sys = (sys', out)"
  shows "out =
         (if 85 \<le> usage then [STACK_CRITICAL name usage]
          else if 70 \<le> usage then [STACK_WARNING name usage] else [])
     \<and> critical_usage_events (global_stats sys') =
         critical_usage_events (global_stats sys) + (if 85 \<le> usage then 1 else 0)
     \<and> high_usage_events (global_stats sys') =
         high_usage_events (global_stats sys) + (if 70 \<le> usage \<and> usage < 85 then 1 else 0)
     \<and> warnings_issued (global_stats sys') =
         warnings_issued (global_stats sys) + (if 70 \<le> usage then 1 else 0)
     \<and> monitored_count sys' = monitored_count sys + 1
     \<and> warning_issued (tasks sys' ! unat (monitored_count sys)) = (70 \<le> usage)"
proof -
  from nf have f: "find_task_monitor name (take (unat (monitored_count sys)) (tasks sys)) 0 = None"
    by (simp add: monitor_of_def split: option.splits)
  from room len have i: "unat (monitored_count sys) < length (tasks sys)"
    by (simp add: word_less_nat_alt)
  have w: "\<not> (85 \<le> usage \<and> usage < 60)" "\<not> (70 \<le> usage \<and> usage < 60)" "85 \<le> usage \<Longrightarrow> 70 \<le> usage"
    "\<not> 85 \<le> usage \<Longrightarrow> usage < 85"
    by (auto simp: word_le_nat_alt word_less_nat_alt)
  from up f room i w show ?thesis
    by (auto simp: update_stack_monitoring_def check_task_stack_cases Let_def split: if_splits)
qed

lemma first_check_at_90_counts_critical:
  "snd (update_stack_monitoring 100 ''NetworkTask'' 512 51 90 init_stack_monitoring)
     = [STACK_CRITICAL ''NetworkTask'' 90]
   \<and> critical_usage_events (global_stats (fst (update_stack_monitoring 100 ''NetworkTask'' 512 51 90
        init_stack_monitoring))) = 1"
  by (simp add: init_stack_monitoring_def system_state_init_def
        update_stack_monitoring_def check_task_stack_cases Let_def
        MAX_STACK_MONITORED_TASKS_def zero_monitor_def copy_name_def MAX_TASK_NAME_LEN_def)

text \<open>
  Claim C9 (an escalation to critical is counted at 85 percent) fails on the code: a
  tracked task checked at 75 percent and then at 90 percent gets the warning at 75, and the
  check at 90 counts no critical event and prints nothing, because the latch set at 75
  guards the critical branch as well. \<open>critical_usage_events\<close> is documented in
  \<open>system_state.h\<close> as the number of times the stack exceeded 85 percent, and a first check
  at 90 percent does count one.
\<close>

theorem no_critical_event_after_warning:
  "snd (update_stack_monitoring 200 ''NetworkTask'' 512 128 75 tracked_stack_monitoring)
     = [STACK_WARNING ''NetworkTask'' 75]
   \<and> snd (update_stack_monitoring 300 ''NetworkTask'' 512 51 90
            (fst (update_stack_monitoring 200 ''NetworkTask'' 512 128 75 tracked_stack_monitoring)))
     = []
   \<and> critical_usage_events (global_stats (fst (update_stack_monitoring 300 ''NetworkTask'' 512 51 90
            (fst (update_stack_monitoring 200 ''NetworkTask'' 512 128 75 tracked_stack_monitoring)))))
     = 0"
proof -
  obtain sys1 out1 where u1: "update_stack_monitoring 200 ''NetworkTask'' 512 128 75
      tracked_stack_monitoring = (sys1, out1)" by (metis surj_pair)
  obtain sys2 out2 where u2: "update_stack_monitoring 300 ''NetworkTask'' 512 51 90 sys1 = (sys2, out2)"
    by (metis surj_pair)
  from tracked_entry(1) obtain t0 where t0: "monitor_of ''NetworkTask'' tracked_stack_monitoring = Some t0"
    and w0: "\<not> warning_issued t0" by blast
  from tracked_update_effect[OF t0 u1] w0 tracked_entry(3)
  obtain t1 where t1: "monitor_of ''NetworkTask'' sys1 = Some t1" and w1: "warning_issued t1"
    and o1: "out1 = [STACK_WARNING ''NetworkTask'' 75]"
    and c1: "critical_usage_events (global_stats sys1) = 0"
    by auto
  from tracked_update_effect[OF t1 u2] w1 c1
  have "out2 = []" "critical_usage_events (global_stats sys2) = 0" by auto
  with o1 show ?thesis by (simp add: u1 u2)
qed

theorem stack_warning_single_latch_witness:
  "snd (update_stack_monitoring 200 ''NetworkTask'' 512 128 75 tracked_stack_monitoring)
     = [STACK_WARNING ''NetworkTask'' 75]
   \<and> snd (update_stack_monitoring 300 ''NetworkTask'' 512 230 55
            (fst (update_stack_monitoring 200 ''NetworkTask'' 512 128 75 tracked_stack_monitoring)))
     = [STACK_RECOVERY ''NetworkTask'' 55]
   \<and> warnings_issued (global_stats (fst (update_stack_monitoring 300 ''NetworkTask'' 512 230 55
            (fst (update_stack_monitoring 200 ''NetworkTask'' 512 128 75 tracked_stack_monitoring)))))
     = 1
   \<and> snd (update_stack_monitoring 400 ''NetworkTask'' 512 128 75
        (fst (update_stack_monitoring 300 ''NetworkTask'' 512 179 65
            (fst (update_stack_monitoring 200 ''NetworkTask'' 512 128 75 tracked_stack_monitoring)))))
     = []"
proof -
  obtain sys1 out1 where u1: "update_stack_monitoring 200 ''NetworkTask'' 512 128 75
      tracked_stack_monitoring = (sys1, out1)" by (metis surj_pair)
  obtain sys2 out2 where u2: "update_stack_monitoring 300 ''NetworkTask'' 512 230 55 sys1 = (sys2, out2)"
    by (metis surj_pair)
  obtain sys3 out3 where u3: "update_stack_monitoring 300 ''NetworkTask'' 512 179 65 sys1 = (sys3, out3)"
    by (metis surj_pair)
  obtain sys4 out4 where u4: "update_stack_monitoring 400 ''NetworkTask'' 512 128 75 sys3 = (sys4, out4)"
    by (metis surj_pair)
  from tracked_entry(1) obtain t0 where t0: "monitor_of ''NetworkTask'' tracked_stack_monitoring = Some t0"
    and w0: "\<not> warning_issued t0" by blast
  from stack_warning_single_latch[OF t0 u1] w0 tracked_entry(2)
  obtain t1 where t1: "monitor_of ''NetworkTask'' sys1 = Some t1" and w1: "warning_issued t1"
    and o1: "out1 = [STACK_WARNING ''NetworkTask'' 75]"
    and c1: "warnings_issued (global_stats sys1) = 1"
    by auto
  from stack_warning_single_latch[OF t1 u2] w1 c1
  have r2: "out2 = [STACK_RECOVERY ''NetworkTask'' 55]" "warnings_issued (global_stats sys2) = 1"
    by auto
  from stack_warning_single_latch[OF t1 u3] w1
  obtain t3 where t3: "monitor_of ''NetworkTask'' sys3 = Some t3" and w3: "warning_issued t3"
    by auto
  from stack_warning_single_latch[OF t3 u4] w3 have "out4 = []" by auto
  with o1 r2 show ?thesis by (simp add: u1 u2 u3 u4)
qed

subsection \<open>The network task\<close>

lemma track_heap_free_counters:
  "active_allocations (track_heap_free f m) = active_allocations m"
  "allocation_failures (track_heap_free f m) = allocation_failures m"
  by (simp_all add: track_heap_free_def Let_def)

lemma update_memory_stats_alloc_counters:
  "active_allocations (memory_stats (update_memory_stats_alloc ok f sz g)) =
     active_allocations (memory_stats g) + (if ok then 1 else 0)"
  "allocation_failures (memory_stats (update_memory_stats_alloc ok f sz g)) =
     allocation_failures (memory_stats g)"
  "network_connected (update_memory_stats_alloc ok f sz g) = network_connected g"
  by (simp_all add: update_memory_stats_alloc_def system_mutex_section_def Let_def
        track_heap_free_counters)

lemma update_memory_stats_free_counters:
  "active_allocations (memory_stats (update_memory_stats_free ok f sz g)) =
     active_allocations (memory_stats g) - (if ok then 1 else 0)"
  "allocation_failures (memory_stats (update_memory_stats_free ok f sz g)) =
     allocation_failures (memory_stats g)"
  by (simp_all add: update_memory_stats_free_def system_mutex_section_def Let_def
        track_heap_free_counters)

lemma update_memory_stats_failure_counters:
  "active_allocations (memory_stats (update_memory_stats_failure ok g)) =
     active_allocations (memory_stats g)"
  "allocation_failures (memory_stats (update_memory_stats_failure ok g)) =
     allocation_failures (memory_stats g) + (if ok then 1 else 0)"
  by (simp_all add: update_memory_stats_failure_def system_mutex_section_def Let_def)

lemma packet_size_roundtrip:
  "ucast (ucast (packet_size_of type) :: uint32_t) = packet_size_of type"
  by (cases type) (simp_all add: packet_size_of_def sizeof_PacketBuffer_t_def
        PACKET_HEARTBEAT_SIZE_def PACKET_SENSOR_SIZE_def PACKET_ANOMALY_SIZE_def)

lemma transmit_packet_keeps:
  assumes "transmit_packet r ok now sz g k ns = (success, g', k', ns')"
  shows "memory_stats g' = memory_stats g" and "heap_blocks k' = heap_blocks k"
  using assms
  by (auto simp: transmit_packet_def system_mutex_section_def Let_def split: if_splits)

lemma record_preemption_memory:
  "memory_stats (record_preemption n p q r g) = memory_stats g"
  by (simp add: record_preemption_def Let_def)

lemma check_network_reconnect_result:
  assumes "check_network_reconnect read_ok r write_ok g k = (g', k')"
  shows "memory_stats g' = memory_stats g" and "heap_blocks k' = heap_blocks k"
    and "\<not> network_connected g \<Longrightarrow> network_connected g' = (r mod 100 < 50 \<and> write_ok)"
  using assms
  by (auto simp: check_network_reconnect_def system_mutex_section_def Let_def split: if_splits)

lemma send_packet_pass_accounting:
  assumes "send_packet_pass env ap cnt g k ns = (g', k', ns')"
  shows "heap_blocks k' = heap_blocks k \<and>
      active_allocations (memory_stats g') =
           active_allocations (memory_stats g)
             + (if malloc_ok env \<and> alloc_stats_ok env then 1 else 0)
             - (if malloc_ok env \<and> free_stats_ok env then 1 else 0) \<and>
      allocation_failures (memory_stats g') =
           allocation_failures (memory_stats g)
             + (if \<not> malloc_ok env \<and> alloc_stats_ok env then 1 else 0) \<and>
      (\<not> malloc_ok env \<longrightarrow> ns' = ns)"
proof (cases "malloc_ok env")
  case False
  with assms show ?thesis
    by (auto simp: send_packet_pass_def allocate_packet_def Let_def
          update_memory_stats_failure_counters)
next
  case True
  let ?type = "if cnt mod 10 = 0 then PACKET_TYPE_HEARTBEAT
             else if emergency_stop g \<or> health_score (anomalies g) < 50 \<or> ap > 0
             then PACKET_TYPE_ANOMALY_REPORT
             else PACKET_TYPE_SENSOR_DATA"
  let ?g1 = "update_memory_stats_alloc (alloc_stats_ok env) (free_after_alloc env)
               (packet_size_of ?type) g"
  let ?k1 = "k\<lparr>heap_blocks := packet_size_of ?type # heap_blocks k\<rparr>"
  obtain s g2 k2 ns1 where tp: "transmit_packet (rand_transmit env) (disconnect_ok env)
      (transmit_tick env) (content_size env) ?g1 ?k1 ns = (s, g2, k2, ns1)" by (metis surj_pair)
  note tk = transmit_packet_keeps[OF tp]
  let ?g3 = "update_memory_stats_free (free_stats_ok env) (free_after_free env)
               (packet_size_of ?type) g2"
  have m3: "active_allocations (memory_stats ?g3) =
      active_allocations (memory_stats g) + (if alloc_stats_ok env then 1 else 0)
        - (if free_stats_ok env then 1 else 0)"
    and f3: "allocation_failures (memory_stats ?g3) = allocation_failures (memory_stats g)"
    by (simp_all add: update_memory_stats_free_counters tk update_memory_stats_alloc_counters)
  from assms True tp
  have "heap_blocks k' = heap_blocks k \<and> memory_stats g' = memory_stats ?g3"
    by (auto simp: send_packet_pass_def allocate_packet_def free_packet_def Let_def
          packet_size_roundtrip tk record_preemption_memory split: if_splits)
  with m3 f3 True show ?thesis by simp
qed

text \<open>
  Claim C10, amended. In every pass of \<open>vNetworkTask\<close> the heap holds the same blocks at the
  end as at the start: a packet that was allocated is freed in the pass. The counter of
  active allocations changes by the accounting of the allocation (plus 1, when its take
  succeeds) and of the free (minus 1, when its take succeeds), so it returns to its value
  when both takes have the same outcome. When \<open>pvPortMalloc\<close> fails nothing is
  transmitted, the counter of active allocations is unchanged, and the counter of
  allocation failures is incremented when the pass reached the allocation and the take of
  the accounting succeeded.
\<close>

theorem packet_accounting_balanced:
  assumes cyc: "vNetworkTask_cycle env (g, k, ns, loc) = (g', k', ns', loc')"
  shows "heap_blocks k' = heap_blocks k
     \<and> active_allocations (memory_stats g') =
         active_allocations (memory_stats g)
           + (if reaches_allocation env g \<and> malloc_ok env \<and> alloc_stats_ok env then 1 else 0)
           - (if reaches_allocation env g \<and> malloc_ok env \<and> free_stats_ok env then 1 else 0)
     \<and> (alloc_stats_ok env = free_stats_ok env \<longrightarrow>
          active_allocations (memory_stats g') = active_allocations (memory_stats g))
     \<and> (\<not> malloc_ok env \<longrightarrow>
          packets_sent ns' = packets_sent ns \<and> packets_failed ns' = packets_failed ns
          \<and> bytes_sent ns' = bytes_sent ns
          \<and> allocation_failures (memory_stats g') =
              allocation_failures (memory_stats g)
                + (if reaches_allocation env g \<and> alloc_stats_ok env then 1 else 0))"
proof -
  let ?q = "xQueueReceive (xAnomalyAlertQueue k)"
  obtain ap k1 ns1 where rcv: "(case ?q of None \<Rightarrow> (0::nat, k, ns)
        | Some (alert, rest) \<Rightarrow> (1, k\<lparr>xAnomalyAlertQueue := rest\<rparr>,
             ns\<lparr>anomaly_alerts_sent := anomaly_alerts_sent ns + 1\<rparr>)) = (ap, k1, ns1)"
    by (metis surj_pair)
  then have k1: "heap_blocks k1 = heap_blocks k" and n1: "packets_sent ns1 = packets_sent ns"
    "packets_failed ns1 = packets_failed ns" "bytes_sent ns1 = bytes_sent ns"
    by (auto split: option.splits)
  obtain g1 k2 where rc: "(if \<not> network_connected g
             then check_network_reconnect (reconnect_read_ok env) (rand_reconnect env)
                    (reconnect_write_ok env) g k1
             else (g, k1)) = (g1, k2)" by (metis surj_pair)
  have g1: "memory_stats g1 = memory_stats g" and k2: "heap_blocks k2 = heap_blocks k"
    and c1: "network_connected g1 = reaches_allocation env g"
  proof -
    show "memory_stats g1 = memory_stats g"
      using rc check_network_reconnect_result(1) by (auto split: if_splits)
    show "heap_blocks k2 = heap_blocks k"
      using rc k1 check_network_reconnect_result(2) by (auto split: if_splits)
    show "network_connected g1 = reaches_allocation env g"
    proof (cases "network_connected g")
      case True
      with rc show ?thesis by (simp add: reaches_allocation_def)
    next
      case False
      with rc have "check_network_reconnect (reconnect_read_ok env) (rand_reconnect env)
                    (reconnect_write_ok env) g k1 = (g1, k2)" by simp
      from check_network_reconnect_result(3)[OF this False] False
      show ?thesis by (simp add: reaches_allocation_def)
    qed
  qed
  show ?thesis
  proof (cases "network_connected g1")
    case False
    with cyc rcv rc have "g' = g1" "k' = k2" "ns' = ns1"
      by (simp_all add: vNetworkTask_cycle_def Let_def)
    with False g1 k2 c1 n1 show ?thesis by simp
  next
    case True
    obtain g2 k3 ns2 where sp: "send_packet_pass env ap (nw_cycle_count loc + 1) g1 k2 ns1
        = (g2, k3, ns2)" by (metis surj_pair)
    with cyc rcv rc True have r: "g' = g2" "k' = k3" "ns' = ns2"
      by (simp_all add: vNetworkTask_cycle_def Let_def)
    from send_packet_pass_accounting[OF sp] True g1 k2 c1 n1 r
    show ?thesis by auto
  qed
qed

text \<open>
  Claim C10 as stated (the counter of active allocations always returns to its value)
  fails: in a first pass in which the packet is allocated and freed, the take of the
  accounting of the allocation succeeds and the take of the accounting of the free times
  out, the heap is back to its blocks and the counter is left at 1.
\<close>

theorem free_accounting_timeout_leaves_counter:
  "active_allocations (memory_stats (fst network_start)) = 0
   \<and> active_allocations (memory_stats (fst (vNetworkTask_cycle
        (network_env_ok\<lparr>free_stats_ok := False\<rparr>) network_start))) = 1
   \<and> heap_blocks (fst (snd (vNetworkTask_cycle
        (network_env_ok\<lparr>free_stats_ok := False\<rparr>) network_start))) = []"
  by (simp add: network_start_def network_env_ok_def vNetworkTask_cycle_def send_packet_pass_def
        allocate_packet_def free_packet_def transmit_packet_def xQueueReceive_def idle_kernel_def
        system_state_init_def init_network_stats_def Let_def packet_size_roundtrip
        update_memory_stats_alloc_counters update_memory_stats_free_counters
        record_preemption_memory)

theorem packet_accounting_balanced_witness:
  "active_allocations (memory_stats (fst (vNetworkTask_cycle network_env_ok network_start))) = 0
   \<and> heap_blocks (fst (snd (vNetworkTask_cycle network_env_ok network_start))) = []
   \<and> allocation_failures (memory_stats (fst (vNetworkTask_cycle
        (network_env_ok\<lparr>malloc_ok := False\<rparr>) network_start))) = 1
   \<and> packets_sent (fst (snd (snd (vNetworkTask_cycle
        (network_env_ok\<lparr>malloc_ok := False\<rparr>) network_start)))) = 0"
proof -
  obtain g1 k1 ns1 loc1 where c1: "vNetworkTask_cycle network_env_ok
      (system_state_init 0, idle_kernel, init_network_stats, \<lparr>nw_cycle_count = 0\<rparr>)
      = (g1, k1, ns1, loc1)" by (metis surj_pair)
  obtain g2 k2 ns2 loc2 where c2: "vNetworkTask_cycle (network_env_ok\<lparr>malloc_ok := False\<rparr>)
      (system_state_init 0, idle_kernel, init_network_stats, \<lparr>nw_cycle_count = 0\<rparr>)
      = (g2, k2, ns2, loc2)" by (metis surj_pair)
  have r: "reaches_allocation network_env_ok (system_state_init 0)"
    "reaches_allocation (network_env_ok\<lparr>malloc_ok := False\<rparr>) (system_state_init 0)"
    by (simp_all add: reaches_allocation_def system_state_init_def)
  from packet_accounting_balanced[OF c1] r(1)
  have a: "active_allocations (memory_stats g1) = 0" "heap_blocks k1 = []"
    by (simp_all add: network_env_ok_def system_state_init_def idle_kernel_def)
  from packet_accounting_balanced[OF c2] r(2)
  have b: "allocation_failures (memory_stats g2) = 1" "packets_sent ns2 = 0"
    by (simp_all add: network_env_ok_def system_state_init_def init_network_stats_def)
  from a b show ?thesis by (simp add: network_start_def c1 c2)
qed

subsection \<open>The sensor task and the readiness bits\<close>

lemma process_isr_sample_stop:
  assumes "process_isr_sample now stop_ok stats_ok d (ml, bv, g) = (ml', bv', g')"
  shows "emergency_stop g' = (emergency_stop g \<or> (isr_vibration d > 80 \<and> stop_ok))"
  using assms by (auto simp: process_isr_sample_def system_mutex_section_def Let_def split: if_splits)

lemma drain_isr_queue_stop:
  "drain_isr_queue env n ds (ml, bv, g) = (n', ml', bv', g') \<Longrightarrow>
   emergency_stop g' =
     (emergency_stop g \<or> (\<exists>i < length ds. isr_vibration (ds ! i) > 80 \<and> isr_stop_ok env (n + i)))"
proof (induction ds arbitrary: n ml bv g)
  case Nil
  then show ?case by simp
next
  case (Cons d ds)
  obtain ml1 bv1 g1 where p: "process_isr_sample (isr_tick env n) (isr_stop_ok env n)
      (isr_stats_ok env n) d (ml, bv, g) = (ml1, bv1, g1)" by (metis surj_pair)
  with Cons.prems have "drain_isr_queue env (Suc n) ds (ml1, bv1, g1) = (n', ml', bv', g')" by simp
  from Cons.IH[OF this] process_isr_sample_stop[OF p]
  have "emergency_stop g' = (emergency_stop g \<or> (isr_vibration d > 80 \<and> isr_stop_ok env n)
      \<or> (\<exists>i < length ds. isr_vibration (ds ! i) > 80 \<and> isr_stop_ok env (Suc n + i)))" by simp
  also have "\<dots> = (emergency_stop g
      \<or> (\<exists>i < length (d # ds). isr_vibration ((d # ds) ! i) > 80 \<and> isr_stop_ok env (n + i)))"
  proof -
    have "(\<exists>i < length (d # ds). isr_vibration ((d # ds) ! i) > 80 \<and> isr_stop_ok env (n + i))
        = ((isr_vibration d > 80 \<and> isr_stop_ok env n)
           \<or> (\<exists>i < length ds. isr_vibration (ds ! i) > 80 \<and> isr_stop_ok env (Suc n + i)))"
      (is "?L = ?R")
    proof
      assume ?L
      then obtain i where i: "i < length (d # ds)" "isr_vibration ((d # ds) ! i) > 80"
        "isr_stop_ok env (n + i)" by blast
      show ?R
      proof (cases i)
        case 0
        with i show ?thesis by simp
      next
        case (Suc j)
        with i have "j < length ds \<and> isr_vibration (ds ! j) > 80 \<and> isr_stop_ok env (Suc n + j)"
          by simp
        then show ?thesis by blast
      qed
    next
      assume ?R
      then show ?L
      proof
        assume "isr_vibration d > 80 \<and> isr_stop_ok env n"
        then have "0 < length (d # ds) \<and> isr_vibration ((d # ds) ! 0) > 80 \<and> isr_stop_ok env (n + 0)"
          by simp
        then show ?L by blast
      next
        assume "\<exists>i < length ds. isr_vibration (ds ! i) > 80 \<and> isr_stop_ok env (Suc n + i)"
        then obtain j where "j < length ds" "isr_vibration (ds ! j) > 80" "isr_stop_ok env (Suc n + j)"
          by blast
        then have "Suc j < length (d # ds) \<and> isr_vibration ((d # ds) ! Suc j) > 80
            \<and> isr_stop_ok env (n + Suc j)" by simp
        then show ?L by blast
      qed
    qed
    then show ?thesis by simp
  qed
  finally show ?case .
qed

lemma signal_sensors_calibrated_keeps:
  assumes "signal_sensors_calibrated ok g k loc = (g', k', loc')"
  shows "emergency_stop g' = emergency_stop g" and "xSensorISRQueue k' = xSensorISRQueue k"
  using assms
  by (auto simp: signal_sensors_calibrated_def system_mutex_section_def Let_def split: if_splits)

lemma update_isr_latency_keeps:
  "emergency_stop (update_isr_latency ok n ml g) = emergency_stop g"
  by (simp add: update_isr_latency_def system_mutex_section_def Let_def)

lemma vSensorTask_cycle_stop:
  assumes "vSensorTask_cycle env (g, k, loc) = (g', k', loc')"
  shows "emergency_stop g' =
     (emergency_stop g \<or> (\<exists>i < length (xSensorISRQueue k).
        isr_vibration (xSensorISRQueue k ! i) > 80 \<and> isr_stop_ok (isr_env env) i))"
proof -
  let ?loc1 = "loc\<lparr>sn_cycle_count := sn_cycle_count loc + 1\<rparr>"
  obtain g1 k1 loc2 where sg: "signal_sensors_calibrated (calib_stats_ok env) g k ?loc1 = (g1, k1, loc2)"
    by (metis surj_pair)
  obtain n ml bv g2 where dr: "drain_isr_queue (isr_env env) 0 (xSensorISRQueue k1)
      (0xFFFFFFFF, base_vibration loc2, g1) = (n, ml, bv, g2)" by (metis surj_pair)
  have pub: "emergency_stop (system_mutex_section ok (\<lambda>x. x\<lparr>sensors := r\<rparr>) h) = emergency_stop h"
    for ok r h by (simp add: system_mutex_section_def Let_def)
  from assms sg dr have "emergency_stop g' = emergency_stop g2"
    by (auto simp: vSensorTask_cycle_def Let_def pub update_isr_latency_keeps)
  with drain_isr_queue_stop[OF dr] signal_sensors_calibrated_keeps[OF sg] show ?thesis by simp
qed

text \<open>
  Claim C6, amended. When a pass of the sensor task drains a deferred sample with a
  vibration above 80 and obtains the state mutex for the write, the emergency stop flag of
  the shared state is set at the end of the pass, whatever the readings, the thresholds
  and the alarm flags are. The pass leaves the state of the safety task as it was: no
  alarm flag, no alarm count and no activation timestamp is written. Without such a
  sample the pass leaves the flag as it was.
\<close>

theorem sensor_task_sets_emergency_stop:
  assumes "sensor_pass env (s, loc) = (s', loc')"
  shows "((\<exists>i < length (xSensorISRQueue (sys_kernel s)).
            isr_vibration (xSensorISRQueue (sys_kernel s) ! i) > 80 \<and> isr_stop_ok (isr_env env) i)
          \<longrightarrow> emergency_stop (sys_shared s'))
       \<and> (\<not> (\<exists>i < length (xSensorISRQueue (sys_kernel s)).
            isr_vibration (xSensorISRQueue (sys_kernel s) ! i) > 80 \<and> isr_stop_ok (isr_env env) i)
          \<longrightarrow> emergency_stop (sys_shared s') = emergency_stop (sys_shared s))
       \<and> sys_safety s' = sys_safety s"
proof -
  obtain g' k' where c: "vSensorTask_cycle env (sys_shared s, sys_kernel s, loc) = (g', k', loc')"
    and s': "s' = s\<lparr>sys_shared := g', sys_kernel := k'\<rparr>"
    using assms by (auto simp: sensor_pass_def split: prod.splits)
  from vSensorTask_cycle_stop[OF c] s' show ?thesis by auto
qed

text \<open>
  Claim C6 as stated (the sensor task sets the flag whenever it drains a sample above 80)
  fails when the take that guards the write times out: the pass drains a sample with
  vibration 85 and leaves the flag clear.
\<close>

theorem sample_above_80_with_timeout_sets_nothing:
  "isr_vibration (hd (xSensorISRQueue (sys_kernel system_with_sample))) > 80
   \<and> \<not> emergency_stop (sys_shared (fst (sensor_pass sensor_env_stop_timeout
          (system_with_sample, init_sensor_locals))))"
proof -
  obtain g' k' loc' where c: "vSensorTask_cycle sensor_env_stop_timeout
      (sys_shared system_with_sample, sys_kernel system_with_sample, init_sensor_locals)
      = (g', k', loc')" by (metis surj_pair)
  have "\<not> emergency_stop g'"
    using vSensorTask_cycle_stop[OF c]
    by (simp add: system_with_sample_def system_state_init_def sensor_env_stop_timeout_def
          sensor_env_ok_def isr_env_ok_def)
  then show ?thesis
    using c by (simp add: sensor_pass_def system_with_sample_def idle_kernel_def
          violent_sample_def)
qed

theorem sensor_task_sets_emergency_stop_witness:
  "emergency_stop (sys_shared (fst (sensor_pass sensor_env_ok (system_with_sample, init_sensor_locals))))
   \<and> sys_safety (fst (sensor_pass sensor_env_ok (system_with_sample, init_sensor_locals)))
       = init_safety_state
   \<and> \<not> emergency_stop (sys_shared (fst (sensor_pass sensor_env_ok
          (system_with_sample\<lparr>sys_kernel := idle_kernel\<rparr>, init_sensor_locals))))"
proof -
  obtain s1 l1 where p1: "sensor_pass sensor_env_ok (system_with_sample, init_sensor_locals) = (s1, l1)"
    by (metis surj_pair)
  obtain s2 l2 where p2: "sensor_pass sensor_env_ok
      (system_with_sample\<lparr>sys_kernel := idle_kernel\<rparr>, init_sensor_locals) = (s2, l2)"
    by (metis surj_pair)
  have a: "emergency_stop (sys_shared s1) \<and> sys_safety s1 = init_safety_state"
    using sensor_task_sets_emergency_stop[OF p1]
    by (simp add: system_with_sample_def idle_kernel_def violent_sample_def sensor_env_ok_def
          isr_env_ok_def)
  have b: "\<not> emergency_stop (sys_shared s2)"
    using sensor_task_sets_emergency_stop[OF p2]
    by (simp add: system_with_sample_def idle_kernel_def system_state_init_def)
  from a b show ?thesis by (simp add: p1 p2)
qed

lemma advance_simulation_calibrated:
  "sensors_calibrated (advance_simulation env loc) = sensors_calibrated loc"
  by (simp add: advance_simulation_def Let_def)

lemma vSensorTask_cycle_bits:
  assumes "vSensorTask_cycle env (g, k, loc) = (g', k', loc')"
  shows "xSystemReadyEvents k' =
           (if \<not> sensors_calibrated loc \<and> 20 \<le> sn_cycle_count loc + 1
            then xSystemReadyEvents k OR SENSORS_CALIBRATED_BIT else xSystemReadyEvents k)"
    and "sensors_calibrated loc' = (sensors_calibrated loc \<or> 20 \<le> sn_cycle_count loc + 1)"
proof -
  let ?loc1 = "loc\<lparr>sn_cycle_count := sn_cycle_count loc + 1\<rparr>"
  obtain g1 k1 loc2 where sg: "signal_sensors_calibrated (calib_stats_ok env) g k ?loc1 = (g1, k1, loc2)"
    by (metis surj_pair)
  obtain n ml bv g2 where dr: "drain_isr_queue (isr_env env) 0 (xSensorISRQueue k1)
      (0xFFFFFFFF, base_vibration loc2, g1) = (n, ml, bv, g2)" by (metis surj_pair)
  from assms sg dr have k': "xSystemReadyEvents k' = xSystemReadyEvents k1"
    and l': "sensors_calibrated loc' = sensors_calibrated loc2"
    by (auto simp: vSensorTask_cycle_def Let_def advance_simulation_calibrated)
  from sg have "xSystemReadyEvents k1 =
           (if \<not> sensors_calibrated loc \<and> 20 \<le> sn_cycle_count loc + 1
            then xSystemReadyEvents k OR SENSORS_CALIBRATED_BIT else xSystemReadyEvents k)"
    and "sensors_calibrated loc2 = (sensors_calibrated loc \<or> 20 \<le> sn_cycle_count loc + 1)"
    by (auto simp: signal_sensors_calibrated_def xEventGroupSetBits_def split: if_splits)
  with k' l' show "xSystemReadyEvents k' =
           (if \<not> sensors_calibrated loc \<and> 20 \<le> sn_cycle_count loc + 1
            then xSystemReadyEvents k OR SENSORS_CALIBRATED_BIT else xSystemReadyEvents k)"
    and "sensors_calibrated loc' = (sensors_calibrated loc \<or> 20 \<le> sn_cycle_count loc + 1)"
    by simp_all
qed

lemma signal_anomaly_ready_bits:
  assumes "signal_anomaly_ready ok ds g k loc = (g', k', loc')"
  shows "xSystemReadyEvents k' =
           (if \<not> anomaly_ready loc \<and> BASELINE_WINDOW \<le> history_index ds
            then xSystemReadyEvents k OR ANOMALY_READY_BIT else xSystemReadyEvents k)"
    and "anomaly_ready loc' = (anomaly_ready loc \<or> BASELINE_WINDOW \<le> history_index ds)"
  using assms
  by (auto simp: signal_anomaly_ready_def xEventGroupSetBits_def split: if_splits)

lemma send_anomaly_alert_bits:
  assumes "send_anomaly_alert ok now cnt g k = (g', k')"
  shows "xSystemReadyEvents k' = xSystemReadyEvents k"
  using assms by (auto simp: send_anomaly_alert_def Let_def split: if_splits)

lemma vAnomalyTask_report_bits:
  assumes "vAnomalyTask_report env items_processed ds2 g2 k1 loc1 = (g4, k3, loc2)"
  shows "xSystemReadyEvents k3 =
           (if 0 < items_processed \<and> \<not> anomaly_ready loc1 \<and> BASELINE_WINDOW \<le> history_index ds2
            then xSystemReadyEvents k1 OR ANOMALY_READY_BIT else xSystemReadyEvents k1)"
    and "anomaly_ready loc2 =
           (anomaly_ready loc1 \<or> (0 < items_processed \<and> BASELINE_WINDOW \<le> history_index ds2))"
proof -
  have "xSystemReadyEvents k3 =
           (if 0 < items_processed \<and> \<not> anomaly_ready loc1 \<and> BASELINE_WINDOW \<le> history_index ds2
            then xSystemReadyEvents k1 OR ANOMALY_READY_BIT else xSystemReadyEvents k1)
     \<and> anomaly_ready loc2 =
           (anomaly_ready loc1 \<or> (0 < items_processed \<and> BASELINE_WINDOW \<le> history_index ds2))"
  proof (cases "0 < items_processed")
    case False
    with assms show ?thesis by (simp add: vAnomalyTask_report_def)
  next
    case True
    obtain g3 k2 l2 where sg: "signal_anomaly_ready (ready_stats_ok env) ds2 g2 k1 loc1 = (g3, k2, l2)"
      by (metis surj_pair)
    obtain g5 k4 where sa: "send_anomaly_alert (alert_ok env) (alert_tick env)
        (an_cycle_count l2) g3 k2 = (g5, k4)" by (metis surj_pair)
    from assms True sg sa have r: "k3 = k4" "loc2 = l2"
      by (simp_all add: vAnomalyTask_report_def)
    from signal_anomaly_ready_bits[OF sg] send_anomaly_alert_bits[OF sa] r True
    show ?thesis by simp
  qed
  then show "xSystemReadyEvents k3 =
           (if 0 < items_processed \<and> \<not> anomaly_ready loc1 \<and> BASELINE_WINDOW \<le> history_index ds2
            then xSystemReadyEvents k1 OR ANOMALY_READY_BIT else xSystemReadyEvents k1)"
    and "anomaly_ready loc2 =
           (anomaly_ready loc1 \<or> (0 < items_processed \<and> BASELINE_WINDOW \<le> history_index ds2))"
    by simp_all
qed

lemma check_network_reconnect_bits:
  assumes "check_network_reconnect read_ok r write_ok g k = (g', k')" and "\<not> network_connected g"
  shows "xSystemReadyEvents k' =
           (if r mod 100 < 50 then xSystemReadyEvents k OR NETWORK_CONNECTED_BIT
            else xSystemReadyEvents k)"
  using assms
  by (auto simp: check_network_reconnect_def xEventGroupSetBits_def Let_def split: if_splits)

lemma transmit_packet_bits:
  assumes "transmit_packet r ok now sz g k ns = (success, g', k', ns')"
  shows "xSystemReadyEvents k' =
           (if r mod 100 < 5 then xSystemReadyEvents k AND NOT NETWORK_CONNECTED_BIT
            else xSystemReadyEvents k)"
  using assms
  by (auto simp: transmit_packet_def xEventGroupClearBits_def Let_def split: if_splits)

lemma send_packet_pass_bits:
  assumes "send_packet_pass env ap cnt g k ns = (g', k', ns')"
  shows "xSystemReadyEvents k' =
           (if malloc_ok env \<and> rand_transmit env mod 100 < 5
            then xSystemReadyEvents k AND NOT NETWORK_CONNECTED_BIT else xSystemReadyEvents k)"
proof (cases "malloc_ok env")
  case False
  with assms show ?thesis by (auto simp: send_packet_pass_def allocate_packet_def Let_def)
next
  case True
  let ?type = "if cnt mod 10 = 0 then PACKET_TYPE_HEARTBEAT
             else if emergency_stop g \<or> health_score (anomalies g) < 50 \<or> ap > 0
             then PACKET_TYPE_ANOMALY_REPORT
             else PACKET_TYPE_SENSOR_DATA"
  let ?g1 = "update_memory_stats_alloc (alloc_stats_ok env) (free_after_alloc env)
               (packet_size_of ?type) g"
  let ?k1 = "k\<lparr>heap_blocks := packet_size_of ?type # heap_blocks k\<rparr>"
  obtain s g2 k2 ns1 where tp: "transmit_packet (rand_transmit env) (disconnect_ok env)
      (transmit_tick env) (content_size env) ?g1 ?k1 ns = (s, g2, k2, ns1)" by (metis surj_pair)
  from assms True tp have "xSystemReadyEvents k' = xSystemReadyEvents k2"
    by (auto simp: send_packet_pass_def allocate_packet_def free_packet_def Let_def split: if_splits)
  with transmit_packet_bits[OF tp] True show ?thesis by simp
qed

lemma vNetworkTask_cycle_bits:
  assumes cyc: "vNetworkTask_cycle env (g, k, ns, loc) = (g', k', ns', loc')"
  shows "xSystemReadyEvents k' =
     (let b1 = (if \<not> network_connected g \<and> rand_reconnect env mod 100 < 50
                then xSystemReadyEvents k OR NETWORK_CONNECTED_BIT else xSystemReadyEvents k)
      in if reaches_allocation env g \<and> malloc_ok env \<and> rand_transmit env mod 100 < 5
         then b1 AND NOT NETWORK_CONNECTED_BIT else b1)"
proof -
  let ?q = "xQueueReceive (xAnomalyAlertQueue k)"
  obtain ap k1 ns1 where rcv: "(case ?q of None \<Rightarrow> (0::nat, k, ns)
        | Some (alert, rest) \<Rightarrow> (1, k\<lparr>xAnomalyAlertQueue := rest\<rparr>,
             ns\<lparr>anomaly_alerts_sent := anomaly_alerts_sent ns + 1\<rparr>)) = (ap, k1, ns1)"
    by (metis surj_pair)
  then have k1: "xSystemReadyEvents k1 = xSystemReadyEvents k" by (auto split: option.splits)
  obtain g1 k2 where rc: "(if \<not> network_connected g
             then check_network_reconnect (reconnect_read_ok env) (rand_reconnect env)
                    (reconnect_write_ok env) g k1
             else (g, k1)) = (g1, k2)" by (metis surj_pair)
  have k2: "xSystemReadyEvents k2 = (if \<not> network_connected g \<and> rand_reconnect env mod 100 < 50
                then xSystemReadyEvents k OR NETWORK_CONNECTED_BIT else xSystemReadyEvents k)"
    and c1: "network_connected g1 = reaches_allocation env g"
  proof -
    show "xSystemReadyEvents k2 = (if \<not> network_connected g \<and> rand_reconnect env mod 100 < 50
                then xSystemReadyEvents k OR NETWORK_CONNECTED_BIT else xSystemReadyEvents k)"
    proof (cases "network_connected g")
      case True
      with rc k1 show ?thesis by simp
    next
      case False
      with rc have "check_network_reconnect (reconnect_read_ok env) (rand_reconnect env)
                    (reconnect_write_ok env) g k1 = (g1, k2)" by simp
      from check_network_reconnect_bits[OF this False] False k1 show ?thesis by simp
    qed
    show "network_connected g1 = reaches_allocation env g"
    proof (cases "network_connected g")
      case True
      with rc show ?thesis by (simp add: reaches_allocation_def)
    next
      case False
      with rc have "check_network_reconnect (reconnect_read_ok env) (rand_reconnect env)
                    (reconnect_write_ok env) g k1 = (g1, k2)" by simp
      from check_network_reconnect_result(3)[OF this False] False
      show ?thesis by (simp add: reaches_allocation_def)
    qed
  qed
  show ?thesis
  proof (cases "network_connected g1")
    case False
    with cyc rcv rc have "k' = k2" by (simp_all add: vNetworkTask_cycle_def Let_def)
    with False k2 c1 show ?thesis by (simp add: Let_def)
  next
    case True
    obtain g2 k3 ns2 where sp: "send_packet_pass env ap (nw_cycle_count loc + 1) g1 k2 ns1
        = (g2, k3, ns2)" by (metis surj_pair)
    with cyc rcv rc True have r: "k' = k3" by (simp_all add: vNetworkTask_cycle_def Let_def)
    from send_packet_pass_bits[OF sp] True k2 c1 r show ?thesis by (simp add: Let_def)
  qed
qed

lemma mask_algebra:
  fixes b m :: uint32_t
  shows "(b OR m) AND NOT m = b AND NOT m"
    and "(b AND NOT m) AND NOT m = b AND NOT m"
    and "(b AND NOT m) AND m = 0"
    and "(b OR m) AND m = m"
    and "(b OR m) OR m = b OR m"
  by (auto simp: bit_eq_iff bit_and_iff bit_or_iff bit_not_iff)

lemma disjoint_mask_kept:
  fixes b m s :: uint32_t
  assumes "s AND m = 0"
  shows "(b AND NOT m) AND s = b AND s" and "(b OR m) AND s = b AND s"
proof -
  from assms have d: "\<not> (bit s n \<and> bit m n)" for n
    by (metis bit_0_eq bit_and_iff bot_apply bot_bool_def)
  show "(b AND NOT m) AND s = b AND s" and "(b OR m) AND s = b AND s"
    using d by (auto simp: bit_eq_iff bit_and_iff bit_or_iff bit_not_iff)
qed

lemma readiness_bits_disjoint:
  "SENSORS_CALIBRATED_BIT AND NETWORK_CONNECTED_BIT = 0"
  "ANOMALY_READY_BIT AND NETWORK_CONNECTED_BIT = 0"
  by (simp_all add: NETWORK_CONNECTED_BIT_def SENSORS_CALIBRATED_BIT_def ANOMALY_READY_BIT_def)

lemmas other_bits_kept =
  disjoint_mask_kept[OF readiness_bits_disjoint(1)] disjoint_mask_kept[OF readiness_bits_disjoint(2)]

lemma vSafetyTask_startup_result:
  assumes "vSafetyTask_startup stats_ok now (g, k) = Some (g', k', system_ready)"
  shows "xSystemReadyEvents k' = xSystemReadyEvents k" and system_ready
    and "xSystemReadyEvents k AND ALL_SYSTEMS_READY = ALL_SYSTEMS_READY"
  using assms
  by (auto simp: vSafetyTask_startup_def xEventGroupWaitBits_def split: if_splits)

lemma vSafetyTask_startup_waits:
  "xSystemReadyEvents k AND ALL_SYSTEMS_READY \<noteq> ALL_SYSTEMS_READY
     \<Longrightarrow> vSafetyTask_startup stats_ok now (g, k) = None"
  by (simp add: vSafetyTask_startup_def xEventGroupWaitBits_def)

lemma vSafetyTask_startup_returns:
  "xSystemReadyEvents k AND ALL_SYSTEMS_READY = ALL_SYSTEMS_READY
     \<Longrightarrow> \<exists>g'. vSafetyTask_startup stats_ok now (g, k) = Some (g', k, True)"
  by (simp add: vSafetyTask_startup_def xEventGroupWaitBits_def)

text \<open>
  Claim C5, amended. A pass of the sensor task sets the calibrated bit exactly when its
  latch \<open>sensors_calibrated\<close> is clear and 20 passes have been made; that pass sets the
  latch, and the latch is never cleared, so the bit is set once. In a pass of the anomaly
  task, the part before the call of \<open>detect_anomalies\<close> leaves the event group and the latch
  \<open>anomaly_ready\<close> as they were, the call has no access to them, and the part after it,
  whatever the call has left, sets the anomaly ready bit exactly when a reading was
  received, the latch is clear and \<open>history_index\<close> has reached the window size; that pass
  sets the latch, and the latch is never cleared. A pass of the network task changes no
  bit but the network connected bit: it leaves the bit cleared when the transmission of
  the pass fails, and set when the pass reconnects and no transmission fails. The wait of
  the safety task at its start returns only with the three bits set and leaves the event
  group as it was. Setting bits that are set leaves the group as it was.
\<close>

theorem readiness_bits_discipline:
  "(vSensorTask_cycle senv (g1, k1, sl) = (g1', k1', sl') \<longrightarrow>
      xSystemReadyEvents k1' =
        (if \<not> sensors_calibrated sl \<and> 20 \<le> sn_cycle_count sl + 1
         then xSystemReadyEvents k1 OR SENSORS_CALIBRATED_BIT else xSystemReadyEvents k1)
      \<and> sensors_calibrated sl' = (sensors_calibrated sl \<or> 20 \<le> sn_cycle_count sl + 1))
   \<and> (vAnomalyTask_receive aenv g2 k2 al = (items_processed, g2r, k2r, alr)
        \<and> vAnomalyTask_report aenv items_processed ds gd k2r alr = (g2', k2', al') \<longrightarrow>
      xSystemReadyEvents k2r = xSystemReadyEvents k2 \<and> anomaly_ready alr = anomaly_ready al
      \<and> xSystemReadyEvents k2' =
        (if xSensorDataQueue k2 \<noteq> [] \<and> \<not> anomaly_ready al \<and> BASELINE_WINDOW \<le> history_index ds
         then xSystemReadyEvents k2 OR ANOMALY_READY_BIT else xSystemReadyEvents k2)
      \<and> anomaly_ready al' =
        (anomaly_ready al \<or> (xSensorDataQueue k2 \<noteq> [] \<and> BASELINE_WINDOW \<le> history_index ds)))
   \<and> (vNetworkTask_cycle nenv (g3, k3, ns, nl) = (g3', k3', ns', nl') \<longrightarrow>
      xSystemReadyEvents k3' AND NOT NETWORK_CONNECTED_BIT
        = xSystemReadyEvents k3 AND NOT NETWORK_CONNECTED_BIT
      \<and> xSystemReadyEvents k3' AND SENSORS_CALIBRATED_BIT
        = xSystemReadyEvents k3 AND SENSORS_CALIBRATED_BIT
      \<and> xSystemReadyEvents k3' AND ANOMALY_READY_BIT
        = xSystemReadyEvents k3 AND ANOMALY_READY_BIT
      \<and> (reaches_allocation nenv g3 \<and> malloc_ok nenv \<and> rand_transmit nenv mod 100 < 5 \<longrightarrow>
           xSystemReadyEvents k3' AND NETWORK_CONNECTED_BIT = 0)
      \<and> (\<not> network_connected g3 \<and> rand_reconnect nenv mod 100 < 50
           \<and> \<not> (reaches_allocation nenv g3 \<and> malloc_ok nenv \<and> rand_transmit nenv mod 100 < 5) \<longrightarrow>
           xSystemReadyEvents k3' AND NETWORK_CONNECTED_BIT = NETWORK_CONNECTED_BIT))
   \<and> (vSafetyTask_startup stats_ok now (g4, k4) = Some (g4', k4', system_ready) \<longrightarrow>
      xSystemReadyEvents k4' = xSystemReadyEvents k4 \<and> system_ready
      \<and> xSystemReadyEvents k4 AND ALL_SYSTEMS_READY = ALL_SYSTEMS_READY)
   \<and> xEventGroupSetBits (xEventGroupSetBits b x) x = xEventGroupSetBits b x"
proof (intro conjI impI)
  assume c: "vSensorTask_cycle senv (g1, k1, sl) = (g1', k1', sl')"
  show "xSystemReadyEvents k1' =
        (if \<not> sensors_calibrated sl \<and> 20 \<le> sn_cycle_count sl + 1
         then xSystemReadyEvents k1 OR SENSORS_CALIBRATED_BIT else xSystemReadyEvents k1)"
    by (rule vSensorTask_cycle_bits(1)[OF c])
  show "sensors_calibrated sl' = (sensors_calibrated sl \<or> 20 \<le> sn_cycle_count sl + 1)"
    by (rule vSensorTask_cycle_bits(2)[OF c])
next
  assume c: "vAnomalyTask_receive aenv g2 k2 al = (items_processed, g2r, k2r, alr)
        \<and> vAnomalyTask_report aenv items_processed ds gd k2r alr = (g2', k2', al')"
  then have rcv: "vAnomalyTask_receive aenv g2 k2 al = (items_processed, g2r, k2r, alr)"
    and rep: "vAnomalyTask_report aenv items_processed ds gd k2r alr = (g2', k2', al')"
    by simp_all
  note a = vAnomalyTask_receive_result[OF rcv]
  note r = vAnomalyTask_report_bits[OF rep]
  from a(1) have l: "anomaly_ready alr = anomaly_ready al" by simp
  show "xSystemReadyEvents k2r = xSystemReadyEvents k2" by (rule a(4))
  show "anomaly_ready alr = anomaly_ready al" by (rule l)
  show "xSystemReadyEvents k2' =
        (if xSensorDataQueue k2 \<noteq> [] \<and> \<not> anomaly_ready al \<and> BASELINE_WINDOW \<le> history_index ds
         then xSystemReadyEvents k2 OR ANOMALY_READY_BIT else xSystemReadyEvents k2)"
    unfolding r(1) a(2) a(4) l ..
  show "anomaly_ready al' =
        (anomaly_ready al \<or> (xSensorDataQueue k2 \<noteq> [] \<and> BASELINE_WINDOW \<le> history_index ds))"
    unfolding r(2) a(2) l ..
next
  assume c: "vNetworkTask_cycle nenv (g3, k3, ns, nl) = (g3', k3', ns', nl')"
  note b = vNetworkTask_cycle_bits[OF c]
  show "xSystemReadyEvents k3' AND NOT NETWORK_CONNECTED_BIT
        = xSystemReadyEvents k3 AND NOT NETWORK_CONNECTED_BIT"
    unfolding b by (simp add: Let_def mask_algebra)
  show "xSystemReadyEvents k3' AND SENSORS_CALIBRATED_BIT
        = xSystemReadyEvents k3 AND SENSORS_CALIBRATED_BIT"
    unfolding b by (simp add: Let_def other_bits_kept)
  show "xSystemReadyEvents k3' AND ANOMALY_READY_BIT
        = xSystemReadyEvents k3 AND ANOMALY_READY_BIT"
    unfolding b by (simp add: Let_def other_bits_kept)
  {
    assume "reaches_allocation nenv g3 \<and> malloc_ok nenv \<and> rand_transmit nenv mod 100 < 5"
    then show "xSystemReadyEvents k3' AND NETWORK_CONNECTED_BIT = 0"
      unfolding b by (simp add: Let_def mask_algebra)
  }
  {
    assume "\<not> network_connected g3 \<and> rand_reconnect nenv mod 100 < 50
           \<and> \<not> (reaches_allocation nenv g3 \<and> malloc_ok nenv \<and> rand_transmit nenv mod 100 < 5)"
    then show "xSystemReadyEvents k3' AND NETWORK_CONNECTED_BIT = NETWORK_CONNECTED_BIT"
      unfolding b by (auto simp add: Let_def mask_algebra)
  }
next
  assume c: "vSafetyTask_startup stats_ok now (g4, k4) = Some (g4', k4', system_ready)"
  note r = vSafetyTask_startup_result[OF c]
  show "xSystemReadyEvents k4' = xSystemReadyEvents k4" by (rule r(1))
  show system_ready by (rule r(2))
  show "xSystemReadyEvents k4 AND ALL_SYSTEMS_READY = ALL_SYSTEMS_READY" by (rule r(3))
next
  show "xEventGroupSetBits (xEventGroupSetBits b x) x = xEventGroupSetBits b x"
    by (simp add: xEventGroupSetBits_def mask_algebra)
qed

text \<open>
  Claim C5 as stated (no readiness flag is ever cleared) fails for the network connected
  flag: with the three bits set, a pass of the network task whose simulated transmission
  fails clears the bit with \<open>xEventGroupClearBits\<close>.
\<close>

theorem transmission_failure_clears_network_bit:
  "xSystemReadyEvents ready_kernel AND NETWORK_CONNECTED_BIT = NETWORK_CONNECTED_BIT
   \<and> xSystemReadyEvents (fst (snd (vNetworkTask_cycle network_env_failing
        (system_state_init 0, ready_kernel, init_network_stats, \<lparr>nw_cycle_count = 0\<rparr>))))
       AND NETWORK_CONNECTED_BIT = 0"
proof -
  obtain g' k' ns' loc' where c: "vNetworkTask_cycle network_env_failing
        (system_state_init 0, ready_kernel, init_network_stats, \<lparr>nw_cycle_count = 0\<rparr>)
      = (g', k', ns', loc')" by (metis surj_pair)
  have "xSystemReadyEvents k' AND NETWORK_CONNECTED_BIT = 0"
    unfolding vNetworkTask_cycle_bits[OF c]
    by (simp add: Let_def mask_algebra reaches_allocation_def system_state_init_def
          network_env_failing_def network_env_ok_def)
  moreover have "xSystemReadyEvents ready_kernel AND NETWORK_CONNECTED_BIT = NETWORK_CONNECTED_BIT"
    by (simp add: ready_kernel_def idle_kernel_def ALL_SYSTEMS_READY_def NETWORK_CONNECTED_BIT_def
          SENSORS_CALIBRATED_BIT_def ANOMALY_READY_BIT_def)
  ultimately show ?thesis by (simp add: c)
qed

theorem readiness_bits_discipline_witness:
  "xSystemReadyEvents (fst (snd (vSensorTask_cycle sensor_env_ok
       (system_state_init 0, idle_kernel, init_sensor_locals\<lparr>sn_cycle_count := 19\<rparr>))))
     = SENSORS_CALIBRATED_BIT
   \<and> sensors_calibrated (snd (snd (vSensorTask_cycle sensor_env_ok
       (system_state_init 0, idle_kernel, init_sensor_locals\<lparr>sn_cycle_count := 19\<rparr>))))
   \<and> xSystemReadyEvents (fst (snd (vAnomalyTask_report (anomaly_env_ok 400) 1
       (steady_detection_state\<lparr>history_index := 101\<rparr>) (system_state_init 0) idle_kernel
       \<lparr>an_cycle_count = 1, anomaly_ready = False\<rparr>)))
     = ANOMALY_READY_BIT
   \<and> anomaly_ready (snd (snd (vAnomalyTask_report (anomaly_env_ok 400) 1
       (steady_detection_state\<lparr>history_index := 101\<rparr>) (system_state_init 0) idle_kernel
       \<lparr>an_cycle_count = 1, anomaly_ready = False\<rparr>)))
   \<and> xSystemReadyEvents (fst (snd (vNetworkTask_cycle network_env_failing
        (system_state_init 0, ready_kernel, init_network_stats, \<lparr>nw_cycle_count = 0\<rparr>))))
       AND SENSORS_CALIBRATED_BIT = SENSORS_CALIBRATED_BIT
   \<and> xSystemReadyEvents (fst (snd (the (vSafetyTask_startup True 500
        (system_state_init 0, ready_kernel)))))
     = ALL_SYSTEMS_READY
   \<and> vSafetyTask_startup True 500 (system_state_init 0, ready_kernel) \<noteq> None"
proof -
  obtain g1 k1 l1 where c1: "vSensorTask_cycle sensor_env_ok
       (system_state_init 0, idle_kernel, init_sensor_locals\<lparr>sn_cycle_count := 19\<rparr>) = (g1, k1, l1)"
    by (metis surj_pair)
  let ?k = "idle_kernel\<lparr>xSensorDataQueue := [steady_reading]\<rparr>"
  let ?loc = "\<lparr>an_cycle_count = 0, anomaly_ready = False\<rparr>"
  let ?loc1 = "\<lparr>an_cycle_count = 1, anomaly_ready = False\<rparr>"
  let ?ds = "steady_detection_state\<lparr>history_index := 101\<rparr>"
  obtain gr where rcv: "vAnomalyTask_receive (anomaly_env_ok 400) (system_state_init 0) ?k ?loc
      = (1, gr, idle_kernel, ?loc1)"
    by (simp add: vAnomalyTask_receive_def Let_def anomaly_env_ok_def idle_kernel_def
          xQueueReceive_def numeral_2_eq_2)
  obtain g2 k2 l2 where rep: "vAnomalyTask_report (anomaly_env_ok 400) 1 ?ds (system_state_init 0)
      idle_kernel ?loc1 = (g2, k2, l2)" by (metis surj_pair)
  obtain g3 k3 ns3 l3 where c3: "vNetworkTask_cycle network_env_failing
        (system_state_init 0, ready_kernel, init_network_stats, \<lparr>nw_cycle_count = 0\<rparr>)
      = (g3, k3, ns3, l3)" by (metis surj_pair)
  have al: "xSystemReadyEvents ready_kernel AND ALL_SYSTEMS_READY = ALL_SYSTEMS_READY"
    by (simp add: ready_kernel_def idle_kernel_def)
  from vSafetyTask_startup_returns[OF al]
  obtain g4 where c4: "vSafetyTask_startup True 500 (system_state_init 0, ready_kernel)
      = Some (g4, ready_kernel, True)" by blast
  note t = readiness_bits_discipline[of sensor_env_ok "system_state_init 0" idle_kernel
      "init_sensor_locals\<lparr>sn_cycle_count := 19\<rparr>" g1 k1 l1
      "anomaly_env_ok 400" "system_state_init 0" ?k ?loc 1 gr idle_kernel ?loc1
      ?ds "system_state_init 0" g2 k2 l2
      network_env_failing "system_state_init 0" ready_kernel init_network_stats
      "\<lparr>nw_cycle_count = 0\<rparr>" g3 k3 ns3 l3
      True 500 "system_state_init 0" ready_kernel g4 ready_kernel True]
  have a: "xSystemReadyEvents k1 = SENSORS_CALIBRATED_BIT" "sensors_calibrated l1"
    using t c1 by (simp_all add: init_sensor_locals_def idle_kernel_def)
  have b: "xSystemReadyEvents k2 = ANOMALY_READY_BIT" "anomaly_ready l2"
    using t rcv rep
    by (simp_all add: idle_kernel_def steady_detection_state_def BASELINE_WINDOW_def)
  have c: "xSystemReadyEvents k3 AND SENSORS_CALIBRATED_BIT = SENSORS_CALIBRATED_BIT"
    using t c3
    by (simp add: ready_kernel_def idle_kernel_def ALL_SYSTEMS_READY_def NETWORK_CONNECTED_BIT_def
          SENSORS_CALIBRATED_BIT_def ANOMALY_READY_BIT_def)
  have d: "xSystemReadyEvents ready_kernel = ALL_SYSTEMS_READY"
    using t c4 by (simp add: ready_kernel_def idle_kernel_def)
  from a b c d rep show ?thesis by (simp add: c1 c3 c4)
qed

end
